(* ===== verification/Encoding.thy ===== *)
theory Encoding
  imports Prelude
begin

text \<open>
  How the digests frame their input: big-endian integers (\<open>to_be_bytes\<close>), length-prefixed
  byte fields (\<open>digest_field\<close>) and tagged optional numbers. The locale \<open>framing\<close> is what a
  digest needs of an encoder: a value's encoding ends where it says it ends, so the bytes
  that follow cannot be confused with it. Every encoder here is shown to have it, and with it
  a hashed byte string determines the values it was built from.
\<close>

subsection \<open>Big-endian integers\<close>

definition be32 :: "u32 \<Rightarrow> bytes" where
  "be32 w = map (\<lambda>i. ucast (drop_bit i w)) [24, 16, 8, 0]"

definition be64 :: "u64 \<Rightarrow> bytes" where
  "be64 w = map (\<lambda>i. ucast (drop_bit i w)) [56, 48, 40, 32, 24, 16, 8, 0]"

lemma length_be [simp]: "length (be32 w) = 4" "length (be64 v) = 8"
  by (simp_all add: be32_def be64_def)

lemma bit_byte:
  "j < 8 \<Longrightarrow> bit (ucast (drop_bit i w) :: byte) j = bit (w :: 'a::len word) (i + j)"
  by (auto simp: bit_unsigned_iff bit_drop_bit_eq)

lemma byte_window_eq:
  assumes "(ucast (drop_bit i v) :: byte) = ucast (drop_bit i w)" and "i \<le> n" and "n < i + 8"
  shows "bit (v :: 'a::len word) n = bit w n"
  using assms bit_byte [of "n - i" i v] bit_byte [of "n - i" i w] by simp

lemma word_eq_by_bytes:
  fixes v w :: "'a::len word"
  assumes windows: "\<And>k. k < LENGTH('a) div 8 + 1 \<Longrightarrow> k * 8 < LENGTH('a) \<Longrightarrow>
      (ucast (drop_bit (k * 8) v) :: byte) = ucast (drop_bit (k * 8) w)"
  shows "v = w"
proof (rule bit_word_eqI)
  fix n assume n: "n < LENGTH('a)"
  have "(ucast (drop_bit (n div 8 * 8) v) :: byte) = ucast (drop_bit (n div 8 * 8) w)"
  proof (rule windows)
    show "n div 8 < LENGTH('a) div 8 + 1"
      using n by (simp add: div_le_mono less_Suc_eq_le)
    show "n div 8 * 8 < LENGTH('a)"
      using n div_times_less_eq_dividend [of n 8] by linarith
  qed
  then show "bit v n = bit w n"
    by (rule byte_window_eq) presburger+
qed

lemma be32_inject [simp]: "be32 v = be32 w \<longleftrightarrow> v = w"
proof
  assume eq: "be32 v = be32 w"
  show "v = w"
  proof (rule word_eq_by_bytes)
    fix k :: nat
    assume "k * 8 < LENGTH(32)"
    then have "k \<in> {0, 1, 2, 3}" by auto
    then show "(ucast (drop_bit (k * 8) v) :: byte) = ucast (drop_bit (k * 8) w)"
      using eq by (auto simp: be32_def)
  qed
qed simp

lemma be64_inject [simp]: "be64 v = be64 w \<longleftrightarrow> v = w"
proof
  assume eq: "be64 v = be64 w"
  show "v = w"
  proof (rule word_eq_by_bytes)
    fix k :: nat
    assume "k * 8 < LENGTH(64)"
    then have "k \<in> {0, 1, 2, 3, 4, 5, 6, 7}" by auto
    then show "(ucast (drop_bit (k * 8) v) :: byte) = ucast (drop_bit (k * 8) w)"
      using eq by (auto simp: be64_def)
  qed
qed simp

subsection \<open>Framed encoders\<close>

locale framing =
  fixes enc :: "'a \<Rightarrow> bytes" and dom_ok :: "'a \<Rightarrow> bool"
  assumes unframe: "dom_ok a \<Longrightarrow> dom_ok b \<Longrightarrow> enc a @ r = enc b @ s \<Longrightarrow> a = b \<and> r = s"
begin

lemma enc_inject: "dom_ok a \<Longrightarrow> dom_ok b \<Longrightarrow> enc a = enc b \<Longrightarrow> a = b"
  using unframe [of a b "[]" "[]"] by simp

lemma unframe_list:
  assumes "list_all dom_ok xs" and "list_all dom_ok ys" and "length xs = length ys"
    and "concat (map enc xs) @ r = concat (map enc ys) @ s"
  shows "xs = ys \<and> r = s"
  using assms(3,1,2,4)
proof (induction xs ys rule: list_induct2)
  case (Cons x xs y ys)
  then have "enc x @ (concat (map enc xs) @ r) = enc y @ (concat (map enc ys) @ s)" by simp
  then have "x = y \<and> concat (map enc xs) @ r = concat (map enc ys) @ s"
    using Cons.prems by (intro unframe) auto
  then show ?case using Cons by simp
qed simp

end

locale framing_pair = fst_part: framing enc1 ok1 + snd_part: framing enc2 ok2
  for enc1 :: "'a \<Rightarrow> bytes" and ok1 and enc2 :: "'b \<Rightarrow> bytes" and ok2

sublocale framing_pair \<subseteq> pair: framing "\<lambda>(a, b). enc1 a @ enc2 b" "\<lambda>(a, b). ok1 a \<and> ok2 b"
proof unfold_locales
  fix a b :: "'a \<times> 'b" and r s
  obtain a1 a2 b1 b2 where ab: "a = (a1, a2)" "b = (b1, b2)" by (cases a; cases b)
  assume "case a of (a, b) \<Rightarrow> ok1 a \<and> ok2 b" "case b of (a, b) \<Rightarrow> ok1 a \<and> ok2 b"
    and eq: "(case a of (a, b) \<Rightarrow> enc1 a @ enc2 b) @ r = (case b of (a, b) \<Rightarrow> enc1 a @ enc2 b) @ s"
  then have ok: "ok1 a1" "ok2 a2" "ok1 b1" "ok2 b2" by (simp_all add: ab)
  have "enc1 a1 @ (enc2 a2 @ r) = enc1 b1 @ (enc2 b2 @ s)" using eq by (simp add: ab)
  then have "a1 = b1 \<and> enc2 a2 @ r = enc2 b2 @ s" by (rule fst_part.unframe [OF ok(1,3)])
  moreover from this have "a2 = b2 \<and> r = s" using snd_part.unframe [OF ok(2,4)] by blast
  ultimately show "a = b \<and> r = s" by (simp add: ab)
qed

subsection \<open>The program's encoders\<close>

text \<open>\<open>digest_field\<close> of \<open>src/capture.rs\<close>; a Rust vector is shorter than \<open>2 ^ 64\<close>.\<close>

definition fits_usize :: "'a list \<Rightarrow> bool" where
  "fits_usize xs \<longleftrightarrow> length xs < 2 ^ 64"

definition len64 :: "'a list \<Rightarrow> u64" where
  "len64 xs = word_of_nat (length xs)"

definition digest_field :: "bytes \<Rightarrow> bytes" where
  "digest_field value = be64 (len64 value) @ value"

fun enc_ttl :: "u32 option \<Rightarrow> bytes" where
  "enc_ttl (Some live_until) = [1] @ be32 live_until"
| "enc_ttl None = [0]"

lemma unat_len64 [simp]: "fits_usize xs \<Longrightarrow> unat (len64 xs) = length xs"
  by (simp add: len64_def fits_usize_def unat_of_nat)

lemma len64_inject [simp]:
  "fits_usize xs \<Longrightarrow> fits_usize ys \<Longrightarrow> len64 xs = len64 ys \<longleftrightarrow> length xs = length ys"
  by (metis unat_len64 len64_def)

lemma append_same_length:
  "a @ r = b @ s \<Longrightarrow> length a = length b \<Longrightarrow> a = b \<and> r = s"
  by simp

interpretation u32_frame: framing be32 "\<lambda>_. True"
proof unfold_locales
  fix a b :: u32 and r s :: bytes
  assume "be32 a @ r = be32 b @ s"
  then have "be32 a = be32 b \<and> r = s" by (rule append_same_length) simp
  then show "a = b \<and> r = s" by simp
qed

interpretation u64_frame: framing be64 "\<lambda>_. True"
proof unfold_locales
  fix a b :: u64 and r s :: bytes
  assume "be64 a @ r = be64 b @ s"
  then have "be64 a = be64 b \<and> r = s" by (rule append_same_length) simp
  then show "a = b \<and> r = s" by simp
qed

interpretation field_frame: framing digest_field fits_usize
proof unfold_locales
  fix a b r s :: bytes
  assume ok: "fits_usize a" "fits_usize b" and eq: "digest_field a @ r = digest_field b @ s"
  from eq have "be64 (len64 a) @ (a @ r) = be64 (len64 b) @ (b @ s)"
    by (simp add: digest_field_def)
  then have "len64 a = len64 b \<and> a @ r = b @ s" by (rule u64_frame.unframe [OF TrueI TrueI])
  then have "length a = length b \<and> a @ r = b @ s" using ok by simp
  then show "a = b \<and> r = s" by (metis append_same_length)
qed

interpretation ttl_frame: framing enc_ttl "\<lambda>_. True"
proof unfold_locales
  fix a b :: "u32 option" and r s
  assume "enc_ttl a @ r = enc_ttl b @ s"
  then show "a = b \<and> r = s"
    by (cases a; cases b) (auto dest: u32_frame.unframe [OF TrueI TrueI])
qed

end
