(* ===== verification/Btree_Map.thy ===== *)
theory Btree_Map
  imports Prelude "HOL-Library.Multiset"
begin

text \<open>
  The program keeps its ledger state in \<open>BTreeMap<KeyId, V>\<close> and iterates it in key order
  (digests, batches and the first reported error depend on that order), so a map is the
  list of its bindings, sorted strictly by key. \<open>bm_insert\<close> returns the new map;
  \<open>map.insert(k, v).is_none()\<close> of the code is \<open>bm_get m k = None\<close> before the insertion.
  The locale \<open>ordered_map\<close> states what the components rely on, whatever the
  representation; the lemmas on inserting a list of bindings are proved in it once.
\<close>

type_synonym ('k, 'v) bmap = "('k \<times> 'v) list"

definition bm_get :: "('k, 'v) bmap \<Rightarrow> 'k \<Rightarrow> 'v option" where
  "bm_get m k = map_of m k"

definition bm_keys :: "('k, 'v) bmap \<Rightarrow> 'k set" where
  "bm_keys m = fst ` set m"

definition bm_ok :: "('k::linorder, 'v) bmap \<Rightarrow> bool" where
  "bm_ok m \<longleftrightarrow> sorted_wrt (<) (map fst m)"

fun bm_insert :: "'k::linorder \<Rightarrow> 'v \<Rightarrow> ('k, 'v) bmap \<Rightarrow> ('k, 'v) bmap" where
  "bm_insert k v [] = [(k, v)]"
| "bm_insert k v ((l, w) # m) =
     (if k < l then (k, v) # (l, w) # m
      else if k = l then (k, v) # m
      else (l, w) # bm_insert k v m)"

lemma bm_ok_Nil [simp]: "bm_ok []"
  by (simp add: bm_ok_def)

lemma bm_ok_Cons [simp]:
  "bm_ok ((k, v) # m) \<longleftrightarrow> bm_ok m \<and> (\<forall>l\<in>bm_keys m. k < l)"
  by (auto simp: bm_ok_def bm_keys_def)

lemma bm_keys_simps [simp]:
  "bm_keys [] = {}"
  "bm_keys ((k, v) # m) = insert k (bm_keys m)"
  by (simp_all add: bm_keys_def)

lemma bm_keys_get: "k \<in> bm_keys m \<longleftrightarrow> bm_get m k \<noteq> None"
  by (simp add: bm_keys_def bm_get_def map_of_eq_None_iff)

lemma bm_get_simps [simp]:
  "bm_get [] k = None"
  "bm_get ((l, w) # m) k = (if k = l then Some w else bm_get m k)"
  by (simp_all add: bm_get_def)

lemma bm_keys_insert [simp]: "bm_keys (bm_insert k v m) = insert k (bm_keys m)"
  by (induction k v m rule: bm_insert.induct) auto

lemma bm_get_insert: "bm_ok m \<Longrightarrow> bm_get (bm_insert k v m) = (bm_get m)(k := Some v)"
proof (induction k v m rule: bm_insert.induct)
  case (2 k v l w m)
  have "k \<notin> bm_keys m" if "k \<le> l"
    using that "2.prems" by auto
  then have "bm_get m k = None" if "k \<le> l"
    using that by (simp add: bm_keys_get)
  with 2 show ?case by (auto simp: fun_eq_iff)
qed auto

lemma bm_ok_insert: "bm_ok m \<Longrightarrow> bm_ok (bm_insert k v m)"
  by (induction k v m rule: bm_insert.induct) auto

lemma bm_distinct: "bm_ok m \<Longrightarrow> distinct (map fst m)"
  by (simp add: bm_ok_def strict_sorted_iff)

lemma bm_get_mem: "bm_ok m \<Longrightarrow> bm_get m k = Some v \<longleftrightarrow> (k, v) \<in> set m"
  by (simp add: bm_get_def bm_distinct)

lemma bm_get_in_set: "bm_get m k = Some v \<Longrightarrow> (k, v) \<in> set m"
  by (simp add: bm_get_def map_of_SomeD)

lemma bm_ext:
  assumes "bm_ok m" and "bm_ok n" and "bm_get m = bm_get n"
  shows "m = n"
proof -
  have "set m = set n"
  proof -
    have "(k, v) \<in> set m \<longleftrightarrow> (k, v) \<in> set n" for k v
      using assms by (metis bm_get_mem)
    then show ?thesis by auto
  qed
  then have "set (map fst m) = set (map fst n)" by simp
  then have keys: "map fst m = map fst n"
    using assms(1,2) by (simp add: bm_ok_def strict_sorted_equal)
  have rebuild: "map (\<lambda>k. (k, the (bm_get l k))) (map fst l) = l" if "bm_ok l" for l :: "('a, 'b) bmap"
    using that by (auto simp: bm_get_mem [symmetric] intro!: map_idI)
  show ?thesis
    using keys rebuild [OF assms(1)] rebuild [OF assms(2)] assms(3) by metis
qed

lemma bm_set_ext: "bm_ok m \<Longrightarrow> bm_ok n \<Longrightarrow> set m = set n \<Longrightarrow> m = n"
proof (rule bm_ext)
  assume "bm_ok m" "bm_ok n" "set m = set n"
  then have "map_of m = map_of n" by (metis bm_distinct map_of_inject_set)
  then show "bm_get m = bm_get n" by (simp add: bm_get_def fun_eq_iff)
qed auto

lemma bm_ok_sort_key: "bm_ok (sort_key fst kvs) \<longleftrightarrow> distinct (map fst kvs)"
proof -
  have "mset (map fst (sort_key fst kvs)) = mset (map fst kvs)" by simp
  then have "distinct (map fst (sort_key fst kvs)) = distinct (map fst kvs)"
    by (metis mset_eq_imp_distinct_iff)
  then show ?thesis by (simp add: bm_ok_def strict_sorted_iff)
qed

lemma bm_insert_same:
  assumes "bm_ok m" and "bm_get m k = Some v"
  shows "bm_insert k v m = m"
  using assms by (intro bm_ext) (auto simp: bm_ok_insert bm_get_insert)

subsection \<open>The interface\<close>

locale ordered_map =
  fixes get :: "'m \<Rightarrow> 'k \<Rightarrow> 'v option"
    and ins :: "'k \<Rightarrow> 'v \<Rightarrow> 'm \<Rightarrow> 'm"
    and ok :: "'m \<Rightarrow> bool"
  assumes get_ins: "ok m \<Longrightarrow> get (ins k v m) = (get m)(k := Some v)"
    and ok_ins: "ok m \<Longrightarrow> ok (ins k v m)"
    and ext: "ok m \<Longrightarrow> ok n \<Longrightarrow> get m = get n \<Longrightarrow> m = n"
begin

lemma ok_fold: "ok m \<Longrightarrow> ok (fold (\<lambda>(k, v). ins k v) kvs m)"
  by (induction kvs arbitrary: m) (auto simp: ok_ins)

lemma get_fold:
  "ok m \<Longrightarrow> get (fold (\<lambda>(k, v). ins k v) kvs m) = get m ++ map_of (rev kvs)"
proof (induction kvs arbitrary: m)
  case Nil
  then show ?case by simp
next
  case (Cons kv kvs)
  obtain k v where kv: "kv = (k, v)" by (cases kv)
  have "ok (ins k v m)" using Cons.prems by (rule ok_ins)
  then have "get (fold (\<lambda>(k, v). ins k v) kvs (ins k v m)) =
      get (ins k v m) ++ map_of (rev kvs)"
    by (rule Cons.IH)
  then show ?case
    using Cons.prems by (auto simp: kv get_ins map_add_def fun_eq_iff split: option.splits)
qed

lemma fold_distinct:
  assumes "ok m" and "distinct (map fst kvs)"
  shows "get (fold (\<lambda>(k, v). ins k v) kvs m) = get m ++ map_of kvs"
proof -
  have "map_of (rev kvs) = map_of kvs"
    using assms(2) by (subst map_of_inject_set) (simp_all add: rev_map [symmetric])
  then show ?thesis using get_fold [OF assms(1), of kvs] by simp
qed

lemma ins_commute:
  assumes "ok m" and "k \<noteq> l"
  shows "ins k v (ins l w m) = ins l w (ins k v m)"
  using assms by (intro ext) (auto simp: ok_ins get_ins fun_eq_iff)

end

interpretation bm: ordered_map bm_get bm_insert bm_ok
  by unfold_locales (simp_all add: bm_get_insert bm_ok_insert bm_ext)

text \<open>Collecting an iterator of bindings into a map.\<close>

definition bm_of_list :: "('k::linorder \<times> 'v) list \<Rightarrow> ('k, 'v) bmap" where
  "bm_of_list kvs = fold (\<lambda>(k, v). bm_insert k v) kvs []"

lemma bm_of_list_ok [simp]: "bm_ok (bm_of_list kvs)"
  unfolding bm_of_list_def by (rule bm.ok_fold) simp

lemma bm_of_list_get: "bm_get (bm_of_list kvs) = map_of (rev kvs)"
  unfolding bm_of_list_def by (subst bm.get_fold) (auto simp: fun_eq_iff map_add_def split: option.splits)

lemma bm_of_list_get_distinct: "distinct (map fst kvs) \<Longrightarrow> bm_get (bm_of_list kvs) = map_of kvs"
  unfolding bm_of_list_def by (subst bm.fold_distinct) (auto simp: fun_eq_iff map_add_def split: option.splits)

end
