(* ===== verification/Ledger_Xdr.thy ===== *)
theory Ledger_Xdr
  imports Btree_Map
begin

text \<open>
  The ledger data the program works on and the code it calls for it. The types are those of
  the crates \<open>soroban_env_host::xdr\<close> and \<open>soroban_ledger_snapshot\<close>; only the variants and
  fields that the program's patterns and struct literals name are given constructors, and
  every part it only carries along is kept as its encoded bytes (the \<open>..Other\<close> constructors
  stand for the variants its \<open>_\<close> patterns cover). The functions of those crates, of \<open>sha2\<close>
  and of \<open>base64\<close> are parameters: the fields of the record \<open>externals\<close>, the argument \<open>X\<close> of
  every definition that calls them. What the program relies on of them are the named
  hypotheses at the end. The key predicates and key builders are the program's own.
\<close>

subsection \<open>Addresses, values and keys\<close>

type_synonym hash = bytes
type_synonym account_id = bytes

datatype sc_address =
    ScAddress_Account account_id
  | ScAddress_Contract hash
  | ScAddress_Other bytes

datatype durability = Temporary | Persistent

record external_ref =
  executable_owner :: sc_address
  ref_tag :: bytes

datatype contract_executable = Wasm hash | StellarAsset | ExternalRef external_ref

record contract_instance =
  executable :: contract_executable
  storage :: "bytes option"

datatype sc_val =
    ScVal_Bytes bytes
  | ScVal_ContractInstance contract_instance
  | ScVal_ExecutableTag bytes
  | ScVal_LedgerKeyContractInstance
  | ScVal_LedgerKeyNonce i64
  | ScVal_Address sc_address
  | ScVal_U32 u32
  | ScVal_U128 u64 u64
  | ScVal_I128 i64 u64
  | ScVal_Symbol string
  | ScVal_Vec "sc_val list option"
  | ScVal_Other bytes

record key_contract_data =
  kd_contract :: sc_address
  kd_key :: sc_val
  kd_durability :: durability

datatype config_setting_id = ConfigStateArchival | ConfigOther u32

datatype ledger_key =
    Key_Account account_id
  | Key_Trustline account_id bytes
  | Key_ContractData key_contract_data
  | Key_ContractCode hash
  | Key_ConfigSetting config_setting_id
  | Key_Other bytes

subsection \<open>Entries\<close>

record account_entry =
  ae_account_id :: account_id
  ae_balance :: i64
  ae_seq_num :: i64
  ae_num_sub_entries :: u32
  ae_inflation_dest :: "account_id option"
  ae_flags :: u32
  ae_home_domain :: string
  ae_thresholds :: bytes
  ae_signers :: "bytes list"
  ae_ext :: bytes

record contract_data_entry =
  cd_contract :: sc_address
  cd_key :: sc_val
  cd_durability :: durability
  cd_val :: sc_val

record contract_code_entry =
  cc_hash :: hash
  cc_code :: bytes
  cc_ext :: bytes

record state_archival_settings =
  sa_max_entry_ttl :: u32
  sa_min_temporary_ttl :: u32
  sa_min_persistent_ttl :: u32
  sa_rest :: bytes

datatype config_setting_entry =
    Setting_StateArchival state_archival_settings
  | Setting_Other bytes

datatype ledger_entry_data =
    Data_Account account_entry
  | Data_Trustline bytes
  | Data_ContractData contract_data_entry
  | Data_ContractCode contract_code_entry
  | Data_ConfigSetting config_setting_entry
  | Data_Other bytes

record ledger_entry =
  le_last_modified :: u32
  le_data :: ledger_entry_data
  le_ext :: bytes

text \<open>\<open>LedgerSnapshot\<close> of \<open>soroban_ledger_snapshot\<close> and \<open>LedgerInfo\<close> of the SDK.\<close>

type_synonym snapshot_entry = "ledger_key \<times> (ledger_entry \<times> u32 option)"

record ledger_snapshot =
  sn_protocol_version :: u32
  sn_sequence_number :: u32
  sn_timestamp :: u64
  sn_network_id :: bytes
  sn_base_reserve :: u32
  sn_min_persistent_entry_ttl :: u32
  sn_min_temp_entry_ttl :: u32
  sn_max_entry_ttl :: u32
  sn_ledger_entries :: "snapshot_entry list"

record ledger_info =
  li_protocol_version :: u32
  li_sequence_number :: u32
  li_timestamp :: u64
  li_network_id :: bytes
  li_base_reserve :: u32
  li_min_persistent_entry_ttl :: u32
  li_min_temp_entry_ttl :: u32
  li_max_entry_ttl :: u32

subsection \<open>The external functions\<close>

record externals =
  supported_protocol_version :: u32
  key_to_xdr :: "ledger_key \<Rightarrow> bytes option"
  key_from_xdr :: "bytes \<Rightarrow> ledger_key option"
  entry_to_xdr :: "ledger_entry \<Rightarrow> bytes option"
  to_key :: "ledger_entry \<Rightarrow> ledger_key"
  sha256 :: "bytes \<Rightarrow> bytes"
  b64_encode :: "bytes \<Rightarrow> string"
  b64_decode :: "string \<Rightarrow> bytes option"
  snapshot_ledger_info :: "ledger_snapshot \<Rightarrow> ledger_info"

text \<open>
  Documented behaviour of those functions, as hypotheses a theorem names when it needs them:
  XDR keys and entries decode to what was encoded (so encoding is injective), SHA-256 returns
  32 bytes, standard base64 decodes what it encoded, and \<open>LedgerSnapshot::ledger_info\<close> copies
  the snapshot's fields.
\<close>

definition xdr_laws :: "externals \<Rightarrow> bool" where
  "xdr_laws X \<longleftrightarrow>
     (\<forall>k b. key_to_xdr X k = Some b \<longrightarrow> key_from_xdr X b = Some k) \<and>
     (\<forall>e f b. entry_to_xdr X e = Some b \<and> entry_to_xdr X f = Some b \<longrightarrow> e = f)"

definition sha_laws :: "externals \<Rightarrow> bool" where
  "sha_laws X \<longleftrightarrow> (\<forall>b. length (sha256 X b) = 32)"

definition base64_laws :: "externals \<Rightarrow> bool" where
  "base64_laws X \<longleftrightarrow> (\<forall>b. b64_decode X (b64_encode X b) = Some b)"

definition ledger_info_laws :: "externals \<Rightarrow> bool" where
  "ledger_info_laws X \<longleftrightarrow>
     (\<forall>s. snapshot_ledger_info X s =
        \<lparr> li_protocol_version = sn_protocol_version s,
          li_sequence_number = sn_sequence_number s,
          li_timestamp = sn_timestamp s,
          li_network_id = sn_network_id s,
          li_base_reserve = sn_base_reserve s,
          li_min_persistent_entry_ttl = sn_min_persistent_entry_ttl s,
          li_min_temp_entry_ttl = sn_min_temp_entry_ttl s,
          li_max_entry_ttl = sn_max_entry_ttl s \<rparr>)"

lemma key_to_xdr_inject:
  "xdr_laws X \<Longrightarrow> key_to_xdr X k = Some b \<Longrightarrow> key_to_xdr X l = Some b \<Longrightarrow> k = l"
  unfolding xdr_laws_def by (metis option.inject)

lemma entry_to_xdr_inject:
  "xdr_laws X \<Longrightarrow> entry_to_xdr X e = Some b \<Longrightarrow> entry_to_xdr X f = Some b \<Longrightarrow> e = f"
  unfolding xdr_laws_def by blast

subsection \<open>The program's keys\<close>

type_synonym key_id = bytes

definition contract_instance_key :: "sc_address \<Rightarrow> ledger_key" where
  "contract_instance_key contract =
     Key_ContractData \<lparr> kd_contract = contract, kd_key = ScVal_LedgerKeyContractInstance,
       kd_durability = Persistent \<rparr>"

definition executable_ref_key :: "external_ref \<Rightarrow> ledger_key" where
  "executable_ref_key r =
     Key_ContractData \<lparr> kd_contract = executable_owner r, kd_key = ScVal_ExecutableTag (ref_tag r),
       kd_durability = Persistent \<rparr>"

definition state_archival_key :: ledger_key where
  "state_archival_key = Key_ConfigSetting ConfigStateArchival"

definition is_state_archival_key :: "ledger_key \<Rightarrow> bool" where
  "is_state_archival_key k =
     (case k of Key_ConfigSetting ConfigStateArchival \<Rightarrow> True | _ \<Rightarrow> False)"

definition is_nonce_data :: "key_contract_data \<Rightarrow> bool" where
  "is_nonce_data d \<longleftrightarrow> kd_durability d = Temporary \<and>
     (case kd_key d of ScVal_LedgerKeyNonce n \<Rightarrow> True | _ \<Rightarrow> False)"

lemma is_state_archival_key_iff [simp]: "is_state_archival_key k \<longleftrightarrow> k = state_archival_key"
  by (auto simp: is_state_archival_key_def state_archival_key_def
      split: ledger_key.splits config_setting_id.splits)

end
