(* ===== verification/Protocol.thy ===== *)
theory Protocol
  imports Ledger_Xdr
begin

text \<open>
  Which ledger protocols are accepted, and which protocol the Host executes
  (\<open>ProtocolPolicy\<close>, \<open>executed_protocol_version\<close> of \<open>src/fixture.rs\<close>,
  \<open>restore_network_protocol\<close> of \<open>src/runtime.rs\<close>). \<open>SUPPORTED_PROTOCOL_VERSION\<close> is a
  constant of the selected Host crate: the field \<open>supported_protocol_version\<close> of \<open>X\<close>.
\<close>

datatype protocol_policy = Exact | AllowNewer

record unsupported_protocol =
  up_found :: u32
  up_supported :: u32

definition newer_protocol_version :: "externals \<Rightarrow> u32" where
  "newer_protocol_version X = supported_protocol_version X + 1"

definition policy_check :: "externals \<Rightarrow> protocol_policy \<Rightarrow> u32 \<Rightarrow> unsupported_protocol + unit" where
  "policy_check X policy found =
     (if found = supported_protocol_version X
         \<or> (policy = AllowNewer \<and> found = newer_protocol_version X)
      then Inr ()
      else Inl \<lparr> up_found = found, up_supported = supported_protocol_version X \<rparr>)"

definition executed_protocol_version :: "externals \<Rightarrow> u32 \<Rightarrow> u32" where
  "executed_protocol_version X network =
     (if network = newer_protocol_version X then supported_protocol_version X else network)"

definition restore_network_protocol :: "externals \<Rightarrow> u32 \<Rightarrow> u32 \<Rightarrow> u32" where
  "restore_network_protocol X current network =
     (if current = executed_protocol_version X network then network else current)"

lemma policy_check_Inr:
  "policy_check X p n = Inr u \<longleftrightarrow>
     n = supported_protocol_version X \<or> p = AllowNewer \<and> n = newer_protocol_version X"
  by (auto simp: policy_check_def)

lemma policy_check_Inl:
  "policy_check X p n = Inl e \<Longrightarrow> up_found e = n \<and> up_supported e = supported_protocol_version X"
  by (auto simp: policy_check_def split: if_splits)

lemma policy_exact_allow:
  "policy_check X Exact n = Inr u \<Longrightarrow> policy_check X AllowNewer n = Inr u"
  by (simp add: policy_check_Inr)

lemma executed_of_accepted:
  "policy_check X p n = Inr u \<Longrightarrow> executed_protocol_version X n = supported_protocol_version X"
  by (auto simp: policy_check_Inr executed_protocol_version_def)

lemma restore_executed [simp]:
  "restore_network_protocol X (executed_protocol_version X n) n = n"
  by (simp add: restore_network_protocol_def)

lemma newer_neq_supported [simp]: "newer_protocol_version X \<noteq> supported_protocol_version X"
  by (simp add: newer_protocol_version_def)

lemma executed_idem [simp]:
  "executed_protocol_version X (executed_protocol_version X n) = executed_protocol_version X n"
  by (simp add: executed_protocol_version_def newer_neq_supported [symmetric])

end
