(* ===== verification/Errors.thy ===== *)
theory Errors
  imports Protocol
begin

text \<open>
  The error enums of the program, one constructor per variant (\<open>FixtureError\<close> of
  \<open>src/fixture.rs\<close>, \<open>CaptureError\<close> of \<open>src/capture.rs\<close>, \<open>StrictForkError\<close> of
  \<open>src/strict.rs\<close>, \<open>RuntimeError\<close> of \<open>src/runtime.rs\<close>), and the conversions the \<open>?\<close>
  operator applies. Payloads the program only passes on (an \<open>io::Error\<close>, an XDR error, the
  path in a message) are left out.
\<close>

datatype fixture_error =
    FixtureRead
  | FixtureParse
  | FixtureUnsupportedProtocol u32 u32
  | FixtureNetworkMismatch bytes bytes
  | LedgerKeyMismatch nat
  | DuplicateLedgerKey bytes
  | FixtureXdr

datatype capture_error =
    InvalidRpcUrl
  | NetworkMismatch
  | UnsupportedProtocol u32 u32
  | Transport string
  | MalformedRpc string
  | IncoherentLedger nat
  | MissingStateArchival
  | MissingExecutableReference
  | MalformedExecutableReference
  | MissingReferencedCode
  | ExecutableClosureLimit nat
  | ScenarioPanicked
  | FixedPointLimit nat
  | UnknownLedgerKeys nat
  | CaptureBundleIo string
  | UnsupportedCaptureBundleSchema u32 u32
  | MalformedCaptureBundle
  | CaptureBundleIntegrity
  | HostInspection
  | InternalInvariant
  | Fixture fixture_error
  | Xdr

datatype strict_fork_error =
    StrictUnknownLedgerKeys nat "bytes list"
  | AuthTreeMismatch
  | StrictCheckpointMismatch
  | CandidateAddressNotContract
  | CandidateAddressOccupied
  | StrictWasmHashMismatch bytes bytes
  | CandidateRegistrationFailed
  | InvalidInvocationXdr
  | InvalidAuthorizationEntries
  | StrictHostInspection
  | StrictXdr
  | StrictFixture fixture_error

datatype runtime_error =
    WasmHashMismatch bytes bytes
  | CheckpointMismatch

definition fixture_of_protocol :: "unsupported_protocol \<Rightarrow> fixture_error" where
  "fixture_of_protocol e = FixtureUnsupportedProtocol (up_found e) (up_supported e)"

definition capture_of_protocol :: "unsupported_protocol \<Rightarrow> capture_error" where
  "capture_of_protocol e = UnsupportedProtocol (up_found e) (up_supported e)"

end
