(* ===== verification/Hex_Codec.thy ===== *)
theory Hex_Codec
  imports Errors
begin

text \<open>
  Lowercase hexadecimal digests: \<open>hex\<close>, \<open>decode_hex_nibble\<close> and \<open>decode_hex_digest\<close> of
  \<open>src/capture.rs\<close>. The lemmas: decoding inverts encoding in both directions, and so the
  decoder's last check (that encoding the result gives the input back) never fails.
\<close>

unbundle bit_operations_syntax

definition hex_digit :: "byte \<Rightarrow> char" where
  "hex_digit n = (if n < 10 then char_of (unat n + 48) else char_of (unat n + 87))"

definition hex_byte :: "byte \<Rightarrow> string" where
  "hex_byte b = [hex_digit (drop_bit 4 b), hex_digit (b AND 15)]"

definition hex :: "bytes \<Rightarrow> string" where
  "hex bs = concat (map hex_byte bs)"

definition decode_hex_nibble :: "byte \<Rightarrow> capture_error + byte" where
  "decode_hex_nibble v =
     (if 48 \<le> v \<and> v \<le> 57 then Inr (v - 48)
      else if 97 \<le> v \<and> v \<le> 102 then Inr (v - 97 + 10)
      else Inl MalformedCaptureBundle)"

fun decode_hex_pairs :: "bytes \<Rightarrow> capture_error + bytes" where
  "decode_hex_pairs (h # l # rest) =
     and_then (decode_hex_nibble h) (\<lambda>high.
     and_then (decode_hex_nibble l) (\<lambda>low.
     and_then (decode_hex_pairs rest) (\<lambda>bs. Inr ((push_bit 4 high OR low) # bs))))"
| "decode_hex_pairs _ = Inr []"

definition decode_hex_digest :: "string \<Rightarrow> capture_error + bytes" where
  "decode_hex_digest value =
     (if length value \<noteq> 64 \<or> \<not> is_ascii value then Inl MalformedCaptureBundle
      else and_then (decode_hex_pairs (str_bytes value)) (\<lambda>decoded.
        if hex decoded \<noteq> value then Inl MalformedCaptureBundle else Inr decoded))"

subsection \<open>Digits\<close>

lemma unat_hex_digit:
  "(n :: byte) < 16 \<Longrightarrow>
     unat (of_char (hex_digit n) :: byte) = (if n < 10 then unat n + 48 else unat n + 87)"
  by (simp add: hex_digit_def unat_of_char_byte word_less_nat_alt)

lemma decode_hex_nibble_unat:
  "decode_hex_nibble v =
     (if 48 \<le> unat v \<and> unat v \<le> 57 then Inr (v - 48)
      else if 97 \<le> unat v \<and> unat v \<le> 102 then Inr (v - 87)
      else Inl MalformedCaptureBundle)"
  by (simp add: decode_hex_nibble_def word_le_nat_alt)

lemma decode_hex_digit:
  assumes "(n :: byte) < 16"
  shows "decode_hex_nibble (of_char (hex_digit n)) = Inr n"
proof -
  have n: "unat n < 16" using assms by (simp add: word_less_nat_alt)
  have eq: "v - c = n" if "unat v = unat n + unat c" for v c :: byte
  proof -
    have "c \<le> v" using that by (simp add: word_le_nat_alt)
    then have "unat (v - c) = unat n" using that by (simp add: unat_sub)
    then show ?thesis by (simp only: word_unat_eq_iff)
  qed
  show ?thesis
    using n unat_hex_digit [OF assms]
    by (auto simp: decode_hex_nibble_unat word_less_nat_alt intro!: eq split: if_splits)
qed

lemma hex_digit_ascii: "(n :: byte) < 16 \<Longrightarrow> (of_char (hex_digit n) :: nat) < 128"
  using unat_hex_digit [of n] by (simp add: unat_of_char_byte word_less_nat_alt split: if_splits)

lemma decode_hex_nibble_Inr:
  assumes "decode_hex_nibble (of_char c) = Inr n"
  shows "n < 16 \<and> hex_digit n = c"
proof -
  define m where "m = (of_char c :: nat)"
  have m: "unat (of_char c :: byte) = m" by (simp add: m_def unat_of_char_byte)
  have sub: "unat ((of_char c :: byte) - k) = m - unat k" if "unat k \<le> m" for k
    using that by (simp add: unat_sub word_le_nat_alt m)
  from assms have "48 \<le> m \<and> m \<le> 57 \<and> unat n = m - 48 \<or> 97 \<le> m \<and> m \<le> 102 \<and> unat n = m - 87"
    by (auto simp: decode_hex_nibble_unat m sub split: if_splits)
  then have "n < 16 \<and> hex_digit n = char_of m"
    by (auto simp: hex_digit_def word_less_nat_alt)
  then show ?thesis by (simp add: m_def)
qed

lemma and_15: "b AND 15 = take_bit 4 (b :: byte)"
  by (simp add: take_bit_eq_mask mask_eq_exp_minus_1)

lemma nibbles_of_byte: "push_bit 4 (drop_bit 4 b) OR (b AND 15) = (b :: byte)"
  unfolding and_15 by (auto intro!: bit_word_eqI simp: bit_simps)

lemma nibbles_less: "drop_bit 4 (b :: byte) < 16" "b AND 15 < (16 :: byte)"
proof -
  have "unat (drop_bit 4 b) = unat b div 16" by (simp add: unat_drop_bit_eq flip: drop_bit_eq_div) (simp add: drop_bit_eq_div)
  moreover have "unat b < 256" using unsigned_less [of b, where ?'a = nat] by simp
  ultimately show "drop_bit 4 b < 16" by (simp add: word_less_nat_alt)
  have "unat (b AND 15) = unat b mod 16"
    unfolding and_15 by (simp add: take_bit_eq_mod unat_mod)
  then show "b AND 15 < (16 :: byte)" by (simp add: word_less_nat_alt)
qed

lemma byte_of_nibbles:
  assumes "(h :: byte) < 16" and "l < 16"
  shows "drop_bit 4 (push_bit 4 h OR l) = h" and "(push_bit 4 h OR l) AND 15 = l"
proof -
  have small: "take_bit 4 n = n" if "n < 16" for n :: byte
    using that by (simp add: word_unat_eq_iff word_less_nat_alt take_bit_eq_mod unat_mod)
  have bit: "k < 4" if "n < 16" "bit n k" for n :: byte and k
    using small [OF that(1)] that(2) by (metis bit_take_bit_iff)
  show "drop_bit 4 (push_bit 4 h OR l) = h"
    using bit [OF assms(1)] bit [OF assms(2)]
    by (auto intro!: bit_word_eqI simp: bit_simps) fastforce+
  show "(push_bit 4 h OR l) AND 15 = l"
    unfolding and_15 using bit [OF assms(2)]
    by (auto intro!: bit_word_eqI simp: bit_simps)
qed

subsection \<open>Digests\<close>

lemma length_hex [simp]: "length (hex bs) = 2 * length bs"
  by (induction bs) (simp_all add: hex_def hex_byte_def)

lemma hex_Cons [simp]: "hex (b # bs) = hex_byte b @ hex bs" "hex [] = []"
  by (simp_all add: hex_def)

lemma is_ascii_hex: "is_ascii (hex bs)"
  by (induction bs) (auto simp: is_ascii_def hex_byte_def hex_digit_ascii nibbles_less)

lemma decode_hex_pairs_hex: "decode_hex_pairs (str_bytes (hex bs)) = Inr bs"
  by (induction bs)
    (simp_all add: str_bytes_def hex_byte_def decode_hex_digit nibbles_less nibbles_of_byte)

lemma hex_decode_pairs:
  "even (length s) \<Longrightarrow> decode_hex_pairs (str_bytes s) = Inr bs \<Longrightarrow> hex bs = s"
proof (induction "str_bytes s" arbitrary: s bs rule: decode_hex_pairs.induct)
  case (1 h l rest)
  then obtain c d v where v: "s = c # d # v" and hl: "h = of_char c" "l = of_char d" "rest = str_bytes v"
    by (auto simp: str_bytes_def Cons_eq_map_conv)
  from "1.prems"(2) obtain high low bs' where
    nib: "decode_hex_nibble (of_char c) = Inr high" "decode_hex_nibble (of_char d) = Inr low"
    and rest: "decode_hex_pairs (str_bytes v) = Inr bs'" and bs: "bs = (push_bit 4 high OR low) # bs'"
    by (auto simp: v str_bytes_def)
  have "hex bs' = v"
    using "1.hyps"(1) nib rest "1.prems"(1) v hl by auto
  then show ?case
    using decode_hex_nibble_Inr [OF nib(1)] decode_hex_nibble_Inr [OF nib(2)]
    by (simp only: bs v hex_Cons hex_byte_def byte_of_nibbles append_Cons append_Nil)
qed (auto simp: str_bytes_def)

lemma decode_hex_digest_iff:
  "decode_hex_digest s = Inr bs \<longleftrightarrow> length bs = 32 \<and> s = hex bs"
proof
  assume s: "decode_hex_digest s = Inr bs"
  then have "length s = 64" "hex bs = s"
    by (auto simp: decode_hex_digest_def split: if_splits)
  then show "length bs = 32 \<and> s = hex bs" using length_hex [of bs] by simp
next
  assume bs: "length bs = 32 \<and> s = hex bs"
  then show "decode_hex_digest s = Inr bs"
    by (simp add: decode_hex_digest_def is_ascii_hex decode_hex_pairs_hex)
qed

text \<open>
  Digests are written one way only: the decoder accepts exactly the lowercase hexadecimal
  text of a 32-byte value and returns that value.
\<close>

theorem decode_hex_digest_exactly:
  "decode_hex_digest s = Inr bs \<longleftrightarrow> length bs = 32 \<and> s = hex bs"
  by (rule decode_hex_digest_iff)

end
