(* ===== verification/Sample_Externals.thy ===== *)
theory Sample_Externals
  imports Encoding Hex_Codec
begin

text \<open>
  A concrete instance of the external functions, small enough to evaluate, on which the
  hypotheses about them hold: the witnesses of the properties are evaluated with it. Its
  codec covers contract instances, executable tags, one-byte data keys, one mock nonce,
  contract code, accounts and the archival setting, and refuses the rest; its hash pads or
  cuts to 32 bytes; its base64 is hexadecimal.
\<close>

definition sample_key_to_xdr :: "ledger_key \<Rightarrow> bytes option" where
  "sample_key_to_xdr k =
     (case k of
        Key_Account a \<Rightarrow> Some (1 # a)
      | Key_ContractCode h \<Rightarrow> Some (7 # h)
      | Key_ConfigSetting ConfigStateArchival \<Rightarrow> Some [8]
      | Key_ContractData d \<Rightarrow>
          (case (kd_contract d, kd_key d, kd_durability d) of
             (ScAddress_Contract h, ScVal_LedgerKeyContractInstance, Persistent) \<Rightarrow> Some (6 # h)
           | (ScAddress_Contract h, ScVal_Bytes [b], Persistent) \<Rightarrow> Some (5 # b # h)
           | (ScAddress_Contract h, ScVal_LedgerKeyNonce n, Temporary) \<Rightarrow>
               (if n = 0 then Some (4 # h) else None)
           | (ScAddress_Contract h, ScVal_ExecutableTag [t], Persistent) \<Rightarrow> Some (9 # t # h)
           | _ \<Rightarrow> None)
      | _ \<Rightarrow> None)"

fun sample_key_from_xdr :: "bytes \<Rightarrow> ledger_key option" where
  "sample_key_from_xdr [] = None"
| "sample_key_from_xdr (t # r) =
     (if t = 1 then Some (Key_Account r)
      else if t = 7 then Some (Key_ContractCode r)
      else if t = 8 then (if r = [] then Some (Key_ConfigSetting ConfigStateArchival) else None)
      else if t = 6 then Some (contract_instance_key (ScAddress_Contract r))
      else if t = 4 then Some (Key_ContractData \<lparr> kd_contract = ScAddress_Contract r,
             kd_key = ScVal_LedgerKeyNonce 0, kd_durability = Temporary \<rparr>)
      else if t = 5 then (case r of [] \<Rightarrow> None | b # h \<Rightarrow>
             Some (Key_ContractData \<lparr> kd_contract = ScAddress_Contract h,
               kd_key = ScVal_Bytes [b], kd_durability = Persistent \<rparr>))
      else if t = 9 then (case r of [] \<Rightarrow> None | b # h \<Rightarrow>
             Some (Key_ContractData \<lparr> kd_contract = ScAddress_Contract h,
               kd_key = ScVal_ExecutableTag [b], kd_durability = Persistent \<rparr>))
      else None)"

definition sample_to_key :: "ledger_entry \<Rightarrow> ledger_key" where
  "sample_to_key e =
     (case le_data e of
        Data_Account a \<Rightarrow> Key_Account (ae_account_id a)
      | Data_Trustline b \<Rightarrow> Key_Trustline b []
      | Data_ContractData d \<Rightarrow> Key_ContractData \<lparr> kd_contract = cd_contract d,
          kd_key = cd_key d, kd_durability = cd_durability d \<rparr>
      | Data_ContractCode c \<Rightarrow> Key_ContractCode (cc_hash c)
      | Data_ConfigSetting (Setting_StateArchival s) \<Rightarrow> state_archival_key
      | Data_ConfigSetting (Setting_Other b) \<Rightarrow> Key_Other b
      | Data_Other b \<Rightarrow> Key_Other b)"

text \<open>Entries: contract code, and contract data whose value is an instance or a byte string.\<close>

definition sample_entry_to_xdr :: "ledger_entry \<Rightarrow> bytes option" where
  "sample_entry_to_xdr e =
     (if le_ext e \<noteq> [] then None
      else case le_data e of
        Data_ContractCode c \<Rightarrow>
          (if cc_ext c = [] \<and> length (cc_hash c) = 32
           then Some (1 # be32 (le_last_modified e) @ cc_hash c @ cc_code c) else None)
      | Data_ContractData d \<Rightarrow>
          (case sample_key_to_xdr (sample_to_key e) of
             None \<Rightarrow> None
           | Some k \<Rightarrow>
               (if length k < 256 then
                  (case cd_val d of
                     ScVal_Bytes b \<Rightarrow>
                       Some (2 # of_nat (length k) # be32 (le_last_modified e) @ k @ b)
                   | ScVal_ContractInstance i \<Rightarrow>
                       (case (executable i, storage i) of
                          (Wasm h, None) \<Rightarrow>
                            Some (3 # of_nat (length k) # be32 (le_last_modified e) @ k @ h)
                        | (StellarAsset, None) \<Rightarrow>
                            Some (4 # of_nat (length k) # be32 (le_last_modified e) @ k)
                        | _ \<Rightarrow> None)
                   | _ \<Rightarrow> None)
                else None))
      | _ \<Rightarrow> None)"

definition sample_sha256 :: "bytes \<Rightarrow> bytes" where
  "sample_sha256 b = take 32 (b @ replicate 32 0)"

definition sample_b64_decode :: "string \<Rightarrow> bytes option" where
  "sample_b64_decode s =
     (case decode_hex_pairs (str_bytes s) of
        Inl e \<Rightarrow> None
      | Inr b \<Rightarrow> (if hex b = s then Some b else None))"

definition sample_X :: externals where
  "sample_X = \<lparr> supported_protocol_version = 29,
     key_to_xdr = sample_key_to_xdr,
     key_from_xdr = sample_key_from_xdr,
     entry_to_xdr = sample_entry_to_xdr,
     to_key = sample_to_key,
     sha256 = sample_sha256,
     b64_encode = hex,
     b64_decode = sample_b64_decode,
     snapshot_ledger_info = (\<lambda>s.
        \<lparr> li_protocol_version = sn_protocol_version s,
          li_sequence_number = sn_sequence_number s,
          li_timestamp = sn_timestamp s,
          li_network_id = sn_network_id s,
          li_base_reserve = sn_base_reserve s,
          li_min_persistent_entry_ttl = sn_min_persistent_entry_ttl s,
          li_min_temp_entry_ttl = sn_min_temp_entry_ttl s,
          li_max_entry_ttl = sn_max_entry_ttl s \<rparr>) \<rparr>"

lemma sample_X_simps [simp]:
  "supported_protocol_version sample_X = 29"
  "key_to_xdr sample_X = sample_key_to_xdr"
  "key_from_xdr sample_X = sample_key_from_xdr"
  "entry_to_xdr sample_X = sample_entry_to_xdr"
  "to_key sample_X = sample_to_key"
  "sha256 sample_X = sample_sha256"
  "b64_encode sample_X = hex"
  "b64_decode sample_X = sample_b64_decode"
  by (simp_all add: sample_X_def)

lemma sample_key_roundtrip:
  assumes "sample_key_to_xdr k = Some b"
  shows "sample_key_from_xdr b = Some k"
proof (cases k)
  case (Key_ContractData d)
  obtain c v t where d: "d = \<lparr> kd_contract = c, kd_key = v, kd_durability = t \<rparr>"
    by (cases d) auto
  show ?thesis
    using assms
    by (auto simp: sample_key_to_xdr_def Key_ContractData d contract_instance_key_def
        split: sc_address.splits sc_val.splits durability.splits list.splits if_splits)
qed (use assms in \<open>auto simp: sample_key_to_xdr_def split: config_setting_id.splits\<close>)

lemma sample_sha_laws: "sha_laws sample_X"
  by (auto simp: sha_laws_def sample_sha256_def min_def)

fun sample_val_tag :: "byte \<Rightarrow> bytes \<Rightarrow> sc_val \<Rightarrow> bool" where
  "sample_val_tag t p (ScVal_Bytes b) \<longleftrightarrow> t = 2 \<and> p = b"
| "sample_val_tag t p (ScVal_ContractInstance i) \<longleftrightarrow> storage i = None \<and>
     (t = 3 \<and> executable i = Wasm p \<or> t = 4 \<and> p = [] \<and> executable i = StellarAsset)"
| "sample_val_tag t p _ \<longleftrightarrow> False"

lemma sample_val_tag_inject: "sample_val_tag t p v \<Longrightarrow> sample_val_tag t p w \<Longrightarrow> v = w"
  by (cases v; cases w) auto

lemma sample_entry_cases:
  assumes "sample_entry_to_xdr e = Some b"
  obtains
    (code) lm h c where "e = \<lparr> le_last_modified = lm,
        le_data = Data_ContractCode \<lparr> cc_hash = h, cc_code = c, cc_ext = [] \<rparr>, le_ext = [] \<rparr>"
      "length h = 32" "b = 1 # be32 lm @ h @ c"
  | (data) lm d k t p where "e = \<lparr> le_last_modified = lm, le_data = Data_ContractData d, le_ext = [] \<rparr>"
      "sample_key_to_xdr (Key_ContractData \<lparr> kd_contract = cd_contract d, kd_key = cd_key d,
         kd_durability = cd_durability d \<rparr>) = Some k"
      "length k < 256" "b = t # of_nat (length k) # be32 lm @ k @ p" "t \<noteq> 1"
      "sample_val_tag t p (cd_val d)"
proof -
  obtain lm dat where e: "e = \<lparr> le_last_modified = lm, le_data = dat, le_ext = [] \<rparr>"
    using assms by (cases e) (auto simp: sample_entry_to_xdr_def split: if_splits)
  from assms consider c where "dat = Data_ContractCode c" | d where "dat = Data_ContractData d"
    by (cases dat) (auto simp: sample_entry_to_xdr_def e)
  then show thesis
  proof cases
    case (1 c)
    then show thesis
      using assms by (intro code [of lm "cc_hash c" "cc_code c"])
        (auto simp: sample_entry_to_xdr_def e split: if_splits)
  next
    case (2 d)
    let ?k = "Key_ContractData \<lparr> kd_contract = cd_contract d, kd_key = cd_key d,
      kd_durability = cd_durability d \<rparr>"
    from assms obtain k where k: "sample_key_to_xdr ?k = Some k" "length k < 256"
      by (auto simp: sample_entry_to_xdr_def sample_to_key_def e 2 split: option.splits if_splits)
    have "\<exists>t p. b = t # of_nat (length k) # be32 lm @ k @ p \<and> t \<noteq> 1 \<and> sample_val_tag t p (cd_val d)"
      using assms k
      by (auto simp: sample_entry_to_xdr_def sample_to_key_def e 2
          split: sc_val.splits option.splits contract_executable.splits)
    with k e 2 show thesis by (auto intro: data)
  qed
qed

lemma sample_entry_inject:
  assumes "sample_entry_to_xdr e = Some b" and "sample_entry_to_xdr f = Some b"
  shows "e = f"
  using assms(1)
proof (cases rule: sample_entry_cases)
  case (code lm h c)
  note e = this
  from assms(2) show ?thesis
  proof (cases rule: sample_entry_cases)
    case (code lm' h' c')
    then have "be32 lm @ (h @ c) = be32 lm' @ (h' @ c')" using e by simp
    then have "lm = lm' \<and> h @ c = h' @ c'" by (rule u32_frame.unframe [OF TrueI TrueI])
    then show ?thesis using e code append_same_length by metis
  qed (use e in auto)
next
  case (data lm d k t p)
  note e = this
  from assms(2) show ?thesis
  proof (cases rule: sample_entry_cases)
    case (data lm' d' k' t' p')
    have "(of_nat (length k) :: byte) = of_nat (length k')" using e data by simp
    moreover have "unat (of_nat n :: byte) = n" if "n < 256" for n
      using that by (simp add: unat_of_nat)
    ultimately have len: "length k = length k'"
      using e(3) data(3) by metis
    have "be32 lm @ (k @ p) = be32 lm' @ (k' @ p')" using e data by simp
    then have lm: "lm = lm' \<and> k @ p = k' @ p'" by (rule u32_frame.unframe [OF TrueI TrueI])
    then have kp: "k = k' \<and> p = p'" using len by simp
    then have "cd_contract d = cd_contract d' \<and> cd_key d = cd_key d' \<and>
        cd_durability d = cd_durability d'"
      using sample_key_roundtrip [OF e(2)] sample_key_roundtrip [OF data(2)] by simp
    moreover have "cd_val d = cd_val d'"
      using e data kp by (auto intro: sample_val_tag_inject)
    ultimately show ?thesis using e(1) data(1) lm by (cases d; cases d') simp
  qed (use e in auto)
qed

lemma sample_xdr_laws: "xdr_laws sample_X"
  using sample_key_roundtrip sample_entry_inject by (auto simp: xdr_laws_def)

lemma sample_base64_laws: "base64_laws sample_X"
  by (simp add: base64_laws_def sample_b64_decode_def decode_hex_pairs_hex)

lemma sample_ledger_info_laws: "ledger_info_laws sample_X"
  by (simp add: ledger_info_laws_def sample_X_def)

subsection \<open>Sample ledger data\<close>

definition sample_code_entry :: "byte \<Rightarrow> ledger_entry" where
  "sample_code_entry n = \<lparr> le_last_modified = 5,
     le_data = Data_ContractCode \<lparr> cc_hash = sample_sha256 [n], cc_code = [n], cc_ext = [] \<rparr>,
     le_ext = [] \<rparr>"

definition sample_snapshot :: "ledger_snapshot" where
  "sample_snapshot = \<lparr> sn_protocol_version = 29, sn_sequence_number = 10, sn_timestamp = 7,
     sn_network_id = sample_sha256 (str_bytes ''net''), sn_base_reserve = 100,
     sn_min_persistent_entry_ttl = 1, sn_min_temp_entry_ttl = 1, sn_max_entry_ttl = 50,
     sn_ledger_entries =
       [(Key_ContractCode (sample_sha256 [2]), sample_code_entry 2, Some 20),
        (Key_ContractCode (sample_sha256 [1]), sample_code_entry 1, Some 12)] \<rparr>"

lemma length_sample_sha [simp]: "length (sample_sha256 b) = 32"
  using sample_sha_laws by (simp add: sha_laws_def)

lemma sample_code_entry_simps [simp]:
  "sample_key_to_xdr (Key_ContractCode h) = Some (7 # h)"
  "sample_to_key (sample_code_entry n) = Key_ContractCode (sample_sha256 [n])"
  "sample_entry_to_xdr (sample_code_entry n) = Some (1 # be32 5 @ sample_sha256 [n] @ [n])"
  by (simp_all add: sample_key_to_xdr_def sample_to_key_def sample_entry_to_xdr_def
      sample_code_entry_def)

lemma sample_sha_byte: "sample_sha256 [n] = n # replicate 31 0"
  by (simp add: sample_sha256_def take_Cons')

lemma sample_sha_byte_inject [simp]: "sample_sha256 [m] = sample_sha256 [n] \<longleftrightarrow> m = n"
  by (simp add: sample_sha_byte)

end
