(* ===== verification/Frozen_Fixture.thy ===== *)
theory Frozen_Fixture
  imports Sample_Externals
begin

text \<open>
  \<open>FrozenFixture\<close> and \<open>canonical_ledger_digest\<close> of \<open>src/fixture.rs\<close>: a ledger snapshot is
  accepted only for a supported protocol and the expected network, and its digest is SHA-256
  over a domain prefix, the metadata and the entries in key order. \<open>digest.update\<close> appends to
  what is hashed, so a digest is \<open>sha256\<close> of one byte string, the preimage. The lemmas: the
  digest does not depend on the order of the entries, and two snapshots with one digest are
  the same ledger unless SHA-256 collides on their preimages.
\<close>

record frozen_fixture =
  ff_snapshot :: ledger_snapshot
  ff_ledger_digest :: bytes

type_synonym encoded_entry = "bytes \<times> bytes \<times> u32 option"

definition ledger_digest_domain_v1 :: bytes where
  "ledger_digest_domain_v1 =
     str_bytes ''KANATOKO'' @ [0] @ str_bytes ''LEDGER-SNAPSHOT'' @ [0] @ str_bytes ''V1'' @ [0]"

fun encode_entries :: "externals \<Rightarrow> nat \<Rightarrow> snapshot_entry list \<Rightarrow> fixture_error + encoded_entry list" where
  "encode_entries X index [] = Inr []"
| "encode_entries X index ((key, (entry, live_until)) # rest) =
     (if key \<noteq> to_key X entry then Inl (LedgerKeyMismatch index)
      else and_then (ok_or FixtureXdr (key_to_xdr X key)) (\<lambda>key_xdr.
           and_then (ok_or FixtureXdr (entry_to_xdr X entry)) (\<lambda>entry_xdr.
           and_then (encode_entries X (Suc index) rest) (\<lambda>encoded.
             Inr ((key_xdr, entry_xdr, live_until) # encoded)))))"

fun first_duplicate :: "encoded_entry list \<Rightarrow> bytes option" where
  "first_duplicate ((k, e) # (l, f) # rest) =
     (if k = l then Some k else first_duplicate ((l, f) # rest))"
| "first_duplicate _ = None"

fun encode_ledger_entry :: "encoded_entry \<Rightarrow> bytes" where
  "encode_ledger_entry (key_xdr, entry_xdr, live_until) =
     digest_field key_xdr @ digest_field entry_xdr @ enc_ttl live_until"

definition ledger_preimage :: "ledger_snapshot \<Rightarrow> encoded_entry list \<Rightarrow> bytes" where
  "ledger_preimage s encoded =
     ledger_digest_domain_v1 @
     be32 (sn_protocol_version s) @ be32 (sn_sequence_number s) @ be64 (sn_timestamp s) @
     sn_network_id s @ be32 (sn_base_reserve s) @ be32 (sn_min_persistent_entry_ttl s) @
     be32 (sn_min_temp_entry_ttl s) @ be32 (sn_max_entry_ttl s) @
     be64 (len64 encoded) @ concat (map encode_ledger_entry encoded)"

definition sorted_entries :: "externals \<Rightarrow> ledger_snapshot \<Rightarrow> fixture_error + encoded_entry list" where
  "sorted_entries X s =
     and_then (encode_entries X 0 (sn_ledger_entries s)) (\<lambda>encoded.
       let sorted = sort_key fst encoded in
       case first_duplicate sorted of
         Some key_xdr \<Rightarrow> Inl (DuplicateLedgerKey key_xdr)
       | None \<Rightarrow> Inr sorted)"

definition canonical_ledger_digest :: "externals \<Rightarrow> ledger_snapshot \<Rightarrow> fixture_error + bytes" where
  "canonical_ledger_digest X s =
     and_then (sorted_entries X s) (\<lambda>sorted. Inr (sha256 X (ledger_preimage s sorted)))"

definition from_snapshot_with_policy ::
  "externals \<Rightarrow> ledger_snapshot \<Rightarrow> string \<Rightarrow> protocol_policy \<Rightarrow> fixture_error + frozen_fixture" where
  "from_snapshot_with_policy X s passphrase policy =
     and_then (map_err fixture_of_protocol (policy_check X policy (sn_protocol_version s))) (\<lambda>_.
       let expected_network_id = sha256 X (str_bytes passphrase) in
       if sn_network_id s \<noteq> expected_network_id
       then Inl (FixtureNetworkMismatch expected_network_id (sn_network_id s))
       else and_then (canonical_ledger_digest X s) (\<lambda>ledger_digest.
              Inr \<lparr> ff_snapshot = s, ff_ledger_digest = ledger_digest \<rparr>))"

text \<open>
  \<open>LedgerSnapshot::read_file\<close> is the parameter \<open>read\<close>; its two error variants are told apart
  because the loader reports a \<open>Serde\<close> error of the I/O kind as a read error.
\<close>

datatype snapshot_error = SnapshotIo | SnapshotSerde bool

definition from_file_with_policy ::
  "externals \<Rightarrow> ('path \<Rightarrow> snapshot_error + ledger_snapshot) \<Rightarrow> 'path \<Rightarrow> string \<Rightarrow> protocol_policy
    \<Rightarrow> fixture_error + frozen_fixture" where
  "from_file_with_policy X read path passphrase policy =
     and_then
       (map_err (\<lambda>source. case source of
            SnapshotIo \<Rightarrow> FixtureRead
          | SnapshotSerde is_io \<Rightarrow> (if is_io then FixtureRead else FixtureParse)) (read path))
       (\<lambda>s. from_snapshot_with_policy X s passphrase policy)"

definition fixture_from_file where
  "fixture_from_file X read path passphrase = from_file_with_policy X read path passphrase Exact"

definition fixture_from_file_allowing_newer_protocol where
  "fixture_from_file_allowing_newer_protocol X read path passphrase =
     from_file_with_policy X read path passphrase AllowNewer"

definition from_snapshot where
  "from_snapshot X s passphrase = from_snapshot_with_policy X s passphrase Exact"

definition from_snapshot_allowing_newer_protocol where
  "from_snapshot_allowing_newer_protocol X s passphrase =
     from_snapshot_with_policy X s passphrase AllowNewer"

definition fixture_executed_protocol_version :: "externals \<Rightarrow> frozen_fixture \<Rightarrow> u32" where
  "fixture_executed_protocol_version X f =
     executed_protocol_version X (sn_protocol_version (ff_snapshot f))"

subsection \<open>The entries\<close>

definition entry_ok :: "externals \<Rightarrow> snapshot_entry \<Rightarrow> bool" where
  "entry_ok X = (\<lambda>(key, entry, live_until). key = to_key X entry \<and>
     key_to_xdr X key \<noteq> None \<and> entry_to_xdr X entry \<noteq> None)"

definition encoded :: "externals \<Rightarrow> snapshot_entry \<Rightarrow> encoded_entry" where
  "encoded X = (\<lambda>(key, entry, live_until).
     (the (key_to_xdr X key), the (entry_to_xdr X entry), live_until))"

lemma encode_entries_Inr:
  "encode_entries X i es = Inr xs \<longleftrightarrow> list_all (entry_ok X) es \<and> xs = map (encoded X) es"
  by (induction X i es arbitrary: xs rule: encode_entries.induct)
    (auto simp: entry_ok_def encoded_def)

lemma first_duplicate_None:
  "sorted (map fst xs) \<Longrightarrow> first_duplicate xs = None \<longleftrightarrow> bm_ok xs"
  by (induction xs rule: first_duplicate.induct)
    (auto simp: bm_keys_def order_less_le intro: order_trans)

lemma sorted_entries_Inr:
  "sorted_entries X s = Inr xs \<longleftrightarrow>
     list_all (entry_ok X) (sn_ledger_entries s) \<and>
     xs = sort_key fst (map (encoded X) (sn_ledger_entries s)) \<and> bm_ok xs"
proof -
  have "sorted (map fst (sort_key fst (map (encoded X) (sn_ledger_entries s))))" by simp
  then show ?thesis
    by (auto simp: sorted_entries_def encode_entries_Inr Let_def
        first_duplicate_None [symmetric] split: option.splits)
qed

lemmas sorted_entries_iff = sorted_entries_Inr [unfolded bm_ok_sort_key]

lemma sorted_entries_set:
  "sorted_entries X s = Inr xs \<Longrightarrow>
     bm_ok xs \<and> set xs = encoded X ` set (sn_ledger_entries s) \<and>
     length xs = length (sn_ledger_entries s)"
  by (auto simp: sorted_entries_Inr)

lemma sorted_entries_permutation:
  assumes s: "sorted_entries X s = Inr xs" and perm: "mset es = mset (sn_ledger_entries s)"
  shows "sorted_entries X (s\<lparr>sn_ledger_entries := es\<rparr>) = Inr xs"
proof -
  let ?enc = "\<lambda>es. map (encoded X) es"
  have same: "set es = set (sn_ledger_entries s)" using perm by (rule mset_eq_setD)
  have "mset (map fst (?enc es)) = mset (map fst (?enc (sn_ledger_entries s)))"
    using perm by (metis mset_map)
  then have distinct: "distinct (map fst (?enc es))"
    using s by (metis mset_eq_imp_distinct_iff sorted_entries_Inr bm_ok_sort_key)
  have "sort_key fst (?enc es) = xs"
    using s distinct same by (intro bm_set_ext) (auto simp: sorted_entries_Inr bm_ok_sort_key)
  with s distinct same show ?thesis
    by (auto simp: sorted_entries_Inr bm_ok_sort_key list_all_iff)
qed

lemma encoded_inj:
  assumes "xdr_laws X" and "list_all (entry_ok X) es"
  shows "inj_on (encoded X) (set es)"
proof (rule inj_onI)
  fix a b
  assume ab: "a \<in> set es" "b \<in> set es" and eq: "encoded X a = encoded X b"
  obtain k e l where a: "a = (k, e, l)" by (rule prod_cases3)
  obtain k' e' l' where b: "b = (k', e', l')" by (rule prod_cases3)
  have "entry_ok X a" "entry_ok X b" using ab assms(2) by (simp_all add: list_all_iff)
  then obtain kx ex where x: "key_to_xdr X k = Some kx" "entry_to_xdr X e = Some ex"
      "key_to_xdr X k' = Some kx" "entry_to_xdr X e' = Some ex"
    using eq by (auto simp: a b entry_ok_def encoded_def)
  then have "k = k'" "e = e'"
    using key_to_xdr_inject [OF assms(1)] entry_to_xdr_inject [OF assms(1)] by blast+
  moreover have "l = l'" using eq by (simp add: a b encoded_def)
  ultimately show "a = b" by (simp add: a b)
qed

subsection \<open>The preimage\<close>

definition entry_fits :: "encoded_entry \<Rightarrow> bool" where
  "entry_fits = (\<lambda>(key_xdr, entry_xdr, live_until). fits_usize key_xdr \<and> fits_usize entry_xdr)"

interpretation entry_tail: framing_pair digest_field fits_usize enc_ttl "\<lambda>_. True"
  by unfold_locales

interpretation entry_whole: framing_pair digest_field fits_usize
    "\<lambda>(e, t). digest_field e @ enc_ttl t" "\<lambda>(e, t). fits_usize e \<and> True"
  by unfold_locales

interpretation entry_frame: framing encode_ledger_entry entry_fits
proof unfold_locales
  fix a b :: encoded_entry and r s
  obtain k e l where a: "a = (k, e, l)" by (rule prod_cases3)
  obtain k' e' l' where b: "b = (k', e', l')" by (rule prod_cases3)
  assume fit: "entry_fits a" "entry_fits b"
    and eq: "encode_ledger_entry a @ r = encode_ledger_entry b @ s"
  show "a = b \<and> r = s"
  proof (rule entry_whole.pair.unframe)
    show "case a of (a, b) \<Rightarrow> fits_usize a \<and> (case b of (e, t) \<Rightarrow> fits_usize e \<and> True)"
      and "case b of (a, b) \<Rightarrow> fits_usize a \<and> (case b of (e, t) \<Rightarrow> fits_usize e \<and> True)"
      using fit by (simp_all add: a b entry_fits_def)
    show "(case a of (a, b) \<Rightarrow> digest_field a @ (case b of (e, t) \<Rightarrow> digest_field e @ enc_ttl t)) @ r =
        (case b of (a, b) \<Rightarrow> digest_field a @ (case b of (e, t) \<Rightarrow> digest_field e @ enc_ttl t)) @ s"
      using eq by (simp only: a b encode_ledger_entry.simps prod.case)
  qed
qed

definition ledger_metadata :: "ledger_snapshot \<Rightarrow> ledger_snapshot" where
  "ledger_metadata s = s\<lparr>sn_ledger_entries := []\<rparr>"

lemma ledger_preimage_inject:
  assumes pre: "ledger_preimage s xs = ledger_preimage t ys"
    and id: "length (sn_network_id s) = length (sn_network_id t)"
    and fit: "fits_usize xs" "fits_usize ys" "list_all entry_fits xs" "list_all entry_fits ys"
  shows "ledger_metadata s = ledger_metadata t \<and> xs = ys"
proof -
  note frames = u32_frame.unframe [OF TrueI TrueI] u64_frame.unframe [OF TrueI TrueI]
    append_same_length [OF _ id]
  from pre have "sn_protocol_version s = sn_protocol_version t \<and>
      sn_sequence_number s = sn_sequence_number t \<and> sn_timestamp s = sn_timestamp t \<and>
      sn_network_id s = sn_network_id t \<and> sn_base_reserve s = sn_base_reserve t \<and>
      sn_min_persistent_entry_ttl s = sn_min_persistent_entry_ttl t \<and>
      sn_min_temp_entry_ttl s = sn_min_temp_entry_ttl t \<and>
      sn_max_entry_ttl s = sn_max_entry_ttl t \<and>
      be64 (len64 xs) @ concat (map encode_ledger_entry xs) =
      be64 (len64 ys) @ concat (map encode_ledger_entry ys)"
    unfolding ledger_preimage_def same_append_eq by (metis frames)
  moreover from this have "len64 xs = len64 ys \<and>
      concat (map encode_ledger_entry xs) = concat (map encode_ledger_entry ys)"
    by (metis frames)
  moreover from this have "xs = ys"
    using entry_frame.unframe_list [of xs ys "[]" "[]"] fit by simp
  ultimately show ?thesis by (simp add: ledger_metadata_def)
qed

lemma accepted_snapshot:
  assumes "from_snapshot_with_policy X s passphrase policy = Inr fixture"
  shows "ff_snapshot fixture = s" "canonical_ledger_digest X s = Inr (ff_ledger_digest fixture)"
    "sn_network_id s = sha256 X (str_bytes passphrase)" "policy_check X policy (sn_protocol_version s) = Inr ()"
  using assms by (cases fixture; auto simp: from_snapshot_with_policy_def Let_def split: if_splits)+

subsection \<open>Properties\<close>

lemma sample_sorted: "\<exists>xs. sorted_entries sample_X sample_snapshot = Inr xs"
  by (simp add: sorted_entries_Inr bm_ok_sort_key sample_snapshot_def entry_ok_def encoded_def
      del: bm_ok_Cons sort_key_simps)

lemma canonical_digest_same:
  assumes "canonical_ledger_digest X s = Inr d"
    and "mset es = mset (sn_ledger_entries s)"
  shows "canonical_ledger_digest X (s\<lparr>sn_ledger_entries := es\<rparr>) = Inr d"
proof -
  from assms(1) obtain xs where "sorted_entries X s = Inr xs" and d: "d = sha256 X (ledger_preimage s xs)"
    by (auto simp: canonical_ledger_digest_def)
  then have "sorted_entries X (s\<lparr>sn_ledger_entries := es\<rparr>) = Inr xs"
    using assms(2) by (intro sorted_entries_permutation)
  then show ?thesis by (simp add: canonical_ledger_digest_def d ledger_preimage_def)
qed

text \<open>
  The ledger digest is canonical: a snapshot whose entries are listed in any other order
  is accepted too and has the same digest.
\<close>

theorem canonical_digest_permutation:
  assumes "canonical_ledger_digest X s = Inr d"
    and "mset es = mset (sn_ledger_entries s)"
  shows "canonical_ledger_digest X (s\<lparr>sn_ledger_entries := es\<rparr>) = Inr d"
  using assms by (rule canonical_digest_same)

theorem canonical_digest_permutation_witness:
  "\<exists>d. canonical_ledger_digest sample_X sample_snapshot = Inr d \<and>
     canonical_ledger_digest sample_X
       (sample_snapshot\<lparr>sn_ledger_entries := rev (sn_ledger_entries sample_snapshot)\<rparr>) = Inr d"
proof -
  obtain xs where "sorted_entries sample_X sample_snapshot = Inr xs" using sample_sorted ..
  then have "canonical_ledger_digest sample_X sample_snapshot =
      Inr (sha256 sample_X (ledger_preimage sample_snapshot xs))"
    by (simp add: canonical_ledger_digest_def)
  moreover from this have "canonical_ledger_digest sample_X
      (sample_snapshot\<lparr>sn_ledger_entries := rev (sn_ledger_entries sample_snapshot)\<rparr>) =
      Inr (sha256 sample_X (ledger_preimage sample_snapshot xs))"
    by (rule canonical_digest_permutation) simp
  ultimately show ?thesis by blast
qed

text \<open>
  C37. The ledger digest binds the ledger: two accepted snapshots of one network with the same
  digest have the same metadata and the same set of entries (keys, entries and TTLs), unless
  SHA-256 collides on exactly the two byte strings hashed for them.
\<close>

theorem ledger_digest_binds:
  assumes laws: "xdr_laws X"
    and s: "sorted_entries X s = Inr xs" "fits_usize xs" "list_all entry_fits xs"
    and t: "sorted_entries X t = Inr ys" "fits_usize ys" "list_all entry_fits ys"
    and id: "length (sn_network_id s) = length (sn_network_id t)"
    and no_collision: "inj_on (sha256 X) {ledger_preimage s xs, ledger_preimage t ys}"
    and same: "canonical_ledger_digest X s = canonical_ledger_digest X t"
  shows "ledger_metadata s = ledger_metadata t \<and>
    set (sn_ledger_entries s) = set (sn_ledger_entries t)"
proof -
  have "ledger_preimage s xs = ledger_preimage t ys"
    using same no_collision by (simp add: canonical_ledger_digest_def s t inj_on_eq_iff)
  then have eq: "ledger_metadata s = ledger_metadata t \<and> xs = ys"
    using id s t by (intro ledger_preimage_inject)
  let ?S = "sn_ledger_entries s" and ?T = "sn_ledger_entries t"
  have "encoded X ` set ?S = encoded X ` set ?T"
    using eq s(1) t(1) by (metis sorted_entries_set)
  moreover have "inj_on (encoded X) (set (?S @ ?T))"
    using laws s(1) t(1) by (intro encoded_inj) (auto simp: sorted_entries_Inr)
  ultimately have "set ?S = set ?T"
    by (subst (asm) inj_on_image_eq_iff [of _ "set (?S @ ?T)"]) auto
  with eq show ?thesis by simp
qed

theorem ledger_digest_binds_witness:
  "ledger_metadata sample_snapshot = ledger_metadata sample_snapshot \<and>
     set (sn_ledger_entries sample_snapshot) =
     set (sn_ledger_entries (sample_snapshot\<lparr>sn_ledger_entries :=
       rev (sn_ledger_entries sample_snapshot)\<rparr>))"
proof -
  let ?t = "sample_snapshot\<lparr>sn_ledger_entries := rev (sn_ledger_entries sample_snapshot)\<rparr>"
  obtain xs where s: "sorted_entries sample_X sample_snapshot = Inr xs" using sample_sorted ..
  have t: "sorted_entries sample_X ?t = Inr xs"
    using s by (rule sorted_entries_permutation) simp
  have fit: "fits_usize xs" "list_all entry_fits xs"
    using sorted_entries_set [OF s]
    by (auto simp: sample_snapshot_def list_all_iff entry_fits_def encoded_def fits_usize_def)
  have pre: "ledger_preimage sample_snapshot xs = ledger_preimage ?t xs"
    by (simp add: ledger_preimage_def)
  have "ledger_metadata sample_snapshot = ledger_metadata ?t \<and>
      set (sn_ledger_entries sample_snapshot) = set (sn_ledger_entries ?t)"
    by (rule ledger_digest_binds [OF sample_xdr_laws s fit t fit])
      (simp_all add: pre canonical_ledger_digest_def s t)
  then show ?thesis by (simp add: ledger_metadata_def)
qed

text \<open>
  What the loader accepts: exactly the snapshots with an accepted protocol and the
  network id of the expected passphrase, whose every entry is stored under its own key and
  encodes, with no key twice; the fixture then keeps the snapshot and its digest unchanged.
\<close>

theorem from_snapshot_accepts:
  "from_snapshot_with_policy X s passphrase policy = Inr f \<longleftrightarrow>
     (sn_protocol_version s = supported_protocol_version X \<or>
      policy = AllowNewer \<and> sn_protocol_version s = newer_protocol_version X) \<and>
     sn_network_id s = sha256 X (str_bytes passphrase) \<and>
     list_all (entry_ok X) (sn_ledger_entries s) \<and>
     distinct (map (\<lambda>e. fst (encoded X e)) (sn_ledger_entries s)) \<and>
     ff_snapshot f = s \<and> canonical_ledger_digest X s = Inr (ff_ledger_digest f)"
proof -
  have "distinct (map (\<lambda>e. fst (encoded X e)) es) \<longleftrightarrow> bm_ok (sort_key fst (map (encoded X) es))" for es
    by (simp add: bm_ok_sort_key comp_def)
  then show ?thesis
    by (cases f) (auto simp: from_snapshot_with_policy_def policy_check_Inr Let_def
        canonical_ledger_digest_def sorted_entries_Inr)
qed

end
