(* ===== verification/Effects.thy ===== *)
theory Effects
  imports Errors
begin

text \<open>
  Fallible code with side effects: an operation takes the state of the world and returns its
  \<open>Result\<close> and the next state. The state is a type variable \<open>'w\<close>: what lies behind the
  \<open>Transport\<close> trait (the RPC server and the clock) is not the program's.
\<close>

type_synonym ('w, 'e, 'a) act = "'w \<Rightarrow> ('e + 'a) \<times> 'w"

definition sret :: "'a \<Rightarrow> ('w, 'e, 'a) act" where
  "sret x w = (Inr x, w)"

definition sfail :: "'e \<Rightarrow> ('w, 'e, 'a) act" where
  "sfail e w = (Inl e, w)"

definition slift :: "'e + 'a \<Rightarrow> ('w, 'e, 'a) act" where
  "slift r w = (r, w)"

definition sbind :: "('w, 'e, 'a) act \<Rightarrow> ('a \<Rightarrow> ('w, 'e, 'b) act) \<Rightarrow> ('w, 'e, 'b) act" where
  "sbind m f w = (case m w of (Inl e, w') \<Rightarrow> (Inl e, w') | (Inr x, w') \<Rightarrow> f x w')"

definition smap_err :: "('e \<Rightarrow> 'd) \<Rightarrow> ('w, 'e, 'a) act \<Rightarrow> ('w, 'd, 'a) act" where
  "smap_err h m w = (case m w of (r, w') \<Rightarrow> (map_err h r, w'))"

lemma act_simps [simp, result_simps]:
  "sret x w = (r, v) \<longleftrightarrow> r = Inr x \<and> v = w"
  "sfail e w = (r, v) \<longleftrightarrow> r = Inl e \<and> v = w"
  "slift s w = (r, v) \<longleftrightarrow> s = r \<and> v = w"
  by (auto simp: sret_def sfail_def slift_def)

lemma sbind_Inr [simp, result_simps]:
  "sbind m f w = (Inr y, v) \<longleftrightarrow> (\<exists>x w'. m w = (Inr x, w') \<and> f x w' = (Inr y, v))"
  by (auto simp: sbind_def split: prod.splits sum.splits)

lemma sbind_Inl [result_simps]:
  "sbind m f w = (Inl e, v) \<longleftrightarrow>
     m w = (Inl e, v) \<or> (\<exists>x w'. m w = (Inr x, w') \<and> f x w' = (Inl e, v))"
  by (auto simp: sbind_def split: prod.splits sum.splits)

lemma sbind_run:
  "m w = (Inr x, w') \<Longrightarrow> sbind m f w = f x w'"
  "m w = (Inl e, w') \<Longrightarrow> sbind m f w = (Inl e, w')"
  by (simp_all add: sbind_def)

lemma smap_err_Inr [simp, result_simps]:
  "smap_err h m w = (Inr y, v) \<longleftrightarrow> m w = (Inr y, v)"
  by (auto simp: smap_err_def split: prod.splits)

lemma smap_err_Inl [result_simps]:
  "smap_err h m w = (Inl e, v) \<longleftrightarrow> (\<exists>d. m w = (Inl d, v) \<and> e = h d)"
  by (auto simp: smap_err_def map_err_def split: prod.splits sum.splits)

lemma case_option_act_Inr [simp]:
  "(case x of None \<Rightarrow> sfail e | Some y \<Rightarrow> f y) w = (Inr z, v) \<longleftrightarrow>
     (\<exists>y. x = Some y \<and> f y w = (Inr z, v))"
  by (cases x) auto

text \<open>The \<open>Transport\<close> trait of \<open>src/capture.rs\<close> and the values that cross it.\<close>

record anchor =
  an_sequence :: u32
  an_hash :: string
  an_protocol_version :: u32
  an_timestamp :: u64
  an_base_reserve :: u32

record network =
  nw_passphrase :: string
  nw_protocol_version :: u32

record fetched_entry =
  fe_entry :: ledger_entry
  fe_live_until :: "u32 option"

record entry_batch =
  eb_latest_ledger :: u32
  eb_entries :: "fetched_entry list"

text \<open>A failure carries the name of the RPC operation and nothing else.\<close>

type_synonym transport_failure = string

record 'w transport =
  tr_network :: "('w, transport_failure, network) act"
  tr_latest_ledger :: "('w, transport_failure, anchor) act"
  tr_ledger_entries :: "ledger_key list \<Rightarrow> ('w, transport_failure, entry_batch) act"

end
