(* ===== verification/Coverage.thy ===== *)
theory Coverage
  imports Frozen_Fixture Effects
begin

text \<open>
  The captured state: for every ledger key the program knows whether the ledger holds it
  (\<open>Present\<close>, with the entry and its TTL) or not (\<open>Absent\<close>); a key outside the map is
  unknown. This theory models the validation of that state in \<open>src/capture.rs\<close>: a batch
  returned by the RPC, an entry's metadata, a whole coverage map, the closure under
  executable references, and the inventory digest. The lemmas characterise each check
  exactly and show that the inventory digest binds the coverage.
\<close>

datatype lookup_state = Present ledger_entry "u32 option" | Absent

type_synonym coverage = "(key_id, lookup_state) bmap"

definition key_id :: "externals \<Rightarrow> ledger_key \<Rightarrow> capture_error + key_id" where
  "key_id X key = ok_or Xdr (key_to_xdr X key)"

lemma key_id_Inr [simp]: "key_id X k = Inr i \<longleftrightarrow> key_to_xdr X k = Some i"
  by (simp add: key_id_def)

subsection \<open>Batches\<close>

definition batch_step ::
  "externals \<Rightarrow> key_id list \<Rightarrow> (key_id, fetched_entry) bmap \<Rightarrow> fetched_entry
    \<Rightarrow> capture_error + (key_id, fetched_entry) bmap" where
  "batch_step X ids returned fetched =
     and_then (key_id X (to_key X (fe_entry fetched))) (\<lambda>i.
       if i \<notin> set ids \<or> bm_get returned i \<noteq> None
       then Inl (MalformedRpc ''getLedgerEntries'')
       else Inr (bm_insert i fetched returned))"

definition validate_batch ::
  "externals \<Rightarrow> ledger_key list \<Rightarrow> fetched_entry list
    \<Rightarrow> capture_error + (key_id, fetched_entry) bmap" where
  "validate_batch X requested entries =
     and_then (try_map (key_id X) requested) (\<lambda>ids. try_fold (batch_step X ids) [] entries)"

definition extract_archival :: "fetched_entry option \<Rightarrow> capture_error + state_archival_settings" where
  "extract_archival entry =
     (case entry of
        None \<Rightarrow> Inl MissingStateArchival
      | Some fetched \<Rightarrow>
          (case le_data (fe_entry fetched) of
             Data_ConfigSetting (Setting_StateArchival settings) \<Rightarrow> Inr settings
           | _ \<Rightarrow> Inl (MalformedRpc ''getLedgerEntries'')))"

definition state_of :: "fetched_entry option \<Rightarrow> lookup_state" where
  "state_of entry =
     (case entry of None \<Rightarrow> Absent | Some f \<Rightarrow> Present (fe_entry f) (fe_live_until f))"

subsection \<open>Entries and coverage\<close>

definition validate_entry_metadata :: "ledger_entry \<Rightarrow> u32 option \<Rightarrow> u32 \<Rightarrow> u32 \<Rightarrow> bool" where
  "validate_entry_metadata entry live_until ledger_sequence max_entry_ttl =
     (if le_last_modified entry > ledger_sequence \<or> max_entry_ttl = 0 then False
      else case checked_add ledger_sequence (saturating_sub max_entry_ttl 1) of
        None \<Rightarrow> False
      | Some max_live_until \<Rightarrow>
          (let live_contract_ttl = (\<lambda>ttl. ledger_sequence \<le> ttl \<and> ttl \<le> max_live_until);
               is_some_and = (\<lambda>p. case live_until of None \<Rightarrow> False | Some ttl \<Rightarrow> p ttl)
           in case le_data entry of
                Data_ContractCode c \<Rightarrow> is_some_and (\<lambda>ttl. ttl = 0 \<or> live_contract_ttl ttl)
              | Data_ContractData d \<Rightarrow>
                  (case cd_durability d of
                     Persistent \<Rightarrow> is_some_and (\<lambda>ttl. ttl = 0 \<or> live_contract_ttl ttl)
                   | Temporary \<Rightarrow> is_some_and live_contract_ttl)
              | Data_Account a \<Rightarrow> live_until = None
              | Data_Trustline t \<Rightarrow> live_until = None
              | _ \<Rightarrow> False))"

definition validate_coverage_entry ::
  "externals \<Rightarrow> u32 \<Rightarrow> u32 \<Rightarrow> key_id \<times> lookup_state \<Rightarrow> capture_error + unit" where
  "validate_coverage_entry X ledger_sequence max_entry_ttl = (\<lambda>(i, state).
     case state of
       Absent \<Rightarrow> Inr ()
     | Present entry live_until \<Rightarrow>
         and_then (key_id X (to_key X entry)) (\<lambda>derived.
         if i \<noteq> derived then Inl (MalformedRpc ''getLedgerEntries'')
         else if (case le_data entry of
               Data_ContractCode code \<Rightarrow> cc_hash code \<noteq> sha256 X (cc_code code)
             | _ \<Rightarrow> False)
         then Inl (MalformedRpc ''getLedgerEntries'')
         else if \<not> validate_entry_metadata entry live_until ledger_sequence max_entry_ttl
         then Inl (MalformedRpc ''getLedgerEntries'')
         else Inr ()))"

definition validate_coverage :: "externals \<Rightarrow> coverage \<Rightarrow> u32 \<Rightarrow> u32 \<Rightarrow> capture_error + unit" where
  "validate_coverage X coverage ledger_sequence max_entry_ttl =
     try_each (validate_coverage_entry X ledger_sequence max_entry_ttl) coverage"

subsection \<open>Executable closure\<close>

definition external_ref_code_key ::
  "externals \<Rightarrow> coverage \<Rightarrow> external_ref \<Rightarrow> capture_error + ledger_key option" where
  "external_ref_code_key X coverage r =
     and_then (key_id X (executable_ref_key r)) (\<lambda>reference_id.
     case bm_get coverage reference_id of
       None \<Rightarrow> Inr None
     | Some Absent \<Rightarrow> Inl MissingExecutableReference
     | Some (Present entry live_until) \<Rightarrow>
         (case le_data entry of
            Data_ContractData d \<Rightarrow>
              (case cd_val d of
                 ScVal_Bytes bs \<Rightarrow>
                   (if length bs = 32 then Inr (Some (Key_ContractCode bs))
                    else Inl MalformedExecutableReference)
               | _ \<Rightarrow> Inl MalformedExecutableReference)
          | _ \<Rightarrow> Inl MalformedExecutableReference))"

definition ensure_code_present :: "externals \<Rightarrow> coverage \<Rightarrow> hash \<Rightarrow> capture_error + unit" where
  "ensure_code_present X coverage h =
     and_then (key_id X (Key_ContractCode h)) (\<lambda>i.
     case bm_get coverage i of
       Some (Present entry live_until) \<Rightarrow> Inr ()
     | _ \<Rightarrow> Inl MissingReferencedCode)"

definition ensure_instance_closed ::
  "externals \<Rightarrow> coverage \<Rightarrow> contract_instance \<Rightarrow> capture_error + unit" where
  "ensure_instance_closed X coverage inst =
     (case executable inst of
        Wasm h \<Rightarrow> ensure_code_present X coverage h
      | ExternalRef r \<Rightarrow>
          and_then (external_ref_code_key X coverage r) (\<lambda>code_key.
          case code_key of
            None \<Rightarrow> Inl MissingExecutableReference
          | Some (Key_ContractCode h) \<Rightarrow> ensure_code_present X coverage h
          | Some _ \<Rightarrow> Inl InternalInvariant)
      | StellarAsset \<Rightarrow> Inr ())"

text \<open>The instance a coverage value holds, if it holds one (the three \<open>let else continue\<close>).\<close>

definition instance_of :: "lookup_state \<Rightarrow> contract_instance option" where
  "instance_of state =
     (case state of
        Present entry live_until \<Rightarrow>
          (case le_data entry of
             Data_ContractData d \<Rightarrow>
               (case cd_val d of ScVal_ContractInstance inst \<Rightarrow> Some inst | _ \<Rightarrow> None)
           | _ \<Rightarrow> None)
      | Absent \<Rightarrow> None)"

definition ensure_executable_closure_present :: "externals \<Rightarrow> coverage \<Rightarrow> capture_error + unit" where
  "ensure_executable_closure_present X coverage =
     try_each (\<lambda>(i, state). case instance_of state of
         None \<Rightarrow> Inr ()
       | Some inst \<Rightarrow> ensure_instance_closed X coverage inst) coverage"

definition ensure_legacy_root_present :: "externals \<Rightarrow> sc_address \<Rightarrow> coverage \<Rightarrow> capture_error + unit" where
  "ensure_legacy_root_present X root coverage =
     and_then (key_id X (contract_instance_key root)) (\<lambda>i.
     case bm_get coverage i of
       Some (Present entry live_until) \<Rightarrow>
         (case le_data entry of
            Data_ContractData d \<Rightarrow>
              (case cd_val d of
                 ScVal_ContractInstance inst \<Rightarrow> Inr ()
               | _ \<Rightarrow> Inl CaptureBundleIntegrity)
          | _ \<Rightarrow> Inl CaptureBundleIntegrity)
     | _ \<Rightarrow> Inl CaptureBundleIntegrity)"

subsection \<open>Inventory digest\<close>

definition inventory_digest_domain_v1 :: bytes where
  "inventory_digest_domain_v1 =
     str_bytes ''KANATOKO'' @ [0] @ str_bytes ''CAPTURE-INVENTORY'' @ [0] @ str_bytes ''V1'' @ [0]"

definition encode_state :: "externals \<Rightarrow> lookup_state \<Rightarrow> capture_error + bytes" where
  "encode_state X state =
     (case state of
        Present entry live_until \<Rightarrow>
          and_then (ok_or Xdr (entry_to_xdr X entry)) (\<lambda>xdr.
            Inr ([1] @ digest_field xdr @ enc_ttl live_until))
      | Absent \<Rightarrow> Inr [0])"

definition inventory_preimage :: "externals \<Rightarrow> coverage \<Rightarrow> capture_error + bytes" where
  "inventory_preimage X coverage =
     and_then (try_map (\<lambda>(key, state).
         and_then (encode_state X state) (\<lambda>bs. Inr (digest_field key @ bs))) coverage)
       (\<lambda>parts. Inr (inventory_digest_domain_v1 @ be64 (len64 coverage) @ concat parts))"

definition inventory_digest :: "externals \<Rightarrow> coverage \<Rightarrow> capture_error + bytes" where
  "inventory_digest X coverage =
     and_then (inventory_preimage X coverage) (\<lambda>pre. Inr (sha256 X pre))"

definition present_entries :: "coverage \<Rightarrow> nat" where
  "present_entries coverage =
     length (filter (\<lambda>(i, state). case state of Present e l \<Rightarrow> True | Absent \<Rightarrow> False) coverage)"

definition absent_entries :: "coverage \<Rightarrow> nat" where
  "absent_entries coverage = length coverage - present_entries coverage"

subsection \<open>What the checks establish\<close>

lemma case_state_Inr [simp]:
  "(case st of Present e l \<Rightarrow> f e l | Absent \<Rightarrow> Inl err) = Inr z \<longleftrightarrow>
     (\<exists>e l. st = Present e l \<and> f e l = Inr z)"
  by (cases st) auto

lemma case_contract_data_Inr [simp]:
  "(case dat of Data_ContractData d \<Rightarrow> f d | _ \<Rightarrow> Inl err) = Inr z \<longleftrightarrow>
     (\<exists>d. dat = Data_ContractData d \<and> f d = Inr z)"
  by (cases dat) auto

lemma case_val_bytes_Inr [simp]:
  "(case v of ScVal_Bytes b \<Rightarrow> f b | _ \<Rightarrow> Inl err) = Inr z \<longleftrightarrow> (\<exists>b. v = ScVal_Bytes b \<and> f b = Inr z)"
  by (cases v) auto

lemma case_val_instance_Inr [simp]:
  "(case v of ScVal_ContractInstance i \<Rightarrow> f i | _ \<Rightarrow> Inl err) = Inr z \<longleftrightarrow>
     (\<exists>i. v = ScVal_ContractInstance i \<and> f i = Inr z)"
  by (cases v) auto

lemma instance_of_Some:
  "instance_of state = Some inst \<longleftrightarrow>
     (\<exists>e l d. state = Present e l \<and> le_data e = Data_ContractData d \<and>
        cd_val d = ScVal_ContractInstance inst)"
  by (auto simp: instance_of_def split: lookup_state.splits ledger_entry_data.splits sc_val.splits)

definition entry_id :: "externals \<Rightarrow> fetched_entry \<Rightarrow> key_id option" where
  "entry_id X f = key_to_xdr X (to_key X (fe_entry f))"

definition entry_binding :: "externals \<Rightarrow> fetched_entry \<Rightarrow> key_id \<times> fetched_entry" where
  "entry_binding X f = (the (entry_id X f), f)"

lemma batch_step_Inr:
  "batch_step X ids acc f = Inr acc' \<longleftrightarrow>
     (\<exists>i\<in>set ids. entry_id X f = Some i \<and> bm_get acc i = None \<and> acc' = bm_insert i f acc)"
  by (auto simp: batch_step_def entry_id_def split: if_splits)

lemma batch_loop:
  assumes "bm_ok acc"
  shows "try_fold (batch_step X ids) acc entries = Inr ret \<longleftrightarrow>
     (\<forall>f\<in>set entries. \<exists>i\<in>set ids. entry_id X f = Some i \<and> bm_get acc i = None) \<and>
     distinct (map (entry_id X) entries) \<and>
     ret = fold (\<lambda>(k, v). bm_insert k v) (map (entry_binding X) entries) acc"
  using assms
proof (induction entries arbitrary: acc)
  case Nil
  then show ?case by auto
next
  case (Cons f fs)
  show ?case
  proof (cases "\<exists>i\<in>set ids. entry_id X f = Some i \<and> bm_get acc i = None")
    case False
    then show ?thesis by (auto simp: batch_step_Inr)
  next
    case True
    then obtain i where i: "i \<in> set ids" "entry_id X f = Some i" "bm_get acc i = None" by auto
    then have step: "batch_step X ids acc f = Inr (bm_insert i f acc)"
      by (simp add: batch_step_Inr)
    have fresh: "bm_get (bm_insert i f acc) j = None \<longleftrightarrow> j \<noteq> i \<and> bm_get acc j = None" for j
      using Cons.prems by (simp add: bm_get_insert)
    have "(\<forall>f'\<in>set fs. \<exists>j\<in>set ids. entry_id X f' = Some j \<and> j \<noteq> i \<and> bm_get acc j = None) \<longleftrightarrow>
        (\<forall>f'\<in>set fs. \<exists>j\<in>set ids. entry_id X f' = Some j \<and> bm_get acc j = None) \<and>
        Some i \<notin> entry_id X ` set fs"
      by (fastforce simp: image_iff)
    then show ?thesis
      using i Cons.IH [OF bm_ok_insert [OF Cons.prems], of i f]
      by (simp add: step fresh entry_binding_def)
  qed
qed

lemma validate_batch_Inr:
  "validate_batch X requested entries = Inr ret \<longleftrightarrow>
     (\<exists>ids. map (key_to_xdr X) requested = map Some ids \<and>
        (\<forall>f\<in>set entries. \<exists>i\<in>set ids. entry_id X f = Some i)) \<and>
     distinct (map (entry_id X) entries) \<and>
     ret = bm_of_list (map (entry_binding X) entries)"
proof -
  have "map (key_id X) requested = map Inr ids \<longleftrightarrow> map (key_to_xdr X) requested = map Some ids" for ids
    by (induction requested arbitrary: ids) (auto simp: map_eq_Cons_conv Cons_eq_map_conv)
  then show ?thesis
    unfolding validate_batch_def and_then_Inr try_map_Inr batch_loop [OF bm_ok_Nil] bm_of_list_def
    by (simp only: bm_get_simps simp_thms) blast
qed

lemma validate_batch_get:
  assumes "validate_batch X requested entries = Inr ret"
  shows "bm_ok ret" and "bm_get ret i = Some f \<longleftrightarrow> f \<in> set entries \<and> entry_id X f = Some i"
proof -
  let ?kvs = "map (entry_binding X) entries"
  from assms have ret: "ret = bm_of_list ?kvs" and dist: "distinct (map (entry_id X) entries)"
    and ids: "\<forall>f\<in>set entries. \<exists>i. entry_id X f = Some i"
    by (auto simp: validate_batch_Inr)
  show "bm_ok ret" by (simp add: ret)
  have "map (entry_id X) entries = map Some (map fst ?kvs)"
    using ids by (auto simp: entry_binding_def)
  then have "distinct (map fst ?kvs)" using dist by (metis distinct_map)
  then have "bm_get ret i = Some f \<longleftrightarrow> (i, f) \<in> set ?kvs"
    by (simp add: ret bm_of_list_get_distinct del: map_map)
  also have "\<dots> \<longleftrightarrow> f \<in> set entries \<and> entry_id X f = Some i"
    using ids by (fastforce simp: entry_binding_def image_iff)
  finally show "bm_get ret i = Some f \<longleftrightarrow> f \<in> set entries \<and> entry_id X f = Some i" .
qed

subsection \<open>Metadata\<close>

lemma in_Some_image: "x \<in> Some ` S \<longleftrightarrow> (\<exists>i\<in>S. x = Some i)"
  by auto

definition live_window :: "u32 \<Rightarrow> u32 \<Rightarrow> u32 \<Rightarrow> bool" where
  "live_window ledger_sequence max_entry_ttl ttl \<longleftrightarrow>
     unat ledger_sequence \<le> unat ttl \<and> unat ttl < unat ledger_sequence + unat max_entry_ttl"

lemma checked_window:
  "0 < unat m \<Longrightarrow> checked_add s (saturating_sub m 1) = Some c \<longleftrightarrow>
     unat s + unat m \<le> 2 ^ 32 \<and> unat c + 1 = unat s + unat (m :: u32)"
  by (auto simp: checked_add_Some word_facts)

lemma validate_entry_metadata_iff:
  "validate_entry_metadata entry live_until s m \<longleftrightarrow>
     unat (le_last_modified entry) \<le> unat s \<and> 0 < unat m \<and> unat s + unat m \<le> 2 ^ 32 \<and>
     (case le_data entry of
        Data_ContractCode c \<Rightarrow> \<exists>ttl. live_until = Some ttl \<and> (ttl = 0 \<or> live_window s m ttl)
      | Data_ContractData d \<Rightarrow> \<exists>ttl. live_until = Some ttl \<and>
          (cd_durability d = Persistent \<and> ttl = 0 \<or> live_window s m ttl)
      | Data_Account a \<Rightarrow> live_until = None
      | Data_Trustline t \<Rightarrow> live_until = None
      | _ \<Rightarrow> False)"
proof (cases "le_last_modified entry > s \<or> m = 0")
  case True
  then show ?thesis
    by (auto simp: validate_entry_metadata_def word_less_nat_alt unat_eq_0)
next
  case False
  then have m: "0 < unat m" and lm: "unat (le_last_modified entry) \<le> unat s"
    by (auto simp: word_less_nat_alt unat_gt_0)
  show ?thesis
  proof (cases "checked_add s (saturating_sub m 1)")
    case None
    then have "\<not> unat s + unat m \<le> 2 ^ 32"
      using m by (auto simp: checked_add_def word_facts split: if_splits)
    with False None show ?thesis by (simp add: validate_entry_metadata_def)
  next
    case (Some c)
    then have c: "unat s + unat m \<le> 2 ^ 32" "unat c + 1 = unat s + unat m"
      using m by (simp_all add: checked_window)
    have "s \<le> ttl \<and> ttl \<le> c \<longleftrightarrow> live_window s m ttl" for ttl
      using c(2) by (auto simp: live_window_def word_le_nat_alt)
    with False Some m lm c(1) show ?thesis
      by (auto simp: validate_entry_metadata_def Let_def
          split: ledger_entry_data.split durability.split option.split)
  qed
qed

definition state_valid :: "externals \<Rightarrow> u32 \<Rightarrow> u32 \<Rightarrow> key_id \<times> lookup_state \<Rightarrow> bool" where
  "state_valid X s m = (\<lambda>(i, state).
     case state of
       Absent \<Rightarrow> True
     | Present entry live_until \<Rightarrow>
         key_to_xdr X (to_key X entry) = Some i \<and>
         (case le_data entry of
            Data_ContractCode code \<Rightarrow> cc_hash code = sha256 X (cc_code code)
          | _ \<Rightarrow> True) \<and>
         validate_entry_metadata entry live_until s m)"

lemma validate_coverage_entry_Inr:
  "validate_coverage_entry X s m b = Inr u \<longleftrightarrow> state_valid X s m b"
  by (cases b) (auto simp: validate_coverage_entry_def state_valid_def
      split: lookup_state.split ledger_entry_data.splits)

lemma validate_coverage_Inr:
  "validate_coverage X cov s m = Inr u \<longleftrightarrow> list_all (state_valid X s m) cov"
  by (simp add: validate_coverage_def validate_coverage_entry_Inr list_all_iff)

lemma state_valid_Absent: "state_valid X s m (i, Absent)"
  by (simp add: state_valid_def)

lemma state_valid_Present:
  "state_valid X s m (i, Present e live_until) \<longleftrightarrow>
     key_to_xdr X (to_key X e) = Some i \<and>
     unat (le_last_modified e) \<le> unat s \<and> 0 < unat m \<and> unat s + unat m \<le> 2 ^ 32 \<and>
     (case le_data e of
        Data_ContractCode c \<Rightarrow> cc_hash c = sha256 X (cc_code c) \<and>
          (\<exists>ttl. live_until = Some ttl \<and> (ttl = 0 \<or> live_window s m ttl))
      | Data_ContractData d \<Rightarrow> \<exists>ttl. live_until = Some ttl \<and>
          (cd_durability d = Persistent \<and> ttl = 0 \<or> live_window s m ttl)
      | Data_Account a \<Rightarrow> live_until = None
      | Data_Trustline t \<Rightarrow> live_until = None
      | _ \<Rightarrow> False)"
  unfolding state_valid_def validate_entry_metadata_iff
  by (cases "le_data e") auto

subsection \<open>Closure\<close>

definition code_present :: "externals \<Rightarrow> coverage \<Rightarrow> hash \<Rightarrow> bool" where
  "code_present X cov h \<longleftrightarrow>
     (\<exists>i e l. key_to_xdr X (Key_ContractCode h) = Some i \<and> bm_get cov i = Some (Present e l))"

text \<open>The code hash an executable reference resolves to in a coverage map.\<close>

definition ref_target :: "externals \<Rightarrow> coverage \<Rightarrow> external_ref \<Rightarrow> hash \<Rightarrow> bool" where
  "ref_target X cov r h \<longleftrightarrow>
     (\<exists>i e l d. key_to_xdr X (executable_ref_key r) = Some i \<and> bm_get cov i = Some (Present e l) \<and>
        le_data e = Data_ContractData d \<and> cd_val d = ScVal_Bytes h \<and> length h = 32)"

definition instance_closed :: "externals \<Rightarrow> coverage \<Rightarrow> contract_instance \<Rightarrow> bool" where
  "instance_closed X cov inst \<longleftrightarrow>
     (case executable inst of
        Wasm h \<Rightarrow> code_present X cov h
      | StellarAsset \<Rightarrow> True
      | ExternalRef r \<Rightarrow> \<exists>h. ref_target X cov r h \<and> code_present X cov h)"

lemma ensure_code_present_Inr:
  "ensure_code_present X cov h = Inr u \<longleftrightarrow> code_present X cov h"
  by (auto simp: ensure_code_present_def code_present_def)

lemma external_ref_code_key_Inr:
  "external_ref_code_key X cov r = Inr k \<longleftrightarrow>
     (\<exists>i. key_to_xdr X (executable_ref_key r) = Some i \<and> bm_get cov i = None \<and> k = None) \<or>
     (\<exists>h. ref_target X cov r h \<and> k = Some (Key_ContractCode h))"
proof (cases "key_to_xdr X (executable_ref_key r)")
  case (Some i)
  then show ?thesis
    by (cases "bm_get cov i") (auto simp: external_ref_code_key_def key_id_def ref_target_def)
qed (simp add: external_ref_code_key_def key_id_def ref_target_def)

lemma ref_target_fun: "ref_target X cov r h \<Longrightarrow> ref_target X cov r h' \<Longrightarrow> h = h'"
  by (auto simp: ref_target_def)

lemma ensure_instance_closed_Inr:
  "ensure_instance_closed X cov inst = Inr u \<longleftrightarrow> instance_closed X cov inst"
proof (cases "executable inst")
  case (ExternalRef r)
  then show ?thesis
    by (auto simp: ensure_instance_closed_def instance_closed_def external_ref_code_key_Inr
        ensure_code_present_Inr)
qed (simp_all add: ensure_instance_closed_def instance_closed_def ensure_code_present_Inr)

definition closed_binding :: "externals \<Rightarrow> coverage \<Rightarrow> key_id \<times> lookup_state \<Rightarrow> bool" where
  "closed_binding X cov b =
     (case instance_of (snd b) of None \<Rightarrow> True | Some inst \<Rightarrow> instance_closed X cov inst)"

lemma ensure_executable_closure_Inr:
  "ensure_executable_closure_present X cov = Inr u \<longleftrightarrow> list_all (closed_binding X cov) cov"
  by (auto simp: ensure_executable_closure_present_def closed_binding_def list_all_iff
      ensure_instance_closed_Inr split: option.splits)

lemma ensure_legacy_root_Inr:
  "ensure_legacy_root_present X root cov = Inr u \<longleftrightarrow>
     (\<exists>i state inst. key_to_xdr X (contract_instance_key root) = Some i \<and>
        bm_get cov i = Some state \<and> instance_of state = Some inst)"
  by (fastforce simp: ensure_legacy_root_present_def instance_of_Some)

subsection \<open>What the inventory digest determines\<close>

fun enc_state :: "(bytes \<times> u32 option) option \<Rightarrow> bytes" where
  "enc_state (Some (xdr, live_until)) = [1] @ digest_field xdr @ enc_ttl live_until"
| "enc_state None = [0]"

fun state_fits :: "(bytes \<times> u32 option) option \<Rightarrow> bool" where
  "state_fits (Some (xdr, live_until)) \<longleftrightarrow> fits_usize xdr"
| "state_fits None \<longleftrightarrow> True"

definition enc_binding :: "bytes \<times> (bytes \<times> u32 option) option \<Rightarrow> bytes" where
  "enc_binding = (\<lambda>(key, state). digest_field key @ enc_state state)"

definition binding_fits :: "bytes \<times> (bytes \<times> u32 option) option \<Rightarrow> bool" where
  "binding_fits = (\<lambda>(key, state). fits_usize key \<and> state_fits state)"

interpretation state_frame: framing enc_state state_fits
proof unfold_locales
  fix a b :: "(bytes \<times> u32 option) option" and r s
  assume fit: "state_fits a" "state_fits b" and eq: "enc_state a @ r = enc_state b @ s"
  show "a = b \<and> r = s"
  proof (cases a)
    case None
    then show ?thesis using eq by (cases b) auto
  next
    case (Some x)
    obtain xa la where a: "a = Some (xa, la)" using Some by (cases x) auto
    moreover obtain xb lb where b: "b = Some (xb, lb)" using eq a by (cases b) auto
    ultimately show ?thesis using entry_tail.pair.unframe [of "(xa, la)" "(xb, lb)" r s] fit eq by simp
  qed
qed

interpretation binding_pair: framing_pair digest_field fits_usize enc_state state_fits
  by unfold_locales

interpretation binding_frame: framing enc_binding binding_fits
  unfolding enc_binding_def binding_fits_def by (rule binding_pair.pair.framing_axioms)

definition encoded_state :: "externals \<Rightarrow> lookup_state \<Rightarrow> (bytes \<times> u32 option) option" where
  "encoded_state X state =
     (case state of Present e l \<Rightarrow> Some (the (entry_to_xdr X e), l) | Absent \<Rightarrow> None)"

definition encoded_binding :: "externals \<Rightarrow> key_id \<times> lookup_state \<Rightarrow> bytes \<times> (bytes \<times> u32 option) option" where
  "encoded_binding X = (\<lambda>(i, state). (i, encoded_state X state))"

definition state_encodes :: "externals \<Rightarrow> key_id \<times> lookup_state \<Rightarrow> bool" where
  "state_encodes X = (\<lambda>(i, state).
     case state of Present e l \<Rightarrow> entry_to_xdr X e \<noteq> None | Absent \<Rightarrow> True)"

lemma encode_state_Inr:
  "encode_state X st = Inr bs \<longleftrightarrow> state_encodes X (i, st) \<and> bs = enc_state (encoded_state X st)"
  by (cases st) (auto simp: encode_state_def state_encodes_def encoded_state_def)

lemma inventory_preimage_Inr:
  "inventory_preimage X cov = Inr pre \<longleftrightarrow>
     list_all (state_encodes X) cov \<and>
     pre = inventory_digest_domain_v1 @ be64 (len64 cov) @
       concat (map enc_binding (map (encoded_binding X) cov))"
proof -
  let ?enc = "\<lambda>(key, state). and_then (encode_state X state) (\<lambda>bs. Inr (digest_field key @ bs))"
  have "?enc b = Inr bs \<longleftrightarrow> state_encodes X b \<and> bs = enc_binding (encoded_binding X b)" for b bs
    by (cases b) (auto simp: encode_state_Inr [of _ _ _ "fst b"] enc_binding_def encoded_binding_def)
  then have "try_map ?enc cov = Inr parts \<longleftrightarrow>
      list_all (state_encodes X) cov \<and> parts = map enc_binding (map (encoded_binding X) cov)" for parts
    by (induction cov arbitrary: parts) (auto simp del: and_then_Inr simp: and_then_Inr [of "?enc _"] and_then_Inr [of "try_map _ _"])
  then show ?thesis by (auto simp: inventory_preimage_def)
qed

lemma encoded_binding_inj:
  assumes "xdr_laws X" and "state_encodes X a" and "state_encodes X b"
    and "encoded_binding X a = encoded_binding X b"
  shows "a = b"
  using assms(2-) entry_to_xdr_inject [OF assms(1)]
  by (cases a; cases b)
    (auto simp: encoded_binding_def encoded_state_def state_encodes_def split: lookup_state.splits)

lemma encoded_bindings_inject:
  assumes "xdr_laws X" and "list_all (state_encodes X) c" and "list_all (state_encodes X) d"
    and "map (encoded_binding X) c = map (encoded_binding X) d"
  shows "c = d"
  using assms(4,2,3)
proof (induction c arbitrary: d)
  case (Cons b c)
  then show ?case using encoded_binding_inj [OF assms(1)] by (cases d) auto
qed simp

definition coverage_fits :: "externals \<Rightarrow> coverage \<Rightarrow> bool" where
  "coverage_fits X cov \<longleftrightarrow> fits_usize cov \<and> list_all binding_fits (map (encoded_binding X) cov)"

lemma inventory_preimage_inject:
  assumes "xdr_laws X" and "inventory_preimage X c = Inr pre" and "inventory_preimage X d = Inr pre"
    and "coverage_fits X c" and "coverage_fits X d"
  shows "c = d"
proof -
  let ?e = "\<lambda>c. map (encoded_binding X) c"
  from assms(2,3) have "be64 (len64 c) @ concat (map enc_binding (?e c)) =
      be64 (len64 d) @ concat (map enc_binding (?e d))"
    by (simp add: inventory_preimage_Inr)
  then have eq: "len64 c = len64 d" "concat (map enc_binding (?e c)) = concat (map enc_binding (?e d))"
    by (blast dest: u64_frame.unframe [OF TrueI TrueI])+
  then have "?e c = ?e d"
    using binding_frame.unframe_list [of "?e c" "?e d" "[]" "[]"] assms(4,5)
    by (simp add: coverage_fits_def)
  then show ?thesis
    using assms(1-3) by (auto simp: inventory_preimage_Inr intro: encoded_bindings_inject)
qed

subsection \<open>Properties\<close>

text \<open>
  What a batch from the RPC is accepted for: exactly when every requested key encodes,
  every returned entry sits under one of the requested keys and no two under the same; the
  result then holds exactly the returned entries, each under the id derived from it.
\<close>

theorem batch_accepted_exactly:
  "validate_batch X requested entries = Inr ret \<longleftrightarrow>
     (\<exists>ids. map (key_to_xdr X) requested = map Some ids \<and>
        list_all (\<lambda>f. entry_id X f \<in> Some ` set ids) entries) \<and>
     distinct (map (entry_id X) entries) \<and>
     bm_ok ret \<and> set ret = set (map (entry_binding X) entries)"
proof
  assume ok: "validate_batch X requested entries = Inr ret"
  then have "entry_id X f \<noteq> None" if "f \<in> set entries" for f
    using that by (auto simp: validate_batch_Inr)
  then have "set ret = set (map (entry_binding X) entries)"
    using validate_batch_get [OF ok]
    by (auto simp: bm_get_mem [symmetric] entry_binding_def image_iff)
  with ok show "(\<exists>ids. map (key_to_xdr X) requested = map Some ids \<and>
        list_all (\<lambda>f. entry_id X f \<in> Some ` set ids) entries) \<and>
     distinct (map (entry_id X) entries) \<and>
     bm_ok ret \<and> set ret = set (map (entry_binding X) entries)"
    using validate_batch_get(1) [OF ok] by (auto simp: validate_batch_Inr list_all_iff in_Some_image)
next
  assume rhs: "(\<exists>ids. map (key_to_xdr X) requested = map Some ids \<and>
        list_all (\<lambda>f. entry_id X f \<in> Some ` set ids) entries) \<and>
     distinct (map (entry_id X) entries) \<and>
     bm_ok ret \<and> set ret = set (map (entry_binding X) entries)"
  then have ok: "validate_batch X requested entries = Inr (bm_of_list (map (entry_binding X) entries))"
    by (auto simp: validate_batch_Inr list_all_iff in_Some_image)
  then have "entry_id X f \<noteq> None" if "f \<in> set entries" for f
    using that by (auto simp: validate_batch_Inr)
  then have "set (bm_of_list (map (entry_binding X) entries)) = set ret"
    using validate_batch_get [OF ok] rhs
    by (auto simp: bm_get_mem [symmetric] entry_binding_def image_iff)
  then show "validate_batch X requested entries = Inr ret"
    using ok rhs by (metis bm_set_ext bm_of_list_ok)
qed

text \<open>
  When captured state is valid: each present entry sits under its own key, contract code
  hashes to its key, the last-modified ledger is not in the future and the TTL is one the
  ledger can hold: none for accounts and trustlines; for contract entries within the window of
  \<open>max_entry_ttl\<close> ledgers from the captured one, where zero (archived) is accepted for
  persistent entries and code only. The window's end is computed without wrap-around.
\<close>

theorem coverage_valid_exactly:
  "validate_coverage X cov s m = Inr u \<longleftrightarrow>
     list_all (\<lambda>(i, state). case state of
         Absent \<Rightarrow> True
       | Present e live_until \<Rightarrow>
           key_to_xdr X (to_key X e) = Some i \<and>
           unat (le_last_modified e) \<le> unat s \<and> 0 < unat m \<and> unat s + unat m \<le> 2 ^ 32 \<and>
           (case le_data e of
              Data_ContractCode c \<Rightarrow> cc_hash c = sha256 X (cc_code c) \<and>
                (\<exists>ttl. live_until = Some ttl \<and> (ttl = 0 \<or> live_window s m ttl))
            | Data_ContractData d \<Rightarrow> \<exists>ttl. live_until = Some ttl \<and>
                (cd_durability d = Persistent \<and> ttl = 0 \<or> live_window s m ttl)
            | Data_Account a \<Rightarrow> live_until = None
            | Data_Trustline t \<Rightarrow> live_until = None
            | _ \<Rightarrow> False)) cov"
  unfolding validate_coverage_Inr
  by (rule list.pred_cong [OF refl])
    (simp add: state_valid_Present state_valid_Absent split: prod.split lookup_state.split)

text \<open>
  The closure check accepts exactly the coverage in which every captured contract
  instance can run: its code is captured, reached directly or through a captured executable
  reference holding a 32-byte hash, or it is the built-in asset contract.
\<close>

theorem closure_checked_exactly:
  "ensure_executable_closure_present X cov = Inr u \<longleftrightarrow>
     list_all (\<lambda>(i, state). case instance_of state of
         None \<Rightarrow> True
       | Some inst \<Rightarrow>
           (case executable inst of
              StellarAsset \<Rightarrow> True
            | Wasm h \<Rightarrow> code_present X cov h
            | ExternalRef r \<Rightarrow> \<exists>h. ref_target X cov r h \<and> code_present X cov h)) cov"
  unfolding ensure_executable_closure_Inr
  by (rule list.pred_cong [OF refl])
    (auto simp: closed_binding_def instance_closed_def split: option.split)

text \<open>
  The inventory digest binds the captured state: two coverage maps with one digest are
  equal, absences, entries and TTLs included, unless SHA-256 collides on exactly the two byte
  strings hashed for them.
\<close>

theorem inventory_digest_binds:
  assumes "xdr_laws X" and "coverage_fits X c" and "coverage_fits X d"
    and "inventory_preimage X c = Inr p" and "inventory_preimage X d = Inr q"
    and "inj_on (sha256 X) {p, q}"
    and "inventory_digest X c = inventory_digest X d"
  shows "c = d"
proof -
  have "sha256 X p = sha256 X q" using assms(4,5,7) by (simp add: inventory_digest_def)
  then have "p = q" by (rule inj_onD [OF assms(6)]) simp_all
  then have "inventory_preimage X d = Inr p" using assms(5) by simp
  then show ?thesis by (rule inventory_preimage_inject [OF assms(1,4) _ assms(2,3)])
qed

definition sample_coverage :: coverage where
  "sample_coverage =
     [(6 # replicate 32 9, Absent),
      (7 # sample_sha256 [1], Present (sample_code_entry 1) (Some 12)),
      (7 # sample_sha256 [2], Present (sample_code_entry 2) (Some 20))]"

theorem inventory_digest_binds_witness:
  "\<exists>p. inventory_preimage sample_X sample_coverage = Inr p \<and>
     inventory_preimage sample_X (bm_insert (6 # replicate 32 9) Absent sample_coverage) = Inr p \<and>
     bm_insert (6 # replicate 32 9) Absent sample_coverage = sample_coverage"
proof -
  let ?d = "bm_insert (6 # replicate 32 9) Absent sample_coverage"
  have same: "?d = sample_coverage" by (simp add: sample_coverage_def)
  have fits: "coverage_fits sample_X sample_coverage"
    by (simp add: coverage_fits_def sample_coverage_def fits_usize_def binding_fits_def
        encoded_binding_def encoded_state_def)
  obtain p where p: "inventory_preimage sample_X sample_coverage = Inr p"
    by (auto simp: inventory_preimage_Inr sample_coverage_def state_encodes_def)
  have "?d = sample_coverage"
    using inventory_digest_binds [OF sample_xdr_laws, of ?d sample_coverage p p]
    by (simp only: same fits p)
  with p show ?thesis by simp
qed

end
