(* ===== verification/Snapshot_Sources.thy ===== *)
theory Snapshot_Sources
  imports Coverage
begin

text \<open>
  What the Host reads ledger entries from: \<open>LocalLedger\<close> and \<open>TrackingSource\<close> of
  \<open>src/capture.rs\<close> (with a transport while capturing, without one while replaying) and
  \<open>StrictSource\<close> of \<open>src/strict.rs\<close>. The Host with the scenario it runs is not the program's
  code: it is a value of type \<open>script\<close>, a terminating computation that reads keys, marks
  state as local and asks the source for its counters, in any order and depending on every
  answer. \<open>follow\<close> is the specification: the run of a script against fixed coverage. The
  locale \<open>snapshot_source\<close> says what a source owes it, and each source is shown to be one.
\<close>

subsection \<open>Local state\<close>

record local_ledger =
  ll_addresses :: "sc_address set"
  ll_code_hashes :: "hash set"

definition local_empty :: local_ledger where
  "local_empty = \<lparr> ll_addresses = {}, ll_code_hashes = {} \<rparr>"

definition mark_address :: "sc_address \<Rightarrow> local_ledger \<Rightarrow> local_ledger" where
  "mark_address a l = l\<lparr>ll_addresses := insert a (ll_addresses l)\<rparr>"

definition mark_code :: "hash \<Rightarrow> local_ledger \<Rightarrow> local_ledger" where
  "mark_code h l = l\<lparr>ll_code_hashes := insert h (ll_code_hashes l)\<rparr>"

definition owns :: "local_ledger \<Rightarrow> ledger_key \<Rightarrow> bool" where
  "owns l key =
     (case key of
        Key_ContractCode h \<Rightarrow> h \<in> ll_code_hashes l
      | Key_ContractData d \<Rightarrow> kd_contract d \<in> ll_addresses l
      | Key_Account a \<Rightarrow> ScAddress_Account a \<in> ll_addresses l
      | Key_Trustline a asset \<Rightarrow> ScAddress_Account a \<in> ll_addresses l
      | _ \<Rightarrow> False)"

subsection \<open>The tracking source\<close>

datatype host_error = Host_Storage_Internal

type_synonym present_entry = "ledger_entry \<times> u32 option"

definition present_of :: "lookup_state \<Rightarrow> present_entry option" where
  "present_of state = (case state of Present e l \<Rightarrow> Some (e, l) | Absent \<Rightarrow> None)"

record tracking_source =
  ts_cache :: coverage
  ts_requested :: "(key_id, ledger_key) bmap"
  ts_unknown :: "key_id set"
  ts_network_protocol_version :: u32
  ts_rpc_reads :: nat
  ts_failure :: "string option"

definition tracking_source_new :: "coverage \<Rightarrow> u32 \<Rightarrow> tracking_source" where
  "tracking_source_new cache network_protocol =
     \<lparr> ts_cache = cache, ts_requested = [], ts_unknown = {},
       ts_network_protocol_version = network_protocol, ts_rpc_reads = 0, ts_failure = None \<rparr>"

definition tracking_fetch ::
  "externals \<Rightarrow> 'w transport \<Rightarrow> key_id \<Rightarrow> ledger_key
    \<Rightarrow> (tracking_source \<times> 'w, host_error, present_entry option) act" where
  "tracking_fetch X tr i key = (\<lambda>(s, w).
     case tr_ledger_entries tr [key] w of
       (Inl operation, w') \<Rightarrow> (Inl Host_Storage_Internal, (s\<lparr>ts_failure := Some operation\<rparr>, w'))
     | (Inr batch, w') \<Rightarrow>
         (case validate_batch X [key] (eb_entries batch) of
            Inl e \<Rightarrow> (Inl Host_Storage_Internal, (s\<lparr>ts_failure := Some ''getLedgerEntries''\<rparr>, w'))
          | Inr returned \<Rightarrow>
              let state = state_of (bm_get returned i) in
              (Inr (present_of state), (s\<lparr>ts_cache := bm_insert i state (ts_cache s)\<rparr>, w'))))"

definition tracking_get ::
  "externals \<Rightarrow> 'w transport option \<Rightarrow> local_ledger \<Rightarrow> ledger_key
    \<Rightarrow> (tracking_source \<times> 'w, host_error, present_entry option) act" where
  "tracking_get X transport local key = (\<lambda>(s, w).
     if ts_failure s \<noteq> None then (Inl Host_Storage_Internal, (s, w))
     else case key_id X key of
       Inl e \<Rightarrow> (Inl Host_Storage_Internal, (s\<lparr>ts_failure := Some ''ledger-key-encode''\<rparr>, w))
     | Inr i \<Rightarrow>
         (if owns local key then (Inr None, (s, w))
          else
            let s = s\<lparr>ts_requested := bm_insert i key (ts_requested s)\<rparr> in
            case bm_get (ts_cache s) i of
              Some state \<Rightarrow> (Inr (present_of state), (s, w))
            | None \<Rightarrow>
                (case transport of
                   None \<Rightarrow> (Inl Host_Storage_Internal, (s\<lparr>ts_unknown := insert i (ts_unknown s)\<rparr>, w))
                 | Some tr \<Rightarrow> tracking_fetch X tr i key (s\<lparr>ts_rpc_reads := ts_rpc_reads s + 1\<rparr>, w))))"

definition observe ::
  "externals \<Rightarrow> 'w transport option \<Rightarrow> local_ledger \<Rightarrow> ledger_key
    \<Rightarrow> (tracking_source \<times> 'w, host_error, unit) act" where
  "observe X transport local key = sbind (tracking_get X transport local key) (\<lambda>_. sret ())"

definition take_failure :: "tracking_source \<Rightarrow> string option \<times> tracking_source" where
  "take_failure s = (ts_failure s, s\<lparr>ts_failure := None\<rparr>)"

subsection \<open>The strict source\<close>

record strict_source =
  ss_coverage :: coverage
  ss_local_contracts :: "sc_address set"
  ss_local_code_hashes :: "hash set"
  ss_allow_mock_nonces :: bool
  ss_unknown :: "key_id set"

definition is_local_key :: "ledger_key \<Rightarrow> sc_address set \<Rightarrow> hash set \<Rightarrow> bool \<Rightarrow> bool" where
  "is_local_key key local_contracts local_code_hashes allow_mock_nonces =
     (case key of
        Key_ContractData d \<Rightarrow> kd_contract d \<in> local_contracts \<or> (allow_mock_nonces \<and> is_nonce_data d)
      | Key_ContractCode h \<Rightarrow> h \<in> local_code_hashes
      | _ \<Rightarrow> False)"

definition strict_get ::
  "externals \<Rightarrow> ledger_key \<Rightarrow> strict_source \<Rightarrow> (host_error + present_entry option) \<times> strict_source" where
  "strict_get X key s =
     (case key_to_xdr X key of
        None \<Rightarrow> (Inl Host_Storage_Internal, s)
      | Some i \<Rightarrow>
          (case bm_get (ss_coverage s) i of
             Some state \<Rightarrow> (Inr (present_of state), s)
           | None \<Rightarrow>
               (if is_local_key key (ss_local_contracts s) (ss_local_code_hashes s) (ss_allow_mock_nonces s)
                then (Inr None, s)
                else (Inr None, s\<lparr>ss_unknown := insert i (ss_unknown s)\<rparr>))))"

subsection \<open>Scripts\<close>

text \<open>
  What runs against a source: the Host executing a scenario or an invocation. \<open>Done\<close> carries
  the result; that of a scenario is an \<open>outcome\<close>: what the closure returned (\<open>None\<close> when it
  panicked) and the keys of \<open>env.host().get_stored_entries()\<close> afterwards (\<open>None\<close> when that
  inspection fails). \<open>Ask\<close> reads the source's counters (\<open>rpc_reads\<close>, \<open>unknown_keys\<close>).
\<close>

record 'r outcome =
  oc_value :: "'r option"
  oc_stored :: "ledger_key list option"

datatype local_mark = Mark_Address sc_address | Mark_Code hash

type_synonym answer = "host_error + present_entry option"
type_synonym counters = "nat \<times> key_id set"

datatype 'o script =
    Done 'o
  | Get ledger_key "answer \<Rightarrow> 'o script"
  | Mark local_mark "'o script"
  | Ask "counters \<Rightarrow> 'o script"

primrec run_script ::
  "(ledger_key \<Rightarrow> 's \<Rightarrow> answer \<times> 's) \<Rightarrow> (local_mark \<Rightarrow> 's \<Rightarrow> 's) \<Rightarrow> ('s \<Rightarrow> counters)
    \<Rightarrow> 'o script \<Rightarrow> 's \<Rightarrow> 'o \<times> 's" where
  "run_script get mark tally (Done out) s = (out, s)"
| "run_script get mark tally (Get key k) s =
     (case get key s of (answer, s') \<Rightarrow> run_script get mark tally (k answer) s')"
| "run_script get mark tally (Mark m p) s = run_script get mark tally p (mark m s)"
| "run_script get mark tally (Ask k) s = run_script get mark tally (k (tally s)) s"

lemma run_map_script:
  "run_script get mark tally (map_script f p) s = map_prod f id (run_script get mark tally p s)"
  by (induction p arbitrary: s) (auto split: prod.split)

text \<open>
  The specification. \<open>serve\<close> answers from a fixed view or not at all; a script that never asks
  beyond the view has one run, in which the counters stay at zero.
\<close>

primrec follow ::
  "('v \<Rightarrow> ledger_key \<Rightarrow> answer option) \<Rightarrow> (local_mark \<Rightarrow> 'v \<Rightarrow> 'v) \<Rightarrow> 'o script \<Rightarrow> 'v
    \<Rightarrow> ('o \<times> 'v) option" where
  "follow serve mark (Done out) v = Some (out, v)"
| "follow serve mark (Get key k) v =
     (case serve v key of None \<Rightarrow> None | Some answer \<Rightarrow> follow serve mark (k answer) v)"
| "follow serve mark (Mark m p) v = follow serve mark p (mark m v)"
| "follow serve mark (Ask k) v = follow serve mark (k (0, {})) v"

lemma follow_map_script:
  "follow serve mark (map_script f p) v = map_option (map_prod f id) (follow serve mark p v)"
  by (induction p arbitrary: v) (auto split: option.split)

locale snapshot_source =
  fixes get :: "ledger_key \<Rightarrow> 's \<Rightarrow> answer \<times> 's"
    and mark :: "local_mark \<Rightarrow> 's \<Rightarrow> 's"
    and tally :: "'s \<Rightarrow> counters"
    and calm :: "'s \<Rightarrow> bool"
    and view :: "'s \<Rightarrow> 'v"
    and serve :: "'v \<Rightarrow> ledger_key \<Rightarrow> answer option"
    and vmark :: "local_mark \<Rightarrow> 'v \<Rightarrow> 'v"
  assumes served: "calm s \<Longrightarrow> serve (view s) key = Some answer \<Longrightarrow>
      \<exists>s'. get key s = (answer, s') \<and> calm s' \<and> view s' = view s"
    and alarm: "serve (view s) key = None \<Longrightarrow> get key s = (answer, s') \<Longrightarrow> \<not> calm s'"
    and sticky: "\<not> calm s \<Longrightarrow> get key s = (answer, s') \<Longrightarrow> \<not> calm s'"
    and calm_mark: "calm (mark m s) \<longleftrightarrow> calm s"
    and view_mark: "view (mark m s) = vmark m (view s)"
    and calm_tally: "calm s \<Longrightarrow> tally s = (0, {})"
begin

lemma run_stays_loud:
  "\<not> calm s \<Longrightarrow> run_script get mark tally p s = (out, s') \<Longrightarrow> \<not> calm s'"
proof (induction p arbitrary: s)
  case (Get key k)
  obtain answer t where g: "get key s = (answer, t)" by (metis prod.exhaust)
  then have "\<not> calm t" by (rule sticky [OF Get.prems(1)])
  then show ?case using Get.IH [of "k answer" t] Get.prems(2) by (simp add: g)
next
  case (Mark m p)
  then show ?case using Mark.IH [of "mark m s"] by (simp add: calm_mark)
qed auto

lemma run_follows:
  "calm s \<Longrightarrow> follow serve vmark p (view s) = Some (out, v) \<Longrightarrow>
     \<exists>s'. run_script get mark tally p s = (out, s') \<and> calm s' \<and> view s' = v"
proof (induction p arbitrary: s)
  case (Get key k)
  then obtain answer where a: "serve (view s) key = Some answer"
    and f: "follow serve vmark (k answer) (view s) = Some (out, v)"
    by (auto split: option.splits)
  obtain t where t: "get key s = (answer, t)" "calm t" "view t = view s"
    using served [OF Get.prems(1) a] by blast
  then show ?case using Get.IH [of "k answer" t] f by simp
qed (auto simp: calm_mark view_mark calm_tally)

lemma calm_run:
  "run_script get mark tally p s = (out, s') \<Longrightarrow> calm s' \<Longrightarrow>
     calm s \<and> follow serve vmark p (view s) = Some (out, view s')"
proof (induction p arbitrary: s)
  case (Get key k)
  obtain answer t where t: "get key s = (answer, t)" by (metis prod.exhaust)
  then have run: "run_script get mark tally (k answer) t = (out, s')" using Get.prems(1) by simp
  then have IH: "calm t" "follow serve vmark (k answer) (view t) = Some (out, view s')"
    using Get.IH [of "k answer" t] Get.prems(2) by simp_all
  have s: "calm s" using sticky t IH(1) by blast
  obtain a where a: "serve (view s) key = Some a" using alarm t IH(1) by fastforce
  then have "a = answer" "view t = view s" using served [OF s a] t by auto
  then show ?case using s a IH by simp
next
  case (Ask k)
  then show ?case using calm_tally run_stays_loud by (metis follow.simps(4) run_script.simps(4) rangeI)
next
  case (Mark m p)
  then show ?case using Mark.IH [of "mark m s"] by (simp add: calm_mark view_mark)
qed auto

text \<open>A run that ends calm is the specified one, and the specified one ends calm.\<close>

lemma calm_run_iff:
  assumes "calm s"
  shows "follow serve vmark p (view s) = Some (out, v) \<longleftrightarrow>
    (\<exists>s'. run_script get mark tally p s = (out, s') \<and> calm s' \<and> view s' = v)"
  using run_follows [OF assms, of p out v] calm_run [of p s out] by blast

end

subsection \<open>The tracking source is a snapshot source\<close>

type_synonym 'w tracking_world = "local_ledger \<times> tracking_source \<times> 'w"

definition mark_local :: "local_mark \<Rightarrow> local_ledger \<Rightarrow> local_ledger" where
  "mark_local m l = (case m of Mark_Address a \<Rightarrow> mark_address a l | Mark_Code h \<Rightarrow> mark_code h l)"

definition world_get ::
  "externals \<Rightarrow> 'w transport option \<Rightarrow> ledger_key \<Rightarrow> 'w tracking_world \<Rightarrow> answer \<times> 'w tracking_world" where
  "world_get X transport key = (\<lambda>(local, s).
     case tracking_get X transport local key s of (answer, s') \<Rightarrow> (answer, (local, s')))"

definition world_mark :: "local_mark \<Rightarrow> 'w tracking_world \<Rightarrow> 'w tracking_world" where
  "world_mark m = (\<lambda>(local, s). (mark_local m local, s))"

definition world_count :: "'w tracking_world \<Rightarrow> counters" where
  "world_count = (\<lambda>(local, s, w). (ts_rpc_reads s, ts_unknown s))"

definition run_tracking ::
  "externals \<Rightarrow> 'w transport option \<Rightarrow> 'o script \<Rightarrow> 'w tracking_world \<Rightarrow> 'o \<times> 'w tracking_world" where
  "run_tracking X transport = run_script (world_get X transport) world_mark world_count"

type_synonym 'w tracking_view = "local_ledger \<times> coverage \<times> 'w"

definition tracking_calm :: "'w tracking_world \<Rightarrow> bool" where
  "tracking_calm = (\<lambda>(local, s, w). ts_failure s = None \<and> ts_unknown s = {} \<and> ts_rpc_reads s = 0)"

definition tracking_view :: "'w tracking_world \<Rightarrow> 'w tracking_view" where
  "tracking_view = (\<lambda>(local, s, w). (local, ts_cache s, w))"

definition tracking_serve :: "externals \<Rightarrow> 'w tracking_view \<Rightarrow> ledger_key \<Rightarrow> answer option" where
  "tracking_serve X = (\<lambda>(local, cov, w) key.
     case key_to_xdr X key of
       None \<Rightarrow> None
     | Some i \<Rightarrow>
         (if owns local key then Some (Inr None)
          else map_option (\<lambda>state. Inr (present_of state)) (bm_get cov i)))"

definition view_mark_local :: "local_mark \<Rightarrow> 'w tracking_view \<Rightarrow> 'w tracking_view" where
  "view_mark_local m = (\<lambda>(local, v). (mark_local m local, v))"

interpretation tracking: snapshot_source "world_get X transport" world_mark world_count
  tracking_calm tracking_view "tracking_serve X" view_mark_local
  for X :: externals and transport :: "'w transport option"
proof unfold_locales
  fix s :: "'w tracking_world" and key answer
  assume "tracking_calm s" "tracking_serve X (tracking_view s) key = Some answer"
  then show "\<exists>s'. world_get X transport key s = (answer, s') \<and> tracking_calm s' \<and>
      tracking_view s' = tracking_view s"
    by (auto simp: tracking_calm_def tracking_view_def tracking_serve_def world_get_def
        tracking_get_def key_id_def Let_def split: option.splits if_splits)
next
  fix s s' :: "'w tracking_world" and key answer
  assume "tracking_serve X (tracking_view s) key = None" "world_get X transport key s = (answer, s')"
  then show "\<not> tracking_calm s'"
    by (auto simp: tracking_calm_def tracking_view_def tracking_serve_def world_get_def
        tracking_get_def tracking_fetch_def key_id_def Let_def
        split: option.splits if_splits prod.splits sum.splits)
next
  fix s s' :: "'w tracking_world" and key answer
  assume "\<not> tracking_calm s" "world_get X transport key s = (answer, s')"
  then show "\<not> tracking_calm s'"
    by (auto simp: tracking_calm_def world_get_def
        tracking_get_def tracking_fetch_def key_id_def Let_def
        split: option.splits if_splits prod.splits sum.splits)
qed (auto simp: tracking_calm_def tracking_view_def world_mark_def view_mark_local_def world_count_def)

end
