(* ===== verification/Rate_Limit.thy ===== *)
theory Rate_Limit
  imports Errors
begin

text \<open>
  \<open>RequestRateLimiter\<close> and \<open>request_interval\<close> of \<open>src/capture.rs\<close>. A \<open>Duration\<close> is its number
  of nanoseconds and an \<open>Instant\<close> the nanoseconds since an arbitrary origin. A request that
  asks at \<open>now\<close> and sleeps for the reserved delay is sent at \<open>now + delay\<close>; the lemmas show
  that these times are an interval apart, hence that no second holds more requests than asked.
\<close>

record rate_limiter =
  rl_min_interval :: nat
  rl_next_request :: "nat option"

definition second :: nat where
  "second = 1000000000"

definition request_interval :: "u32 \<Rightarrow> nat" where
  "request_interval max_requests_per_second =
     (if max_requests_per_second = 0 then 0
      else (second + unat max_requests_per_second - 1) div unat max_requests_per_second)"

definition rate_limiter_new :: "u32 \<Rightarrow> rate_limiter" where
  "rate_limiter_new max_requests_per_second =
     \<lparr> rl_min_interval = request_interval max_requests_per_second, rl_next_request = None \<rparr>"

definition set_requests_per_second :: "u32 \<Rightarrow> rate_limiter \<Rightarrow> rate_limiter" where
  "set_requests_per_second max_requests_per_second limiter =
     limiter\<lparr> rl_min_interval := request_interval max_requests_per_second,
       rl_next_request := None \<rparr>"

definition reserve_delay :: "nat \<Rightarrow> rate_limiter \<Rightarrow> nat \<times> rate_limiter" where
  "reserve_delay now limiter =
     (let interval = rl_min_interval limiter in
      if interval = 0 then (0, limiter\<lparr>rl_next_request := None\<rparr>)
      else case rl_next_request limiter of
        None \<Rightarrow> (0, limiter\<lparr>rl_next_request := Some (now + interval)\<rparr>)
      | Some next_request \<Rightarrow>
          (if next_request \<le> now then (0, limiter\<lparr>rl_next_request := Some (now + interval)\<rparr>)
           else (next_request - now, limiter\<lparr>rl_next_request := Some (next_request + interval)\<rparr>)))"

text \<open>The times at which requests asking at the given times are sent.\<close>

fun send_times :: "rate_limiter \<Rightarrow> nat list \<Rightarrow> nat list" where
  "send_times limiter [] = []"
| "send_times limiter (now # nows) =
     (let (delay, limiter') = reserve_delay now limiter in (now + delay) # send_times limiter' nows)"

definition apart :: "nat \<Rightarrow> nat list \<Rightarrow> bool" where
  "apart d ts = sorted_wrt (\<lambda>s t. s + d \<le> t) ts"

lemma reserve_delay_cases:
  assumes "reserve_delay now limiter = (delay, limiter')"
  shows "rl_min_interval limiter' = rl_min_interval limiter"
    and "0 < rl_min_interval limiter \<Longrightarrow>
      rl_next_request limiter' = Some (now + delay + rl_min_interval limiter) \<and>
      now + delay = (case rl_next_request limiter of None \<Rightarrow> now | Some n \<Rightarrow> max now n)"
    and "rl_min_interval limiter = 0 \<Longrightarrow> delay = 0"
  using assms
  by (auto simp: reserve_delay_def Let_def split: if_splits option.splits)

lemma send_times_after:
  assumes "0 < rl_min_interval limiter" and "rl_next_request limiter = Some n"
  shows "list_all (\<lambda>t. n \<le> t) (send_times limiter nows) \<and>
    apart (rl_min_interval limiter) (send_times limiter nows)"
  using assms
proof (induction nows arbitrary: limiter n)
  case (Cons now nows)
  obtain delay limiter' where r: "reserve_delay now limiter = (delay, limiter')" by (metis prod.exhaust)
  note c = reserve_delay_cases [OF r]
  have n: "n \<le> now + delay" using c(2) Cons.prems by simp
  have rest: "list_all (\<lambda>t. now + delay + rl_min_interval limiter \<le> t) (send_times limiter' nows)"
      "apart (rl_min_interval limiter) (send_times limiter' nows)"
    using Cons.IH [of limiter'] c(1,2) Cons.prems by simp_all
  then have "list_all (\<lambda>t. n \<le> t) (send_times limiter' nows)"
    using n by (auto simp: list_all_iff)
  then show ?case using n rest by (simp add: r apart_def list_all_iff)
qed (simp_all add: apart_def)

lemma send_times_apart:
  assumes "0 < rl_min_interval limiter"
  shows "apart (rl_min_interval limiter) (send_times limiter nows)"
proof (cases nows)
  case (Cons now nows')
  obtain delay limiter' where r: "reserve_delay now limiter = (delay, limiter')" by (metis prod.exhaust)
  note c = reserve_delay_cases [OF r]
  show ?thesis
    using send_times_after [of limiter'] c(1,2) assms
    by (auto simp: Cons r apart_def list_all_iff)
qed (simp add: apart_def)

lemma apart_span:
  "ts \<noteq> [] \<Longrightarrow> apart d ts \<Longrightarrow> hd ts + (length ts - 1) * d \<le> last ts"
proof (induction ts rule: rev_nonempty_induct)
  case (snoc t ts)
  then have IH: "hd ts + (length ts - 1) * d \<le> last ts" and step: "last ts + d \<le> t"
    by (auto simp: apart_def sorted_wrt_append)
  have "length ts * d = (length ts - 1) * d + d"
    using snoc.hyps by (cases ts) auto
  then show ?case using IH step snoc.hyps by simp
qed simp

lemma apart_filter: "apart d ts \<Longrightarrow> apart d (filter P ts)"
  by (simp add: apart_def sorted_wrt_filter)

lemma request_interval_covers:
  "0 < unat n \<Longrightarrow> second \<le> unat n * request_interval n"
proof -
  assume n: "0 < unat n"
  have "second + unat n - 1 < (second + unat n - 1) div unat n * unat n + unat n"
    using n mod_less_divisor [OF n, of "second + unat n - 1"] div_mult_mod_eq [of "second + unat n - 1" "unat n"] by linarith
  then show ?thesis using n by (auto simp: request_interval_def unat_gt_0 mult.commute)
qed

text \<open>
  C38. The rate limit: however the requests of a limiter set to \<open>n\<close> per second arrive, the
  limiter delays them so that no window of one second contains more than \<open>n\<close> of them.
\<close>

theorem rate_limit_respected:
  assumes "n \<noteq> 0"
  shows "length (filter (\<lambda>t. start \<le> t \<and> t < start + second)
      (send_times (rate_limiter_new n) nows)) \<le> unat n"
proof -
  define ts where "ts = filter (\<lambda>t. start \<le> t \<and> t < start + second)
      (send_times (rate_limiter_new n) nows)"
  have n: "0 < unat n" using assms by (simp add: unat_gt_0)
  then have "second \<le> unat n * request_interval n" by (rule request_interval_covers)
  then have d: "0 < request_interval n" by (cases "request_interval n") (auto simp: second_def)
  have apart: "apart (request_interval n) ts"
    using send_times_apart [of "rate_limiter_new n"] d
    by (simp add: ts_def rate_limiter_new_def apart_filter)
  have "length ts \<le> unat n"
  proof (rule ccontr)
    assume long: "\<not> length ts \<le> unat n"
    then have ne: "ts \<noteq> []" by auto
    then have "hd ts \<in> set ts" "last ts \<in> set ts" by simp_all
    then have "start \<le> hd ts" "last ts < start + second" by (auto simp: ts_def)
    moreover have "hd ts + (length ts - 1) * request_interval n \<le> last ts"
      using ne apart by (rule apart_span)
    moreover have "unat n * request_interval n \<le> (length ts - 1) * request_interval n"
      using long by (intro mult_le_mono1) simp
    ultimately show False using \<open>second \<le> unat n * request_interval n\<close> by linarith
  qed
  then show ?thesis by (simp add: ts_def)
qed

theorem rate_limit_respected_witness:
  "length (filter (\<lambda>t. 5 \<le> t \<and> t < 5 + second)
     (send_times (rate_limiter_new 2) [0, 1, 2, 3])) \<le> 2 \<and>
   send_times (rate_limiter_new 2) [0, 1, 2, 3] = [0, 500000000, 1000000000, 1500000000]"
proof -
  have "unat (2 :: u32) = 2" by simp
  then show ?thesis
    using rate_limit_respected [of 2 5 "[0, 1, 2, 3]"]
    by (simp add: rate_limiter_new_def request_interval_def second_def reserve_delay_def)
qed

end
