(* ===== verification/Rpc_Client.thy ===== *)
theory Rpc_Client
  imports Rate_Limit Effects Sample_Externals
begin

text \<open>
  The HTTP transport of \<open>src/capture.rs\<close>: \<open>HttpTransport\<close>, the retry loop around every
  read-only RPC request, the decoding of the three answers, and \<open>redact_rpc_origin\<close>. The HTTP
  agent (\<open>ureq\<close>), JSON decoding (\<open>serde_json\<close>), the clock and the remaining XDR decoders are
  the parameter \<open>H\<close>; the shared rate limiter is part of the transport's state.
\<close>

subsection \<open>Numbers in text\<close>

text \<open>\<open>str::trim\<close>: the UTF-8 encodings of the characters with the property \<open>White_Space\<close>.\<close>

definition white_space :: "nat list list" where
  "white_space =
     [[9], [10], [11], [12], [13], [32], [194, 133], [194, 160], [225, 154, 128]] @
     map (\<lambda>n. [226, 128, n]) ([128, 129, 130, 131, 132, 133, 134, 135, 136, 137, 138] @ [168, 169, 175]) @
     [[226, 129, 159], [227, 128, 128]]"

function strip_front :: "nat list list \<Rightarrow> string \<Rightarrow> string" where
  "strip_front ws s =
     (case find (\<lambda>w. w \<noteq> [] \<and> take (length w) (map of_char s) = w) ws of
        None \<Rightarrow> s
      | Some w \<Rightarrow> strip_front ws (drop (length w) s))"
  by pat_completeness auto
termination
proof (relation "measure (\<lambda>(ws, s). length s)")
  fix ws :: "nat list list" and s w
  assume "find (\<lambda>w. w \<noteq> [] \<and> take (length w) (map of_char s) = w) ws = Some w"
  then have "w \<noteq> [] \<and> take (length w) (map of_char s) = w" by (auto simp: find_Some_iff)
  then have "0 < length w" "s \<noteq> []" by auto
  then show "((ws, drop (length w) s), ws, s) \<in> measure (\<lambda>(ws, s). length s)" by simp
qed simp

declare strip_front.simps [simp del]

definition trim :: "string \<Rightarrow> string" where
  "trim s = rev (strip_front (map rev white_space) (rev (strip_front white_space s)))"

definition digit_value :: "char \<Rightarrow> nat option" where
  "digit_value c =
     (let n = (of_char c :: nat) in if 48 \<le> n \<and> n \<le> 57 then Some (n - 48) else None)"

fun digits_value :: "nat \<Rightarrow> string \<Rightarrow> nat option" where
  "digits_value acc [] = Some acc"
| "digits_value acc (c # s) =
     (case digit_value c of None \<Rightarrow> None | Some d \<Rightarrow> digits_value (10 * acc + d) s)"

text \<open>\<open>str::parse::<uN>\<close>: an optional plus sign, then digits, below the given bound.\<close>

definition parse_unsigned :: "nat \<Rightarrow> string \<Rightarrow> nat option" where
  "parse_unsigned bound s =
     (let ds = (case s of [] \<Rightarrow> [] | c # r \<Rightarrow> if of_char c = (43 :: nat) then r else s) in
      if ds = [] then None
      else case digits_value 0 ds of
        None \<Rightarrow> None
      | Some n \<Rightarrow> (if n < bound then Some n else None))"

definition parse_u64 :: "string \<Rightarrow> nat option" where
  "parse_u64 s = parse_unsigned (2 ^ 64) s"

subsection \<open>Retrying\<close>

datatype http_error = Http_Status u16 "string option" | Http_Other

definition rpc_retry_backoff :: "nat list" where
  "rpc_retry_backoff = [200000000, 400000000, 800000000]"

definition rpc_max_retry_after :: nat where
  "rpc_max_retry_after = 5 * second"

definition is_retryable_http_status :: "u16 \<Rightarrow> bool" where
  "is_retryable_http_status status \<longleftrightarrow>
     status = 429 \<or> status = 500 \<or> status = 502 \<or> status = 503 \<or> status = 504"

definition retry_delay :: "nat \<Rightarrow> string option \<Rightarrow> nat option" where
  "retry_delay backoff retry_after =
     (case retry_after of
        None \<Rightarrow> Some backoff
      | Some text \<Rightarrow>
          (case parse_u64 (trim text) of
             None \<Rightarrow> Some backoff
           | Some seconds \<Rightarrow>
               (if seconds * second > rpc_max_retry_after then None
                else Some (max backoff (seconds * second)))))"

function retry_loop ::
  "('w, http_error, 'resp) act \<Rightarrow> (nat \<Rightarrow> 'w \<Rightarrow> 'w) \<Rightarrow> nat \<Rightarrow> ('w, http_error, 'resp) act" where
  "retry_loop send sleep retry w =
     (case send w of
        (Inl (Http_Status status retry_after), w') \<Rightarrow>
          (if is_retryable_http_status status \<and> retry < length rpc_retry_backoff then
             (case retry_delay (rpc_retry_backoff ! retry) retry_after of
                None \<Rightarrow> (Inl (Http_Status status retry_after), w')
              | Some delay \<Rightarrow> retry_loop send sleep (retry + 1) (sleep delay w'))
           else (Inl (Http_Status status retry_after), w'))
      | result \<Rightarrow> result)"
  by pat_completeness auto
termination
  by (relation "measure (\<lambda>(send, sleep, retry, w). length rpc_retry_backoff - retry)") auto

declare retry_loop.simps [simp del]

definition send_read_rpc_with_retry ::
  "('w, http_error, 'resp) act \<Rightarrow> (nat \<Rightarrow> 'w \<Rightarrow> 'w) \<Rightarrow> ('w, http_error, 'resp) act" where
  "send_read_rpc_with_retry send sleep = retry_loop send sleep 0"

subsection \<open>The transport\<close>

record network_wire =
  nwi_passphrase :: string
  nwi_protocol_version :: u32

record latest_wire =
  lw_id :: string
  lw_protocol_version :: u32
  lw_sequence :: u32
  lw_close_time :: string
  lw_header_xdr :: string

record entry_wire =
  ew_key :: string
  ew_xdr :: string
  ew_last_modified :: u32
  ew_live_until :: "u32 option"
  ew_ext_xdr :: "string option"

record entries_wire =
  es_entries :: "entry_wire list option"
  es_latest_ledger :: u32

record 'a rpc_response =
  rr_result :: "'a option"
  rr_error :: bool

text \<open>The fields of \<open>LedgerHeader\<close> the program reads.\<close>

record ledger_header =
  lh_ledger_seq :: u32
  lh_close_time :: u64
  lh_base_reserve :: u32

datatype rpc_params = Params_None | Params_Keys "string list"

record ('w, 'resp) http_env =
  clock :: "'w \<Rightarrow> nat"
  sleep_for :: "nat \<Rightarrow> 'w \<Rightarrow> 'w"
  post :: "string \<Rightarrow> rpc_params \<Rightarrow> ('w, http_error, 'resp) act"
  json_network :: "'resp \<Rightarrow> network_wire rpc_response option"
  json_latest :: "'resp \<Rightarrow> latest_wire rpc_response option"
  json_entries :: "'resp \<Rightarrow> entries_wire rpc_response option"
  header_from_xdr :: "bytes \<Rightarrow> ledger_header option"
  data_from_xdr :: "bytes \<Rightarrow> ledger_entry_data option"
  ext_from_xdr :: "bytes \<Rightarrow> bytes option"

definition limiter_wait :: "('w, 'resp) http_env \<Rightarrow> rate_limiter \<times> 'w \<Rightarrow> rate_limiter \<times> 'w" where
  "limiter_wait H = (\<lambda>(limiter, w).
     let (delay, limiter') = reserve_delay (clock H w) limiter in
     (limiter', if delay = 0 then w else sleep_for H delay w))"

definition limited_post ::
  "('w, 'resp) http_env \<Rightarrow> string \<Rightarrow> rpc_params \<Rightarrow> (rate_limiter \<times> 'w, http_error, 'resp) act" where
  "limited_post H operation params lw =
     (case limiter_wait H lw of (limiter, w) \<Rightarrow>
        (case post H operation params w of (r, w') \<Rightarrow> (r, (limiter, w'))))"

definition http_rpc ::
  "('w, 'resp) http_env \<Rightarrow> ('resp \<Rightarrow> 'a rpc_response option) \<Rightarrow> string \<Rightarrow> rpc_params
    \<Rightarrow> (rate_limiter \<times> 'w, transport_failure, 'a) act" where
  "http_rpc H decode operation params =
     sbind (smap_err (\<lambda>_. operation)
         (send_read_rpc_with_retry (limited_post H operation params)
            (\<lambda>delay (limiter, w). (limiter, sleep_for H delay w))))
       (\<lambda>response. slift (and_then (ok_or operation (decode response)) (\<lambda>body.
          if rr_error body then Inl operation else ok_or operation (rr_result body))))"

definition http_network :: "('w, 'resp) http_env \<Rightarrow> (rate_limiter \<times> 'w, transport_failure, network) act" where
  "http_network H =
     sbind (http_rpc H (json_network H) ''getNetwork'' Params_None) (\<lambda>wire.
       sret \<lparr> nw_passphrase = nwi_passphrase wire, nw_protocol_version = nwi_protocol_version wire \<rparr>)"

definition decode_latest ::
  "externals \<Rightarrow> ('w, 'resp) http_env \<Rightarrow> latest_wire \<Rightarrow> transport_failure + anchor" where
  "decode_latest X H wire =
     (let operation = ''getLatestLedger'' in
      and_then (ok_or operation (b64_decode X (lw_header_xdr wire))) (\<lambda>bs.
      and_then (ok_or operation (header_from_xdr H bs)) (\<lambda>header.
      and_then (ok_or operation (parse_u64 (lw_close_time wire))) (\<lambda>timestamp.
        if lh_ledger_seq header \<noteq> lw_sequence wire
           \<or> unat (lh_close_time header) \<noteq> timestamp
           \<or> hex (sha256 X bs) \<noteq> lw_id wire
        then Inl operation
        else Inr \<lparr> an_sequence = lw_sequence wire, an_hash = lw_id wire,
               an_protocol_version = lw_protocol_version wire,
               an_timestamp = word_of_nat timestamp, an_base_reserve = lh_base_reserve header \<rparr>))))"

definition http_latest_ledger ::
  "externals \<Rightarrow> ('w, 'resp) http_env \<Rightarrow> (rate_limiter \<times> 'w, transport_failure, anchor) act" where
  "http_latest_ledger X H =
     sbind (http_rpc H (json_latest H) ''getLatestLedger'' Params_None) (\<lambda>wire.
       slift (decode_latest X H wire))"

definition decode_wire_entry ::
  "externals \<Rightarrow> ('w, 'resp) http_env \<Rightarrow> string \<Rightarrow> entry_wire \<Rightarrow> transport_failure + fetched_entry" where
  "decode_wire_entry X H operation wire =
     and_then (ok_or operation (b64_decode X (ew_key wire))) (\<lambda>key_bytes.
     and_then (ok_or operation (key_from_xdr X key_bytes)) (\<lambda>key.
     and_then (ok_or operation (b64_decode X (ew_xdr wire))) (\<lambda>entry_bytes.
     and_then (ok_or operation (data_from_xdr H entry_bytes)) (\<lambda>entry_data.
     and_then (ok_or operation (ew_ext_xdr wire)) (\<lambda>encoded.
     and_then (ok_or operation (b64_decode X encoded)) (\<lambda>ext_bytes.
     and_then (ok_or operation (ext_from_xdr H ext_bytes)) (\<lambda>ext.
       let entry = \<lparr> le_last_modified = ew_last_modified wire, le_data = entry_data, le_ext = ext \<rparr> in
       if to_key X entry \<noteq> key then Inl operation
       else Inr \<lparr> fe_entry = entry, fe_live_until = ew_live_until wire \<rparr>)))))))"

definition http_ledger_entries ::
  "externals \<Rightarrow> ('w, 'resp) http_env \<Rightarrow> ledger_key list
    \<Rightarrow> (rate_limiter \<times> 'w, transport_failure, entry_batch) act" where
  "http_ledger_entries X H keys =
     (let operation = ''getLedgerEntries'' in
      sbind (slift (try_map (\<lambda>key. and_then (ok_or operation (key_to_xdr X key))
          (\<lambda>xdr. Inr (b64_encode X xdr))) keys)) (\<lambda>encoded.
      sbind (http_rpc H (json_entries H) operation (Params_Keys encoded)) (\<lambda>wire.
      sbind (slift (try_map (decode_wire_entry X H operation)
          (case es_entries wire of None \<Rightarrow> [] | Some es \<Rightarrow> es))) (\<lambda>entries.
        sret \<lparr> eb_latest_ledger = es_latest_ledger wire, eb_entries = entries \<rparr>))))"

definition http_transport :: "externals \<Rightarrow> ('w, 'resp) http_env \<Rightarrow> (rate_limiter \<times> 'w) transport" where
  "http_transport X H = \<lparr> tr_network = http_network H,
     tr_latest_ledger = http_latest_ledger X H,
     tr_ledger_entries = http_ledger_entries X H \<rparr>"

subsection \<open>Redaction\<close>

fun split_once :: "string \<Rightarrow> string \<Rightarrow> (string \<times> string) option" where
  "split_once pat [] = (if pat = [] then Some ([], []) else None)"
| "split_once pat (c # s) =
     (if take (length pat) (c # s) = pat then Some ([], drop (length pat) (c # s))
      else map_option (\<lambda>(a, b). (c # a, b)) (split_once pat s))"

definition redact_rpc_origin :: "string \<Rightarrow> capture_error + string" where
  "redact_rpc_origin raw =
     (case split_once ''://'' raw of
        None \<Rightarrow> Inl InvalidRpcUrl
      | Some (scheme, remainder) \<Rightarrow>
          (if scheme \<noteq> ''http'' \<and> scheme \<noteq> ''https'' then Inl InvalidRpcUrl
           else
             let authority = takeWhile (\<lambda>c. c \<notin> set ''/?#'') remainder in
             if authority = [] then Inl InvalidRpcUrl
             else
               let host = (if CHR ''@'' \<in> set authority
                     then rev (takeWhile (\<lambda>c. c \<noteq> CHR ''@'') (rev authority)) else authority) in
               if host = [] then Inl InvalidRpcUrl
               else Inr (scheme @ ''://'' @ host)))"

lemma split_once_Some: "split_once pat s = Some (a, b) \<Longrightarrow> s = a @ pat @ b"
proof (induction pat s arbitrary: a b rule: split_once.induct)
  case (2 pat c s)
  show ?case
  proof (cases "take (length pat) (c # s) = pat")
    case True
    then have "pat @ drop (length pat) (c # s) = c # s" by (metis append_take_drop_id)
    with True "2.prems" show ?thesis by simp
  next
    case False
    with 2 show ?thesis by auto
  qed
qed (auto split: if_splits)

lemma split_scheme:
  "split_once ''://'' (''http'' @ ''://'' @ r) = Some (''http'', r)"
  "split_once ''://'' (''https'' @ ''://'' @ r) = Some (''https'', r)"
  by simp_all

lemma takeWhile_stop:
  "list_all P xs \<Longrightarrow> ys = [] \<or> \<not> P (hd ys) \<Longrightarrow> takeWhile P (xs @ ys) = xs"
  by (induction xs) (cases ys; auto)+

lemma after_last:
  "(if x \<in> set xs then rev (takeWhile (\<lambda>c. c \<noteq> x) (rev xs)) else xs) =
     rev (takeWhile (\<lambda>c. c \<noteq> x) (rev xs))"
proof (cases "x \<in> set xs")
  case False
  then have "takeWhile (\<lambda>c. c \<noteq> x) (rev xs) = rev xs"
    unfolding takeWhile_eq_all_conv by auto
  then have "rev (takeWhile (\<lambda>c. c \<noteq> x) (rev xs)) = xs" by (simp only: rev_rev_ident)
  with False show ?thesis by (simp only: if_False)
qed simp

definition redacted_shape :: "string \<Rightarrow> string \<Rightarrow> string \<Rightarrow> string \<Rightarrow> string \<Rightarrow> string \<Rightarrow> bool" where
  "redacted_shape raw out scheme user host tail \<longleftrightarrow>
     scheme \<in> {''http'', ''https''} \<and> raw = scheme @ ''://'' @ user @ host @ tail \<and>
     (user = [] \<or> last user = CHR ''@'') \<and> list_all (\<lambda>c. c \<notin> set ''/?#'') user \<and>
     host \<noteq> [] \<and> list_all (\<lambda>c. c \<notin> set ''/?#@'') host \<and>
     (tail = [] \<or> hd tail \<in> set ''/?#'') \<and>
     out = scheme @ ''://'' @ host"

lemma redacted_has_shape:
  assumes "redact_rpc_origin raw = Inr out"
  shows "\<exists>scheme user host tail. redacted_shape raw out scheme user host tail"
proof -
  let ?P = "\<lambda>c. c \<notin> set ''/?#''" and ?A = "\<lambda>c. c \<noteq> CHR ''@''"
  obtain scheme remainder where split: "split_once ''://'' raw = Some (scheme, remainder)"
    using assms by (auto simp: redact_rpc_origin_def)
  define authority where "authority = takeWhile ?P remainder"
  define host where "host = rev (takeWhile ?A (rev authority))"
  define user where "user = rev (dropWhile ?A (rev authority))"
  define tail where "tail = dropWhile ?P remainder"
  from assms have out: "scheme \<in> {''http'', ''https''}" "host \<noteq> []" "out = scheme @ ''://'' @ host"
    by (auto simp: redact_rpc_origin_def split after_last host_def authority_def Let_def split: if_splits)
  have "authority = user @ host"
    unfolding user_def host_def by (simp flip: rev_append)
  moreover have "remainder = authority @ tail" by (simp add: authority_def tail_def)
  ultimately have raw: "raw = scheme @ ''://'' @ user @ host @ tail"
    using split_once_Some [OF split] by simp
  have auth: "list_all ?P authority" unfolding authority_def list_all_iff by (blast dest: set_takeWhileD)
  have "list_all ?A host" unfolding host_def list_all_iff set_rev by (blast dest: set_takeWhileD)
  then have h: "list_all (\<lambda>c. c \<notin> set ''/?#@'') host" "list_all ?P user"
    using auth \<open>authority = user @ host\<close> by (auto simp: list_all_iff)
  have u: "user = [] \<or> last user = CHR ''@''"
  proof (cases "dropWhile ?A (rev authority) = []")
    case False
    then show ?thesis using hd_dropWhile [of ?A "rev authority"] by (simp add: user_def last_rev)
  qed (simp add: user_def)
  have t: "tail = [] \<or> hd tail \<in> set ''/?#''"
    unfolding tail_def using hd_dropWhile [of ?P remainder] by blast
  have "redacted_shape raw out scheme user host tail"
    by (simp only: redacted_shape_def out raw h u t simp_thms)
  then show ?thesis by blast
qed

lemma shape_is_redacted:
  assumes "redacted_shape raw out scheme user host tail"
  shows "redact_rpc_origin raw = Inr out"
proof -
  let ?P = "\<lambda>c. c \<notin> set ''/?#''" and ?A = "\<lambda>c. c \<noteq> CHR ''@''"
  note shape = assms [unfolded redacted_shape_def]
  have split: "split_once ''://'' raw = Some (scheme, user @ host @ tail)"
    using shape split_scheme by auto
  have "list_all ?P (user @ host)" using shape by (auto simp: list_all_iff)
  then have auth: "takeWhile ?P ((user @ host) @ tail) = user @ host"
    by (rule takeWhile_stop) (use shape in auto)
  have "list_all ?A (rev host)" using shape by (auto simp: list_all_iff)
  then have "takeWhile ?A (rev host @ rev user) = rev host"
    by (rule takeWhile_stop) (use shape in \<open>auto simp: hd_rev\<close>)
  then have host: "rev (takeWhile ?A (rev (user @ host))) = host" by simp
  have auth': "takeWhile ?P (user @ host @ tail) = user @ host" using auth by (simp only: append_assoc)
  have sch: "(scheme \<noteq> ''http'' \<and> scheme \<noteq> ''https'') = False" and ne: "(user @ host = []) = False"
    "(host = []) = False"
    using shape by auto
  have "redact_rpc_origin raw = Inr (scheme @ ''://'' @ host)"
    unfolding redact_rpc_origin_def split after_last Let_def option.case prod.case auth' host sch ne
      if_False ..
  then show ?thesis using shape by simp
qed

text \<open>
  What of an RPC URL is kept: the URL must be \<open>http\<close> or \<open>https\<close> with a host, and the
  recorded origin is the scheme and the host alone; user information before the last \<open>@\<close> of
  the authority, path, query and fragment are gone, and nothing else is accepted or kept.
\<close>

theorem redact_rpc_origin_exactly:
  "redact_rpc_origin raw = Inr out \<longleftrightarrow> (\<exists>scheme user host tail. redacted_shape raw out scheme user host tail)"
  using redacted_has_shape shape_is_redacted by blast

subsection \<open>What the retry loop does\<close>

text \<open>A run is observed by recording each request (with its error, if any) and each pause.\<close>

datatype rpc_event = Sent "http_error option" | Slept nat

definition logged_send ::
  "('w, http_error, 'resp) act \<Rightarrow> ('w \<times> rpc_event list, http_error, 'resp) act" where
  "logged_send send = (\<lambda>(w, events).
     case send w of (r, w') \<Rightarrow>
       (r, (w', events @ [Sent (case r of Inl e \<Rightarrow> Some e | Inr x \<Rightarrow> None)])))"

definition logged_sleep :: "(nat \<Rightarrow> 'w \<Rightarrow> 'w) \<Rightarrow> nat \<Rightarrow> 'w \<times> rpc_event list \<Rightarrow> 'w \<times> rpc_event list" where
  "logged_sleep sleep delay = (\<lambda>(w, events). (sleep delay w, events @ [Slept delay]))"

inductive retry_trace :: "nat \<Rightarrow> rpc_event list \<Rightarrow> http_error + 'resp \<Rightarrow> bool" where
  final: "retry_trace k [Sent (case r of Inl e \<Rightarrow> Some e | Inr x \<Rightarrow> None)] r"
| again: "k < 3 \<Longrightarrow> is_retryable_http_status status \<Longrightarrow>
    retry_delay (rpc_retry_backoff ! k) header = Some delay \<Longrightarrow> retry_trace (Suc k) events r \<Longrightarrow>
    retry_trace k (Sent (Some (Http_Status status header)) # Slept delay # events) r"

lemma retry_loop_trace:
  "retry_loop (logged_send send) (logged_sleep sleep) k (w, events) = (r, (w', events')) \<Longrightarrow>
     \<exists>new. events' = events @ new \<and> retry_trace k new r"
proof (induction "3 - k" arbitrary: k w events)
  case 0
  then have k: "\<not> k < 3" by simp
  obtain r1 w1 where s: "send w = (r1, w1)" by (metis prod.exhaust)
  have "retry_loop (logged_send send) (logged_sleep sleep) k (w, events) =
      (r1, (w1, events @ [Sent (case r1 of Inl e \<Rightarrow> Some e | Inr x \<Rightarrow> None)]))"
    using k by (subst retry_loop.simps)
      (auto simp: logged_send_def s rpc_retry_backoff_def split: sum.splits http_error.splits)
  then show ?case using 0 by (auto intro: retry_trace.final)
next
  case (Suc n)
  then have k: "k < 3" by simp
  obtain r1 w1 where s: "send w = (r1, w1)" by (metis prod.exhaust)
  show ?case
  proof (cases "\<exists>status header delay. r1 = Inl (Http_Status status header) \<and>
      is_retryable_http_status status \<and> retry_delay (rpc_retry_backoff ! k) header = Some delay")
    case True
    then obtain status header delay where r1: "r1 = Inl (Http_Status status header)"
      and ok: "is_retryable_http_status status" "retry_delay (rpc_retry_backoff ! k) header = Some delay"
      by blast
    have "retry_loop (logged_send send) (logged_sleep sleep) k (w, events) =
        retry_loop (logged_send send) (logged_sleep sleep) (Suc k)
          (sleep delay w1, (events @ [Sent (Some (Http_Status status header))]) @ [Slept delay])"
      using k ok by (subst retry_loop.simps)
        (simp add: logged_send_def logged_sleep_def s r1 rpc_retry_backoff_def)
    moreover have "n = 3 - Suc k" using Suc.hyps(2) by simp
    ultimately obtain new where "events' = events @ [Sent (Some (Http_Status status header)), Slept delay] @ new"
        "retry_trace (Suc k) new r"
      using Suc.hyps(1) [of "Suc k"] Suc.prems by fastforce
    then show ?thesis using k ok by (auto intro: retry_trace.again)
  next
    case False
    have "retry_loop (logged_send send) (logged_sleep sleep) k (w, events) =
        (r1, (w1, events @ [Sent (case r1 of Inl e \<Rightarrow> Some e | Inr x \<Rightarrow> None)]))"
      using False by (subst retry_loop.simps)
        (auto simp: logged_send_def s split: sum.splits http_error.splits option.splits)
    then show ?thesis using Suc.prems by (auto intro: retry_trace.final)
  qed
qed

fun is_sent :: "rpc_event \<Rightarrow> bool" where
  "is_sent (Sent e) = True"
| "is_sent (Slept d) = False"

text \<open>A pause is between the first backoff and five seconds, and as long as the server asked.\<close>

fun pause_ok :: "rpc_event \<Rightarrow> rpc_event \<Rightarrow> bool" where
  "pause_ok (Sent (Some (Http_Status status header))) (Slept d) \<longleftrightarrow>
     is_retryable_http_status status \<and> 200000000 \<le> d \<and> d \<le> 5 * second \<and>
     (case header of None \<Rightarrow> True
      | Some text \<Rightarrow> (case parse_u64 (trim text) of None \<Rightarrow> True | Some n \<Rightarrow> n * second \<le> d))"
| "pause_ok (Sent e) _ \<longleftrightarrow> False"
| "pause_ok (Slept d) (Sent e) \<longleftrightarrow> True"
| "pause_ok (Slept d) (Slept e) \<longleftrightarrow> False"

lemma retry_delay_bounds:
  assumes "k < 3" and "retry_delay (rpc_retry_backoff ! k) header = Some delay"
  shows "200000000 \<le> delay" "delay \<le> 5 * second"
    "\<And>text n. header = Some text \<Longrightarrow> parse_u64 (trim text) = Some n \<Longrightarrow> n * second \<le> delay"
proof -
  have "k \<in> {0, 1, 2}" using assms(1) by auto
  then have b: "200000000 \<le> rpc_retry_backoff ! k" "rpc_retry_backoff ! k \<le> 5 * second"
    by (auto simp: rpc_retry_backoff_def second_def)
  show "200000000 \<le> delay" "delay \<le> 5 * second"
    using assms(2) b by (auto simp: retry_delay_def rpc_max_retry_after_def split: option.splits if_splits)
  show "n * second \<le> delay" if "header = Some v" "parse_u64 (trim v) = Some n" for v n
    using assms(2) that by (auto simp: retry_delay_def split: if_splits)
qed

lemma retry_trace_ok:
  "retry_trace k events r \<Longrightarrow> k \<le> 3 \<Longrightarrow>
     length (filter is_sent events) \<le> 4 - k \<and> successively pause_ok events \<and>
     (\<exists>e. hd events = Sent e) \<and>
     events \<noteq> [] \<and> last events = Sent (case r of Inl e \<Rightarrow> Some e | Inr x \<Rightarrow> None)"
proof (induction k events r rule: retry_trace.induct)
  case (again k status header delay events r)
  then obtain e es where "events = Sent e # es" by (cases events) auto
  with again show ?case
    using retry_delay_bounds [OF again.hyps(1,3)] by (auto split: option.splits)
qed auto

text \<open>
  C39. Retrying is bounded and polite: whatever the server answers, one RPC call sends at most
  four requests; it sends another only after an answer with a retryable status and a pause
  between 200 ms and 5 s that is at least as long as the server's \<open>Retry-After\<close>; and it
  returns the answer to its last request.
\<close>

theorem retry_bounded_and_polite:
  assumes "send_read_rpc_with_retry (logged_send send) (logged_sleep sleep) (w, []) = (r, (w', events))"
  shows "length (filter is_sent events) \<le> 4 \<and> successively pause_ok events \<and>
    events \<noteq> [] \<and> last events = Sent (case r of Inl e \<Rightarrow> Some e | Inr x \<Rightarrow> None)"
proof -
  have "retry_trace 0 events r"
    using retry_loop_trace [of send sleep 0 w "[]"] assms by (auto simp: send_read_rpc_with_retry_def)
  from retry_trace_ok [OF this] show ?thesis by simp
qed

definition sample_send :: "(nat, http_error, unit) act" where
  "sample_send n = (if n < 2 then Inl (Http_Status 503 None) else Inr (), n + 1)"

theorem retry_bounded_and_polite_witness:
  "send_read_rpc_with_retry (logged_send sample_send) (logged_sleep (\<lambda>d n. n)) (0, []) =
     (Inr (), (3, [Sent (Some (Http_Status 503 None)), Slept 200000000,
        Sent (Some (Http_Status 503 None)), Slept 400000000, Sent None])) \<and>
   successively pause_ok [Sent (Some (Http_Status 503 None)), Slept 200000000,
        Sent (Some (Http_Status 503 None)), Slept 400000000, Sent None]"
proof -
  let ?events = "[Sent (Some (Http_Status 503 None)), Slept 200000000,
        Sent (Some (Http_Status 503 None)), Slept 400000000, Sent None]"
  have run: "send_read_rpc_with_retry (logged_send sample_send) (logged_sleep (\<lambda>d n. n)) (0, []) =
     (Inr (), (3, ?events))"
    by (simp add: send_read_rpc_with_retry_def retry_loop.simps logged_send_def logged_sleep_def
        sample_send_def rpc_retry_backoff_def is_retryable_http_status_def retry_delay_def)
  from retry_bounded_and_polite [OF run] run show ?thesis by blast
qed

subsection \<open>The anchor\<close>

text \<open>
  An anchor accepted from the RPC is consistent: its hash is the SHA-256 of the header
  sent with it, and the sequence, close time and base reserve are the header's.
\<close>

theorem latest_ledger_checked:
  "decode_latest X H wire = Inr a \<longleftrightarrow>
     (\<exists>bs header. b64_decode X (lw_header_xdr wire) = Some bs \<and> header_from_xdr H bs = Some header \<and>
        an_hash a = hex (sha256 X bs) \<and> an_hash a = lw_id wire \<and>
        an_sequence a = lh_ledger_seq header \<and> an_sequence a = lw_sequence wire \<and>
        an_timestamp a = lh_close_time header \<and>
        parse_u64 (lw_close_time wire) = Some (unat (an_timestamp a)) \<and>
        an_base_reserve a = lh_base_reserve header \<and>
        an_protocol_version a = lw_protocol_version wire)"
  by (cases a) (auto simp: decode_latest_def Let_def split: if_splits)

end
