(* ===== verification/Materialize.thy ===== *)
theory Materialize
  imports Snapshot_Sources Rpc_Client
begin

text \<open>
  Reading a coherent ledger state through the transport: \<open>CaptureBuilder::materialize\<close> and
  \<open>expand_code_closure\<close> of \<open>src/capture.rs\<close>. The lemmas show that a materialised state was
  read between two equal anchors, in batches that all name the anchor's ledger, that it covers
  exactly the requested keys and is what those batches said, and that after the expansion
  every captured contract can run.
\<close>

record 'w capture_builder =
  cb_network_passphrase :: string
  cb_rpc_origin :: string
  cb_transport :: "'w transport"
  cb_protocol_policy :: protocol_policy
  cb_max_coherence_attempts :: nat
  cb_max_discovery_rounds :: nat

definition max_coherence_attempts :: nat where "max_coherence_attempts = 8"
definition max_discovery_rounds :: nat where "max_discovery_rounds = 16"
definition max_executable_closure_rounds :: nat where "max_executable_closure_rounds = 16"
definition max_keys_per_batch :: nat where "max_keys_per_batch = 200"

definition builder_rpc ::
  "externals \<Rightarrow> ('w, 'resp) http_env \<Rightarrow> string \<Rightarrow> string
    \<Rightarrow> capture_error + ((rate_limiter \<times> 'w) capture_builder \<times> rate_limiter)" where
  "builder_rpc X H rpc_url network_passphrase =
     and_then (redact_rpc_origin rpc_url) (\<lambda>rpc_origin.
       Inr (\<lparr> cb_network_passphrase = network_passphrase, cb_rpc_origin = rpc_origin,
              cb_transport = http_transport X H, cb_protocol_policy = Exact,
              cb_max_coherence_attempts = max_coherence_attempts,
              cb_max_discovery_rounds = max_discovery_rounds \<rparr>,
            rate_limiter_new 0))"

text \<open>A builder holds its limiter; here the two are a pair.\<close>

definition builder_rpc_rate_limit :: "u32 \<Rightarrow> 'w capture_builder \<times> rate_limiter \<Rightarrow> 'w capture_builder \<times> rate_limiter" where
  "builder_rpc_rate_limit max_requests_per_second =
     map_prod id (set_requests_per_second max_requests_per_second)"

definition allow_newer_protocol :: "'w capture_builder \<Rightarrow> 'w capture_builder" where
  "allow_newer_protocol B = B\<lparr>cb_protocol_policy := AllowNewer\<rparr>"

record materialized =
  mt_anchor :: anchor
  mt_ledger_info :: ledger_info
  mt_coverage :: coverage

type_synonym key_map = "(key_id, ledger_key) bmap"
type_synonym 'a found = "coverage \<times> 'a option"

subsection \<open>Materialising\<close>

definition record_entry ::
  "(key_id, fetched_entry) bmap \<Rightarrow> key_id \<Rightarrow> state_archival_settings found \<Rightarrow> key_id \<times> ledger_key
    \<Rightarrow> capture_error + state_archival_settings found" where
  "record_entry returned config_id acc = (\<lambda>(i, key).
     let entry = bm_get returned i in
     if i = config_id
     then and_then (extract_archival entry) (\<lambda>settings. Inr (fst acc, Some settings))
     else Inr (bm_insert i (state_of entry) (fst acc), snd acc))"

primrec fetch_batches ::
  "externals \<Rightarrow> 'w transport \<Rightarrow> u32 \<Rightarrow> key_id \<Rightarrow> (key_id \<times> ledger_key) list list
    \<Rightarrow> state_archival_settings found
    \<Rightarrow> ('w, capture_error, state_archival_settings found option) act" where
  "fetch_batches X tr sequence config_id [] acc = sret (Some acc)"
| "fetch_batches X tr sequence config_id (chunk # rest) acc =
     sbind (smap_err Transport (tr_ledger_entries tr (map snd chunk))) (\<lambda>batch.
       if eb_latest_ledger batch \<noteq> sequence then sret None
       else
         sbind (slift (validate_batch X (map snd chunk) (eb_entries batch))) (\<lambda>returned.
         sbind (slift (try_fold (record_entry returned config_id) acc chunk)) (\<lambda>acc'.
           fetch_batches X tr sequence config_id rest acc')))"

definition ledger_info_of :: "externals \<Rightarrow> string \<Rightarrow> anchor \<Rightarrow> state_archival_settings \<Rightarrow> ledger_info" where
  "ledger_info_of X passphrase before archival =
     \<lparr> li_protocol_version = an_protocol_version before,
       li_sequence_number = an_sequence before,
       li_timestamp = an_timestamp before,
       li_network_id = sha256 X (str_bytes passphrase),
       li_base_reserve = an_base_reserve before,
       li_min_persistent_entry_ttl = sa_min_persistent_ttl archival,
       li_min_temp_entry_ttl = sa_min_temporary_ttl archival,
       li_max_entry_ttl = sa_max_entry_ttl archival \<rparr>"

definition finish_attempt ::
  "externals \<Rightarrow> 'w capture_builder \<Rightarrow> anchor \<Rightarrow> state_archival_settings found
    \<Rightarrow> capture_error + materialized" where
  "finish_attempt X B before found =
     and_then (ok_or MissingStateArchival (snd found)) (\<lambda>archival.
     and_then (validate_coverage X (fst found) (an_sequence before) (sa_max_entry_ttl archival)) (\<lambda>_.
       Inr \<lparr> mt_anchor = before,
             mt_ledger_info = ledger_info_of X (cb_network_passphrase B) before archival,
             mt_coverage = fst found \<rparr>))"

definition check_protocol :: "externals \<Rightarrow> 'w capture_builder \<Rightarrow> u32 \<Rightarrow> capture_error + unit" where
  "check_protocol X B found = map_err capture_of_protocol (policy_check X (cb_protocol_policy B) found)"

primrec coherence_loop ::
  "externals \<Rightarrow> 'w capture_builder \<Rightarrow> key_id \<Rightarrow> (key_id \<times> ledger_key) list \<Rightarrow> nat
    \<Rightarrow> ('w, capture_error, materialized) act" where
  "coherence_loop X B config_id requested 0 = sfail (IncoherentLedger (cb_max_coherence_attempts B))"
| "coherence_loop X B config_id requested (Suc attempts) =
     (let tr = cb_transport B in
      sbind (smap_err Transport (tr_latest_ledger tr)) (\<lambda>before.
      sbind (slift (check_protocol X B (an_protocol_version before))) (\<lambda>_.
      sbind (fetch_batches X tr (an_sequence before) config_id
          (chunks max_keys_per_batch requested) ([], None)) (\<lambda>found.
      sbind (smap_err Transport (tr_latest_ledger tr)) (\<lambda>after.
        if found = None \<or> before \<noteq> after then coherence_loop X B config_id requested attempts
        else slift (finish_attempt X B before (the found)))))))"

definition materialize ::
  "externals \<Rightarrow> 'w capture_builder \<Rightarrow> key_map \<Rightarrow> ('w, capture_error, materialized) act" where
  "materialize X B keys =
     sbind (slift (key_id X state_archival_key)) (\<lambda>config_id.
       coherence_loop X B config_id (bm_insert config_id state_archival_key keys)
         (cb_max_coherence_attempts B))"

subsection \<open>The executable closure\<close>

definition required_by ::
  "externals \<Rightarrow> coverage \<Rightarrow> contract_instance \<Rightarrow> capture_error + ledger_key list" where
  "required_by X cov inst =
     (case executable inst of
        Wasm h \<Rightarrow> Inr [Key_ContractCode h]
      | ExternalRef r \<Rightarrow>
          and_then (external_ref_code_key X cov r) (\<lambda>code_key.
            Inr (executable_ref_key r # (case code_key of None \<Rightarrow> [] | Some k \<Rightarrow> [k])))
      | StellarAsset \<Rightarrow> Inr [])"

definition required_keys :: "externals \<Rightarrow> coverage \<Rightarrow> capture_error + ledger_key list" where
  "required_keys X cov =
     and_then (try_map (\<lambda>(i, state). case instance_of state of
         None \<Rightarrow> Inr []
       | Some inst \<Rightarrow> required_by X cov inst) cov) (\<lambda>parts. Inr (concat parts))"

text \<open>Inserting keys, remembering how many of them were new.\<close>

definition add_key :: "externals \<Rightarrow> key_map \<times> nat \<Rightarrow> ledger_key \<Rightarrow> capture_error + key_map \<times> nat" where
  "add_key X = (\<lambda>(keys, added) key.
     and_then (key_id X key) (\<lambda>i.
       Inr (bm_insert i key keys, if bm_get keys i = None then added + 1 else added)))"

primrec closure_loop ::
  "externals \<Rightarrow> 'w capture_builder \<Rightarrow> nat \<Rightarrow> key_map \<Rightarrow> materialized
    \<Rightarrow> ('w, capture_error, key_map \<times> materialized) act" where
  "closure_loop X B 0 keys m = sfail (ExecutableClosureLimit max_executable_closure_rounds)"
| "closure_loop X B (Suc rounds) keys m =
     sbind (slift (required_keys X (mt_coverage m))) (\<lambda>required.
     sbind (slift (try_fold (add_key X) (keys, 0) required)) (\<lambda>(keys', added).
       if added = 0 then
         sbind (slift (ensure_executable_closure_present X (mt_coverage m))) (\<lambda>_. sret (keys', m))
       else if 0 < rounds then
         sbind (materialize X B keys') (\<lambda>m'. closure_loop X B rounds keys' m')
       else closure_loop X B rounds keys' m))"

text \<open>Rounds \<open>0..=16\<close>; the last one does not materialise again.\<close>

definition expand_code_closure ::
  "externals \<Rightarrow> 'w capture_builder \<Rightarrow> key_map \<Rightarrow> materialized
    \<Rightarrow> ('w, capture_error, key_map \<times> materialized) act" where
  "expand_code_closure X B keys m = closure_loop X B (Suc max_executable_closure_rounds) keys m"

subsection \<open>What the batches say\<close>

primrec serve_batches :: "'w transport \<Rightarrow> ledger_key list list \<Rightarrow> ('w, transport_failure, entry_batch list) act" where
  "serve_batches tr [] = sret []"
| "serve_batches tr (keys # rest) =
     sbind (tr_ledger_entries tr keys) (\<lambda>batch.
     sbind (serve_batches tr rest) (\<lambda>batches. sret (batch # batches)))"

definition batch_entry :: "externals \<Rightarrow> entry_batch list \<Rightarrow> key_id \<Rightarrow> fetched_entry option" where
  "batch_entry X batches i = find (\<lambda>f. entry_id X f = Some i) (concat (map eb_entries batches))"

definition batches_valid :: "externals \<Rightarrow> u32 \<Rightarrow> ledger_key list list \<Rightarrow> entry_batch list \<Rightarrow> bool" where
  "batches_valid X sequence = list_all2 (\<lambda>keys batch. eb_latest_ledger batch = sequence \<and>
     (\<exists>ret. validate_batch X keys (eb_entries batch) = Inr ret))"

definition keyed :: "externals \<Rightarrow> (key_id \<times> ledger_key) list \<Rightarrow> bool" where
  "keyed X kvs = list_all (\<lambda>(i, key). key_to_xdr X key = Some i) kvs"

lemma chunks_map: "chunks n (map f xs) = map (map f) (chunks n xs)"
proof (induction n xs rule: chunks.induct)
  case (1 n xs)
  then show ?case
    by (cases "xs = [] \<or> n = 0")
      (auto simp: chunks.simps [of n xs] chunks.simps [of n "map f xs"] take_map drop_map)
qed

lemma validated_get:
  assumes "validate_batch X keys entries = Inr ret"
  shows "bm_get ret i = find (\<lambda>f. entry_id X f = Some i) entries"
proof (cases "find (\<lambda>f. entry_id X f = Some i) entries")
  case None
  show ?thesis
  proof -
    have "\<forall>f\<in>set entries. entry_id X f \<noteq> Some i" using None by (auto simp: find_None_iff)
    then have "bm_get ret i = None"
      using validate_batch_get(2) [OF assms, of i] by (cases "bm_get ret i") auto
    then show ?thesis by (simp only: None)
  qed
next
  case (Some f)
  show ?thesis
  proof -
    have "f \<in> set entries" "entry_id X f = Some i" using Some by (auto simp: find_Some_iff)
    then have "bm_get ret i = Some f" using validate_batch_get(2) [OF assms, of i f] by simp
    then show ?thesis by (simp only: Some)
  qed
qed

lemma validated_ids:
  "validate_batch X keys entries = Inr ret \<Longrightarrow> f \<in> set entries \<Longrightarrow>
     \<exists>key\<in>set keys. entry_id X f = key_to_xdr X key"
proof -
  assume "validate_batch X keys entries = Inr ret" "f \<in> set entries"
  then obtain ids i where ids: "map (key_to_xdr X) keys = map Some ids" "i \<in> set ids" "entry_id X f = Some i"
    by (auto simp: validate_batch_Inr)
  then have "Some i \<in> set (map (key_to_xdr X) keys)" by (simp only: ids(1)) simp
  then show ?thesis using ids(3) by auto
qed

lemma find_append: "find P (xs @ ys) = (case find P xs of None \<Rightarrow> find P ys | Some x \<Rightarrow> Some x)"
  by (induction xs) auto

lemma find_outside:
  assumes "validate_batch X (map snd chunk) entries = Inr ret" and "keyed X chunk" and "i \<notin> fst ` set chunk"
  shows "find (\<lambda>f. entry_id X f = Some i) entries = None"
proof (rule ccontr)
  assume "find (\<lambda>f. entry_id X f = Some i) entries \<noteq> None"
  then obtain f where f: "f \<in> set entries" "entry_id X f = Some i"
    by (auto simp: find_None_iff)
  then obtain key where "key \<in> snd ` set chunk" "key_to_xdr X key = Some i"
    using validated_ids [OF assms(1)] by fastforce
  then show False using assms(2,3) by (force simp: keyed_def list_all_iff)
qed

subsection \<open>One batch\<close>

lemma record_entry_simps:
  "record_entry returned config_id acc (config_id, key) =
     and_then (extract_archival (bm_get returned config_id)) (\<lambda>settings. Inr (fst acc, Some settings))"
  "i \<noteq> config_id \<Longrightarrow> record_entry returned config_id acc (i, key) =
     Inr (bm_insert i (state_of (bm_get returned i)) (fst acc), snd acc)"
  by (simp_all add: record_entry_def)

lemma record_chunk:
  assumes "try_fold (record_entry returned config_id) (cov, arch) chunk = Inr (cov', arch')"
    and "bm_ok cov" and "distinct (map fst chunk)"
  shows "bm_ok cov' \<and> bm_keys cov' = bm_keys cov \<union> (fst ` set chunk - {config_id}) \<and>
    (\<forall>i. bm_get cov' i =
       (if i \<in> fst ` set chunk - {config_id} then Some (state_of (bm_get returned i)) else bm_get cov i)) \<and>
    (if config_id \<in> fst ` set chunk
     then \<exists>settings. extract_archival (bm_get returned config_id) = Inr settings \<and> arch' = Some settings
     else arch' = arch)"
  using assms
proof (induction chunk arbitrary: cov arch)
  case (Cons b chunk)
  obtain i key where b: "b = (i, key)" by (cases b)
  show ?case
  proof (cases "i = config_id")
    case True
    then obtain settings where ex: "extract_archival (bm_get returned config_id) = Inr settings"
      and rest: "try_fold (record_entry returned config_id) (cov, Some settings) chunk = Inr (cov', arch')"
      using Cons.prems(1) by (auto simp: b record_entry_simps)
    have "config_id \<notin> fst ` set chunk" using Cons.prems(3) True by (auto simp: b)
    then show ?thesis using Cons.IH [OF rest Cons.prems(2)] Cons.prems(3) True ex by (auto simp: b)
  next
    case False
    then have rest: "try_fold (record_entry returned config_id)
        (bm_insert i (state_of (bm_get returned i)) cov, arch) chunk = Inr (cov', arch')"
      using Cons.prems(1) by (auto simp: b record_entry_simps)
    have "i \<notin> fst ` set chunk" using Cons.prems(3) by (auto simp: b)
    then show ?thesis
      using Cons.IH [OF rest bm_ok_insert [OF Cons.prems(2)]] Cons.prems(2,3) False
      by (auto simp: b bm_get_insert)
  qed
qed auto

subsection \<open>All batches\<close>

text \<open>Coverage and settings are what the batches say of the given keys.\<close>

definition found_in ::
  "externals \<Rightarrow> key_id \<Rightarrow> entry_batch list \<Rightarrow> key_id set \<Rightarrow> state_archival_settings found
    \<Rightarrow> state_archival_settings found \<Rightarrow> bool" where
  "found_in X config_id batches ids old new \<longleftrightarrow>
     bm_ok (fst new) \<and>
     (\<forall>i. bm_get (fst new) i =
        (if i \<in> ids - {config_id} then Some (state_of (batch_entry X batches i)) else bm_get (fst old) i)) \<and>
     (if config_id \<in> ids
      then \<exists>settings. extract_archival (batch_entry X batches config_id) = Inr settings \<and> snd new = Some settings
      else snd new = snd old)"

lemma batch_entry_Cons:
  "batch_entry X (b # bs) i =
     (case find (\<lambda>f. entry_id X f = Some i) (eb_entries b) of
        None \<Rightarrow> batch_entry X bs i | Some f \<Rightarrow> Some f)"
  by (simp add: batch_entry_def find_append split: option.split)

lemma batch_entry_outside:
  "batches_valid X sequence (map (map snd) cs) bs \<Longrightarrow> keyed X (concat cs) \<Longrightarrow>
     i \<notin> fst ` set (concat cs) \<Longrightarrow> batch_entry X bs i = None"
proof (induction cs arbitrary: bs)
  case Nil
  then show ?case by (simp add: batches_valid_def batch_entry_def)
next
  case (Cons chunk cs)
  then obtain b bs' ret where bs: "bs = b # bs'"
    and v: "validate_batch X (map snd chunk) (eb_entries b) = Inr ret"
    and rest: "batches_valid X sequence (map (map snd) cs) bs'"
    by (auto simp: batches_valid_def list_all2_Cons1)
  have "find (\<lambda>f. entry_id X f = Some i) (eb_entries b) = None"
    by (rule find_outside [OF v]) (use Cons.prems in \<open>auto simp: keyed_def\<close>)
  moreover have "batch_entry X bs' i = None"
    by (rule Cons.IH [OF rest]) (use Cons.prems in \<open>auto simp: keyed_def\<close>)
  ultimately show ?case by (simp add: bs batch_entry_Cons)
qed

text \<open>The entries of a chunk recorded first, those of the later batches after it.\<close>

lemma found_in_chunk:
  assumes chunk: "\<And>i. bm_get cov1 i =
      (if i \<in> A - {config_id} then Some (state_of (bm_get ret i)) else bm_get cov i)"
    and archival: "if config_id \<in> A then \<exists>settings. extract_archival (bm_get ret config_id) = Inr settings \<and>
      arch1 = Some settings else arch1 = arch"
    and found: "found_in X config_id bs B (cov1, arch1) acc'"
    and here: "\<And>i. i \<in> A \<Longrightarrow> batch_entry X (batch # bs) i = bm_get ret i"
    and there: "\<And>i. i \<notin> A \<Longrightarrow> batch_entry X (batch # bs) i = batch_entry X bs i"
    and apart: "\<And>i. i \<in> A \<Longrightarrow> i \<notin> B"
  shows "found_in X config_id (batch # bs) (A \<union> B) (cov, arch) acc'"
proof -
  have f: "bm_ok (fst acc')" "\<And>i. bm_get (fst acc') i =
      (if i \<in> B - {config_id} then Some (state_of (batch_entry X bs i)) else bm_get cov1 i)"
    "if config_id \<in> B then \<exists>settings. extract_archival (batch_entry X bs config_id) = Inr settings \<and>
       snd acc' = Some settings else snd acc' = arch1"
    using found by (simp_all add: found_in_def)
  have "bm_get (fst acc') i = (if i \<in> (A \<union> B) - {config_id}
      then Some (state_of (batch_entry X (batch # bs) i)) else bm_get cov i)" for i
  proof (cases "i \<in> A")
    case True
    then show ?thesis by (simp only: f(2) chunk here [OF True] apart [OF True] Diff_iff Un_iff simp_thms if_False)
  next
    case False
    then show ?thesis by (simp only: f(2) chunk there [OF False] Diff_iff Un_iff simp_thms if_False)
  qed
  moreover have "if config_id \<in> A \<union> B
      then \<exists>settings. extract_archival (batch_entry X (batch # bs) config_id) = Inr settings \<and>
        snd acc' = Some settings
      else snd acc' = arch"
  proof (cases "config_id \<in> A")
    case True
    have "config_id \<notin> B" by (rule apart [OF True])
    with True archival f(3) here [OF True] show ?thesis by simp
  next
    case False
    with archival f(3) there [OF False] show ?thesis by simp
  qed
  ultimately show ?thesis using f(1) by (simp add: found_in_def)
qed

lemma fetch_batches_found:
  assumes "fetch_batches X tr sequence config_id cs acc w = (Inr (Some acc'), w')"
    and "bm_ok (fst acc)" and "distinct (map fst (concat cs))" and "keyed X (concat cs)"
  shows "\<exists>bs. serve_batches tr (map (map snd) cs) w = (Inr bs, w') \<and>
    batches_valid X sequence (map (map snd) cs) bs \<and>
    found_in X config_id bs (fst ` set (concat cs)) acc acc'"
  using assms
proof (induction cs arbitrary: acc w)
  case Nil
  then show ?case by (auto simp: batches_valid_def found_in_def)
next
  case (Cons chunk cs)
  obtain cov arch where acc: "acc = (cov, arch)" by (cases acc)
  from Cons.prems(1) obtain batch ret cov1 arch1 w1 where
    served: "tr_ledger_entries tr (map snd chunk) w = (Inr batch, w1)"
    and latest: "eb_latest_ledger batch = sequence"
    and valid: "validate_batch X (map snd chunk) (eb_entries batch) = Inr ret"
    and step: "try_fold (record_entry ret config_id) (cov, arch) chunk = Inr (cov1, arch1)"
    and rest: "fetch_batches X tr sequence config_id cs (cov1, arch1) w1 = (Inr (Some acc'), w')"
    by (auto simp: acc split: if_splits)
  have dist: "distinct (map fst chunk)" "distinct (map fst (concat cs))"
    "fst ` set chunk \<inter> fst ` set (concat cs) = {}" and key: "keyed X chunk" "keyed X (concat cs)"
    using Cons.prems(3,4) by (auto simp: keyed_def)
  note apart = disjoint_iff [THEN iffD1, OF dist(3), rule_format]
  note rc = record_chunk [OF step] and get = validated_get [OF valid]
  have "bm_ok (fst (cov1, arch1))" using rc Cons.prems(2) dist(1) by (simp add: acc)
  then obtain bs where bs: "serve_batches tr (map (map snd) cs) w1 = (Inr bs, w')"
      "batches_valid X sequence (map (map snd) cs) bs"
    and found: "found_in X config_id bs (fst ` set (concat cs)) (cov1, arch1) acc'"
    using Cons.IH [OF rest _ dist(2) key(2)] by blast
  have here: "batch_entry X (batch # bs) i = bm_get ret i" if "i \<in> fst ` set chunk" for i
  proof -
    have "batch_entry X bs i = None"
      by (rule batch_entry_outside [OF bs(2) key(2) apart [OF that]])
    then show ?thesis by (simp add: batch_entry_Cons get split: option.split)
  qed
  have there: "batch_entry X (batch # bs) i = batch_entry X bs i" if "i \<notin> fst ` set chunk" for i
    using find_outside [OF valid key(1) that] by (simp add: batch_entry_Cons)
  have "found_in X config_id (batch # bs) (fst ` set chunk \<union> fst ` set (concat cs)) (cov, arch) acc'"
    by (rule found_in_chunk [OF _ _ found here there apart]) (use rc Cons.prems(2) dist(1) in \<open>simp_all add: acc\<close>)
  then have "found_in X config_id (batch # bs) (fst ` set (concat (chunk # cs))) acc acc'"
    by (simp add: acc image_Un)
  moreover have "serve_batches tr (map (map snd) (chunk # cs)) w = (Inr (batch # bs), w')"
    using served bs(1) by simp
  moreover have "batches_valid X sequence (map (map snd) (chunk # cs)) (batch # bs)"
    using bs(2) latest valid by (simp add: batches_valid_def)
  ultimately show ?case by blast
qed

subsection \<open>A coherent attempt\<close>

definition coherent_attempt ::
  "externals \<Rightarrow> 'w capture_builder \<Rightarrow> key_id \<Rightarrow> (key_id \<times> ledger_key) list \<Rightarrow> materialized \<Rightarrow> 'w \<Rightarrow> bool" where
  "coherent_attempt X B config_id requested m w' \<longleftrightarrow>
     (\<exists>w1 w2 w3 batches found.
        tr_latest_ledger (cb_transport B) w1 = (Inr (mt_anchor m), w2) \<and>
        serve_batches (cb_transport B) (chunks max_keys_per_batch (map snd requested)) w2 = (Inr batches, w3) \<and>
        batches_valid X (an_sequence (mt_anchor m))
          (chunks max_keys_per_batch (map snd requested)) batches \<and>
        tr_latest_ledger (cb_transport B) w3 = (Inr (mt_anchor m), w') \<and>
        check_protocol X B (an_protocol_version (mt_anchor m)) = Inr () \<and>
        found_in X config_id batches (fst ` set requested) ([], None) found \<and>
        finish_attempt X B (mt_anchor m) found = Inr m)"

lemma finish_attempt_anchor: "finish_attempt X B before found = Inr m \<Longrightarrow> mt_anchor m = before"
  by (auto simp: finish_attempt_def)

lemma coherence_loop_coherent:
  assumes "bm_ok requested" and "keyed X requested"
  shows "coherence_loop X B config_id requested n w = (Inr m, w') \<Longrightarrow>
    coherent_attempt X B config_id requested m w'"
proof (induction n arbitrary: w)
  case (Suc n)
  let ?tr = "cb_transport B"
  from Suc.prems obtain before found after w2 w3 w4 where
    before: "tr_latest_ledger ?tr w = (Inr before, w2)"
    and pol: "check_protocol X B (an_protocol_version before) = Inr ()"
    and found: "fetch_batches X ?tr (an_sequence before) config_id
        (chunks max_keys_per_batch requested) ([], None) w2 = (Inr found, w3)"
    and after: "tr_latest_ledger ?tr w3 = (Inr after, w4)"
    and rest: "(if found = None \<or> before \<noteq> after then coherence_loop X B config_id requested n
        else slift (finish_attempt X B before (the found))) w4 = (Inr m, w')"
    by (auto simp: Let_def)
  show ?case
  proof (cases "found = None \<or> before \<noteq> after")
    case True
    with rest show ?thesis by (auto intro: Suc.IH)
  next
    case False
    then obtain acc where acc: "found = Some acc" "after = before" by auto
    with rest have fin: "finish_attempt X B before acc = Inr m" and w': "w4 = w'" by auto
    have cs: "concat (chunks max_keys_per_batch requested) = requested"
      by (simp add: concat_chunks max_keys_per_batch_def)
    obtain bs where bs: "serve_batches ?tr (map (map snd) (chunks max_keys_per_batch requested)) w2 = (Inr bs, w3)"
        "batches_valid X (an_sequence before) (map (map snd) (chunks max_keys_per_batch requested)) bs"
        "found_in X config_id bs (fst ` set requested) ([], None) acc"
      using fetch_batches_found [OF found [unfolded acc]] assms
      unfolding cs by (auto simp: bm_distinct)
    have b: "before = mt_anchor m" using finish_attempt_anchor [OF fin] by (rule sym)
    show ?thesis
      unfolding coherent_attempt_def chunks_map
      using before [unfolded b] pol [unfolded b] bs [unfolded b] after [unfolded acc(2) w' b]
        fin [unfolded b] by blast
  qed
qed simp

subsection \<open>What a materialised state is\<close>

text \<open>The invariant of \<open>keys\<close> and \<open>materialized\<close> between the calls that change them.\<close>

definition materialized_ok :: "externals \<Rightarrow> 'w capture_builder \<Rightarrow> key_map \<Rightarrow> materialized \<Rightarrow> bool" where
  "materialized_ok X B keys m \<longleftrightarrow>
     bm_ok keys \<and> keyed X keys \<and> bm_ok (mt_coverage m) \<and>
     (\<exists>config_id settings. key_to_xdr X state_archival_key = Some config_id \<and>
        bm_keys (mt_coverage m) = bm_keys keys - {config_id} \<and>
        mt_ledger_info m = ledger_info_of X (cb_network_passphrase B) (mt_anchor m) settings \<and>
        validate_coverage X (mt_coverage m) (an_sequence (mt_anchor m)) (sa_max_entry_ttl settings) = Inr ()) \<and>
     check_protocol X B (an_protocol_version (mt_anchor m)) = Inr () \<and>
     (\<exists>w w'. tr_latest_ledger (cb_transport B) w = (Inr (mt_anchor m), w'))"

lemma keyed_insert:
  "keyed X m \<Longrightarrow> key_to_xdr X key = Some i \<Longrightarrow> keyed X (bm_insert i key m)"
  unfolding keyed_def by (induction i key m rule: bm_insert.induct) auto

lemma requested_ok:
  assumes "bm_ok keys" and "keyed X keys" and "key_to_xdr X state_archival_key = Some config_id"
  defines "requested \<equiv> bm_insert config_id state_archival_key keys"
  shows "bm_ok requested" "keyed X requested" "fst ` set requested = insert config_id (bm_keys keys)"
  using assms bm_keys_insert [of config_id state_archival_key keys]
  by (simp_all add: bm_ok_insert keyed_insert bm_keys_def)

lemma materialize_attempt:
  assumes "materialize X B keys w = (Inr m, w')" and "bm_ok keys" and "keyed X keys"
  obtains config_id where "key_to_xdr X state_archival_key = Some config_id"
    and "coherent_attempt X B config_id (bm_insert config_id state_archival_key keys) m w'"
  using assms requested_ok [OF assms(2,3)]
  by (auto simp: materialize_def intro: coherence_loop_coherent)

lemma found_keys:
  assumes "found_in X config_id bs ids ([], None) found"
  shows "bm_keys (fst found) = ids - {config_id}"
proof -
  have "bm_get (fst found) i =
      (if i \<in> ids - {config_id} then Some (state_of (batch_entry X bs i)) else None)" for i
    using assms by (simp add: found_in_def)
  then show ?thesis by (auto simp: bm_keys_get split: if_splits)
qed

lemma materialize_ok:
  assumes "materialize X B keys w = (Inr m, w')" and "bm_ok keys" and "keyed X keys"
  shows "materialized_ok X B keys m"
proof -
  obtain config_id where c: "key_to_xdr X state_archival_key = Some config_id"
    and att: "coherent_attempt X B config_id (bm_insert config_id state_archival_key keys) m w'"
    using assms by (rule materialize_attempt)
  from att obtain bs found where
    found: "found_in X config_id bs (insert config_id (bm_keys keys)) ([], None) found"
    and fin: "finish_attempt X B (mt_anchor m) found = Inr m"
    and pol: "check_protocol X B (an_protocol_version (mt_anchor m)) = Inr ()"
    using requested_ok(3) [OF assms(2,3) c] by (auto simp: coherent_attempt_def)
  have anchor: "\<exists>w w'. tr_latest_ledger (cb_transport B) w = (Inr (mt_anchor m), w')"
    using att unfolding coherent_attempt_def by blast
  from fin obtain settings where s: "snd found = Some settings" "mt_coverage m = fst found"
      "validate_coverage X (fst found) (an_sequence (mt_anchor m)) (sa_max_entry_ttl settings) = Inr ()"
      "mt_ledger_info m = ledger_info_of X (cb_network_passphrase B) (mt_anchor m) settings"
    by (auto simp: finish_attempt_def) (metis materialized.select_convs)+
  have "bm_ok (mt_coverage m)" using found s(2) by (simp add: found_in_def)
  moreover have "bm_keys (mt_coverage m) = bm_keys keys - {config_id}" using found_keys [OF found] s(2) by auto
  moreover have "validate_coverage X (mt_coverage m) (an_sequence (mt_anchor m)) (sa_max_entry_ttl settings) = Inr ()"
    using s(2,3) by simp
  ultimately show ?thesis
    unfolding materialized_ok_def using assms(2,3) c s(4) pol anchor by blast
qed

subsection \<open>The expansion\<close>

lemma add_keys:
  assumes "try_fold (add_key X) (keys, n) new = Inr (keys', n')" and "bm_ok keys" and "keyed X keys"
  shows "bm_ok keys' \<and> keyed X keys' \<and> n \<le> n' \<and> bm_keys keys \<subseteq> bm_keys keys' \<and>
    (n' = n \<longrightarrow> bm_keys keys' = bm_keys keys) \<and>
    list_all (\<lambda>key. \<exists>i\<in>bm_keys keys'. key_to_xdr X key = Some i) new"
  using assms
proof (induction new arbitrary: keys n)
  case (Cons key new)
  from Cons.prems(1) obtain i where i: "key_to_xdr X key = Some i"
    and rest: "try_fold (add_key X) (bm_insert i key keys,
        if bm_get keys i = None then n + 1 else n) new = Inr (keys', n')"
    by (auto simp: add_key_def)
  have "i \<in> bm_keys keys \<longleftrightarrow> bm_get keys i \<noteq> None" by (rule bm_keys_get)
  then show ?case
    using Cons.IH [OF rest bm_ok_insert [OF Cons.prems(2)] keyed_insert [OF Cons.prems(3) i]] i
    by (auto split: if_splits)
qed simp

lemma keyed_agree:
  "keyed X m \<Longrightarrow> xdr_laws X \<Longrightarrow> bm_get m i = Some k \<Longrightarrow> key_to_xdr X key = Some i \<Longrightarrow> k = key"
  using key_to_xdr_inject by (fastforce simp: keyed_def list_all_iff dest: bm_get_in_set)

lemma materialized_ok_keys:
  "materialized_ok X B keys m \<Longrightarrow> bm_ok keys' \<Longrightarrow> keyed X keys' \<Longrightarrow> bm_keys keys' = bm_keys keys \<Longrightarrow>
     materialized_ok X B keys' m"
  by (auto simp: materialized_ok_def)

lemma closure_loop_ok:
  "closure_loop X B n keys m w = (Inr (keys', m'), w') \<Longrightarrow> materialized_ok X B keys m \<Longrightarrow>
     materialized_ok X B keys' m' \<and> bm_keys keys \<subseteq> bm_keys keys' \<and>
     ensure_executable_closure_present X (mt_coverage m') = Inr ()"
proof (induction n arbitrary: keys m w)
  case (Suc n)
  from Suc.prems(1) obtain required keys1 added where
    req: "required_keys X (mt_coverage m) = Inr required"
    and add: "try_fold (add_key X) (keys, 0) required = Inr (keys1, added)"
    and rest: "(if added = 0 then
         sbind (slift (ensure_executable_closure_present X (mt_coverage m))) (\<lambda>_. sret (keys1, m))
       else if 0 < n then
         sbind (materialize X B keys1) (\<lambda>m'. closure_loop X B n keys1 m')
       else closure_loop X B n keys1 m) w = (Inr (keys', m'), w')"
    by auto
  have keys1: "bm_ok keys1" "keyed X keys1" "bm_keys keys \<subseteq> bm_keys keys1"
      "added = 0 \<longrightarrow> bm_keys keys1 = bm_keys keys"
    using add_keys [OF add] Suc.prems(2) by (auto simp: materialized_ok_def)
  consider "added = 0" | "added \<noteq> 0" "0 < n" | "added \<noteq> 0" "n = 0" by auto
  then show ?case
  proof cases
    case 1
    with rest have "keys' = keys1" "m' = m" "ensure_executable_closure_present X (mt_coverage m) = Inr ()"
      by auto
    then show ?thesis using materialized_ok_keys [OF Suc.prems(2) keys1(1,2)] keys1(3,4) 1 by auto
  next
    case 2
    with rest obtain m1 w1 where m1: "materialize X B keys1 w = (Inr m1, w1)"
      and loop: "closure_loop X B n keys1 m1 w1 = (Inr (keys', m'), w')"
      by auto
    have "materialized_ok X B keys1 m1" using m1 keys1(1,2) by (rule materialize_ok)
    then show ?thesis using Suc.IH [OF loop] keys1(3) by auto
  next
    case 3
    with rest show ?thesis by simp
  qed
qed simp

subsection \<open>Properties\<close>

text \<open>
  C31. A materialised state is one ledger. Whatever the RPC server answers, success means: the
  server named the same anchor before and after, every batch in between names the anchor's
  ledger, and for exactly the requested keys (the archival setting apart) the coverage is what
  those batches say: the entry returned for the key, or absent when they hold none.
\<close>

theorem materialize_is_coherent:
  assumes "materialize X B keys w = (Inr m, w')" and "bm_ok keys" and "keyed X keys"
  shows "\<exists>config_id w1 w2 w3 batches settings.
    key_to_xdr X state_archival_key = Some config_id \<and>
    tr_latest_ledger (cb_transport B) w1 = (Inr (mt_anchor m), w2) \<and>
    serve_batches (cb_transport B) (chunks max_keys_per_batch
      (map snd (bm_insert config_id state_archival_key keys))) w2 = (Inr batches, w3) \<and>
    tr_latest_ledger (cb_transport B) w3 = (Inr (mt_anchor m), w') \<and>
    list_all (\<lambda>b. eb_latest_ledger b = an_sequence (mt_anchor m)) batches \<and>
    extract_archival (batch_entry X batches config_id) = Inr settings \<and>
    mt_ledger_info m = ledger_info_of X (cb_network_passphrase B) (mt_anchor m) settings \<and>
    bm_ok (mt_coverage m) \<and>
    (\<forall>i. bm_get (mt_coverage m) i =
       (if i \<in> bm_keys keys - {config_id} then Some (state_of (batch_entry X batches i)) else None))"
proof -
  obtain config_id where c: "key_to_xdr X state_archival_key = Some config_id"
    and att: "coherent_attempt X B config_id (bm_insert config_id state_archival_key keys) m w'"
    using assms by (rule materialize_attempt)
  let ?req = "bm_insert config_id state_archival_key keys"
  from att obtain w1 w2 w3 bs found where
    anchors: "tr_latest_ledger (cb_transport B) w1 = (Inr (mt_anchor m), w2)"
      "tr_latest_ledger (cb_transport B) w3 = (Inr (mt_anchor m), w')"
    and served: "serve_batches (cb_transport B) (chunks max_keys_per_batch (map snd ?req)) w2 = (Inr bs, w3)"
    and valid: "batches_valid X (an_sequence (mt_anchor m)) (chunks max_keys_per_batch (map snd ?req)) bs"
    and found: "found_in X config_id bs (insert config_id (bm_keys keys)) ([], None) found"
    and fin: "finish_attempt X B (mt_anchor m) found = Inr m"
    unfolding coherent_attempt_def requested_ok(3) [OF assms(2,3) c] by blast
  have latest: "list_all (\<lambda>b. eb_latest_ledger b = an_sequence (mt_anchor m)) bs"
    using valid by (auto simp: batches_valid_def list_all2_conv_all_nth list_all_length)
  obtain settings where s: "extract_archival (batch_entry X bs config_id) = Inr settings"
      "snd found = Some settings"
    using found by (auto simp: found_in_def)
  have m: "mt_coverage m = fst found"
      "mt_ledger_info m = ledger_info_of X (cb_network_passphrase B) (mt_anchor m) settings"
    using fin s(2) by (auto simp: finish_attempt_def) (metis materialized.select_convs)+
  have "bm_get (mt_coverage m) i =
      (if i \<in> bm_keys keys - {config_id} then Some (state_of (batch_entry X bs i)) else None)" for i
    using found by (simp add: found_in_def m(1))
  moreover have "bm_ok (mt_coverage m)" using found by (simp add: found_in_def m(1))
  ultimately show ?thesis using c anchors served latest s(1) m(2) by blast
qed

text \<open>
  C35. After the expansion every captured contract can run: for any server, a successful
  expansion returns a valid materialised state of at least the given keys in which the code of
  every contract instance is present.
\<close>

theorem expansion_is_closed:
  assumes "expand_code_closure X B keys m w = (Inr (keys', m'), w')" and "materialized_ok X B keys m"
  shows "materialized_ok X B keys' m' \<and> bm_keys keys \<subseteq> bm_keys keys' \<and>
    list_all (\<lambda>(i, state). case instance_of state of
        None \<Rightarrow> True
      | Some inst \<Rightarrow> instance_closed X (mt_coverage m') inst) (mt_coverage m')"
proof -
  have "closed_binding X cov = (\<lambda>(i, state). case instance_of state of
        None \<Rightarrow> True | Some inst \<Rightarrow> instance_closed X cov inst)" for cov
    by (auto simp: closed_binding_def fun_eq_iff)
  then show ?thesis
    using closure_loop_ok [OF assms(1) [unfolded expand_code_closure_def] assms(2)]
    by (simp add: ensure_executable_closure_Inr)
qed

end
