(* ===== verification/Stable_Ledger.thy ===== *)
theory Stable_Ledger
  imports Materialize
begin

text \<open>
  The other half of \<open>materialize\<close>: an honest server whose ledger does not change while it is
  read. \<open>ledger_server\<close> is such a transport, a fixed anchor and a fixed list of entries; with
  it the first attempt succeeds and returns the ledger's own content. The same server, holding
  a small ledger, is what the witnesses of the capture properties run against.
\<close>

definition server_answer :: "externals \<Rightarrow> fetched_entry list \<Rightarrow> ledger_key list \<Rightarrow> fetched_entry list" where
  "server_answer X ledger keys = filter (\<lambda>f. to_key X (fe_entry f) \<in> set keys) ledger"

definition ledger_server ::
  "externals \<Rightarrow> network \<Rightarrow> anchor \<Rightarrow> fetched_entry list \<Rightarrow> 'w transport" where
  "ledger_server X net a ledger =
     \<lparr> tr_network = sret net, tr_latest_ledger = sret a,
       tr_ledger_entries = (\<lambda>keys. sret
         \<lparr> eb_latest_ledger = an_sequence a, eb_entries = server_answer X ledger keys \<rparr>) \<rparr>"

lemma ledger_server_simps [simp]:
  "tr_network (ledger_server X net a ledger) w = (Inr net, w)"
  "tr_latest_ledger (ledger_server X net a ledger) w = (Inr a, w)"
  "tr_ledger_entries (ledger_server X net a ledger) keys w =
     (Inr \<lparr> eb_latest_ledger = an_sequence a, eb_entries = server_answer X ledger keys \<rparr>, w)"
  by (simp_all add: ledger_server_def)

text \<open>A ledger holds one encodable entry per key, and its archival settings.\<close>

definition ledger_ok :: "externals \<Rightarrow> fetched_entry list \<Rightarrow> state_archival_settings \<Rightarrow> bool" where
  "ledger_ok X ledger settings \<longleftrightarrow>
     list_all (\<lambda>f. entry_id X f \<noteq> None) ledger \<and> distinct (map (entry_id X) ledger) \<and>
     extract_archival (find (\<lambda>f. entry_id X f = key_to_xdr X state_archival_key) ledger) = Inr settings"

definition ledger_state :: "externals \<Rightarrow> fetched_entry list \<Rightarrow> key_id \<Rightarrow> lookup_state" where
  "ledger_state X ledger i = state_of (find (\<lambda>f. entry_id X f = Some i) ledger)"

lemma server_batch_valid:
  assumes laws: "xdr_laws X" and ok: "ledger_ok X ledger settings" and key: "keyed X chunk"
  shows "validate_batch X (map snd chunk) (server_answer X ledger (map snd chunk)) =
    Inr (bm_of_list (map (entry_binding X) (server_answer X ledger (map snd chunk))))"
proof -
  let ?answer = "server_answer X ledger (map snd chunk)"
  have "map (key_to_xdr X) (map snd chunk) = map Some (map fst chunk)"
    using key by (auto simp: keyed_def list_all_iff)
  moreover have "\<exists>i\<in>set (map fst chunk). entry_id X f = Some i" if "f \<in> set ?answer" for f
    using that key by (force simp: server_answer_def entry_id_def keyed_def list_all_iff)
  moreover have "distinct (map (entry_id X) ?answer)"
    using ok by (simp add: ledger_ok_def server_answer_def distinct_map_filter)
  ultimately show ?thesis unfolding validate_batch_Inr by blast
qed

lemma find_filter: "(\<And>x. P x \<Longrightarrow> Q x) \<Longrightarrow> find P (filter Q xs) = find P xs"
  by (induction xs) auto

lemma server_lookup:
  assumes laws: "xdr_laws X" and "key \<in> set keys" and "key_to_xdr X key = Some i"
  shows "find (\<lambda>f. entry_id X f = Some i) (server_answer X ledger keys) =
    find (\<lambda>f. entry_id X f = Some i) ledger"
  unfolding server_answer_def
proof (rule find_filter)
  fix f
  assume "entry_id X f = Some i"
  then have "to_key X (fe_entry f) = key"
    using key_to_xdr_inject [OF laws] assms(3) by (auto simp: entry_id_def)
  then show "to_key X (fe_entry f) \<in> set keys" using assms(2) by simp
qed

lemma record_chunk_runs:
  assumes "config_id \<in> fst ` set chunk \<Longrightarrow> extract_archival (bm_get returned config_id) = Inr settings"
  shows "\<exists>acc'. try_fold (record_entry returned config_id) acc chunk = Inr acc'"
  using assms
proof (induction chunk arbitrary: acc)
  case (Cons b chunk)
  obtain i key where "b = (i, key)" by (cases b)
  with Cons show ?case by (cases "i = config_id") (auto simp: record_entry_simps)
qed simp

lemma server_fetch_runs:
  assumes laws: "xdr_laws X" and ok: "ledger_ok X ledger settings"
    and c: "key_to_xdr X state_archival_key = Some config_id"
    and key: "keyed X (concat cs)"
  shows "\<exists>acc'. fetch_batches X (ledger_server X net a ledger) (an_sequence a) config_id cs acc w =
    (Inr (Some acc'), w)"
  using key
proof (induction cs arbitrary: acc)
  case (Cons chunk cs)
  have key: "keyed X chunk" "keyed X (concat cs)" using Cons.prems by (simp_all add: keyed_def)
  let ?answer = "server_answer X ledger (map snd chunk)"
  note valid = server_batch_valid [OF laws ok key(1)]
  let ?ret = "bm_of_list (map (entry_binding X) ?answer)"
  have "extract_archival (bm_get ?ret config_id) = Inr settings" if member: "config_id \<in> fst ` set chunk"
  proof -
    obtain k where k: "k \<in> set (map snd chunk)" "key_to_xdr X k = Some config_id"
      using member key(1) by (force simp: keyed_def list_all_iff)
    show ?thesis
      using ok c by (simp add: validated_get [OF valid] server_lookup [OF laws k] ledger_ok_def)
  qed
  then obtain acc1 where acc1: "try_fold (record_entry ?ret config_id) acc chunk = Inr acc1"
    using record_chunk_runs by blast
  show ?case using Cons.IH [OF key(2), of acc1] by (cases acc1) (simp add: valid acc1)
qed (simp)

lemma serve_batches_server:
  "serve_batches (ledger_server X net a ledger) css w = (Inr bs, w') \<longleftrightarrow>
     w' = w \<and> bs = map (\<lambda>keys. \<lparr> eb_latest_ledger = an_sequence a,
       eb_entries = server_answer X ledger keys \<rparr>) css"
  by (induction css arbitrary: bs) auto

lemma server_batch_entry:
  assumes laws: "xdr_laws X" and "key \<in> set (concat css)" and "key_to_xdr X key = Some i"
  shows "batch_entry X (map (\<lambda>keys. \<lparr> eb_latest_ledger = n,
      eb_entries = server_answer X ledger keys \<rparr>) css) i = find (\<lambda>f. entry_id X f = Some i) ledger"
  using assms(2)
proof (induction css)
  case (Cons keys css)
  show ?case
  proof (cases "key \<in> set keys")
    case True
    have here: "find (\<lambda>f. entry_id X f = Some i) (server_answer X ledger keys) =
        find (\<lambda>f. entry_id X f = Some i) ledger"
      by (rule server_lookup [OF laws True assms(3)])
    show ?thesis
    proof (cases "find (\<lambda>f. entry_id X f = Some i) ledger")
      case None
      then have "\<forall>f\<in>set ledger. entry_id X f \<noteq> Some i" by (auto simp: find_None_iff)
      then have "find (\<lambda>f. entry_id X f = Some i)
          (concat (map (\<lambda>keys. server_answer X ledger keys) css)) = None"
        by (auto simp: find_None_iff server_answer_def)
      then show ?thesis using here None by (simp add: batch_entry_def find_append comp_def)
    qed (simp add: batch_entry_Cons here)
  next
    case False
    then have "key \<in> set (concat css)" using Cons.prems by simp
    note IH = Cons.IH [OF this]
    have "find (\<lambda>f. entry_id X f = Some i) (server_answer X ledger keys) = None"
    proof -
      have "entry_id X f \<noteq> Some i" if "f \<in> set (server_answer X ledger keys)" for f
        using that False key_to_xdr_inject [OF laws] assms(3)
        by (auto simp: server_answer_def entry_id_def)
      then show ?thesis by (auto simp: find_None_iff)
    qed
    then show ?thesis using IH by (simp add: batch_entry_Cons)
  qed
qed simp

definition ledger_valid :: "externals \<Rightarrow> anchor \<Rightarrow> state_archival_settings \<Rightarrow> fetched_entry list \<Rightarrow> bool" where
  "ledger_valid X a settings ledger \<longleftrightarrow>
     list_all (\<lambda>f. to_key X (fe_entry f) = state_archival_key \<or>
       state_valid X (an_sequence a) (sa_max_entry_ttl settings) (the (entry_id X f), state_of (Some f))) ledger"

lemma ledger_state_valid:
  assumes "ledger_valid X a settings ledger" and "key_to_xdr X state_archival_key = Some config_id"
    and "i \<noteq> config_id"
  shows "state_valid X (an_sequence a) (sa_max_entry_ttl settings) (i, ledger_state X ledger i)"
proof (cases "find (\<lambda>f. entry_id X f = Some i) ledger")
  case (Some f)
  then have f: "f \<in> set ledger" "entry_id X f = Some i" by (auto simp: find_Some_iff)
  then have "to_key X (fe_entry f) \<noteq> state_archival_key" using assms(2,3) by (auto simp: entry_id_def)
  then show ?thesis using assms(1) f Some by (auto simp: ledger_valid_def list_all_iff ledger_state_def)
qed (simp add: ledger_state_def state_of_def state_valid_Absent)

lemma server_found:
  assumes laws: "xdr_laws X" and ok: "ledger_ok X ledger settings"
    and c: "key_to_xdr X state_archival_key = Some config_id"
    and keys: "bm_ok keys" "keyed X keys"
  shows "\<exists>found. fetch_batches X (ledger_server X net a ledger) (an_sequence a) config_id
      (chunks max_keys_per_batch (bm_insert config_id state_archival_key keys)) ([], None) w =
        (Inr (Some found), w) \<and>
    bm_ok (fst found) \<and> snd found = Some settings \<and>
    (\<forall>i. bm_get (fst found) i =
       (if i \<in> bm_keys keys - {config_id} then Some (ledger_state X ledger i) else None))"
proof -
  let ?req = "bm_insert config_id state_archival_key keys"
  let ?css = "map (map snd) (chunks max_keys_per_batch ?req)"
  note req = requested_ok [OF keys c]
  have cs: "concat (chunks max_keys_per_batch ?req) = ?req"
    by (simp add: concat_chunks max_keys_per_batch_def)
  obtain found where run: "fetch_batches X (ledger_server X net a ledger) (an_sequence a) config_id
      (chunks max_keys_per_batch ?req) ([], None) w = (Inr (Some found), w)"
    using server_fetch_runs [OF laws ok c, of "chunks max_keys_per_batch ?req" net a "([], None)" w] req(2)
    unfolding cs by blast
  obtain bs where served: "serve_batches (ledger_server X net a ledger) ?css w = (Inr bs, w)"
      and found: "found_in X config_id bs (fst ` set ?req) ([], None) found"
    using fetch_batches_found [OF run] req(1,2) unfolding cs by (auto simp: bm_distinct)
  have "concat ?css = map snd ?req" using cs by (metis map_concat)
  then have entry: "batch_entry X bs i = find (\<lambda>f. entry_id X f = Some i) ledger"
    if "i \<in> insert config_id (bm_keys keys)" for i
  proof -
    have "i \<in> fst ` set ?req" unfolding req(3) by (rule that)
    then obtain key where key: "(i, key) \<in> set ?req" by (elim imageE) (metis prod.collapse)
    then have "key_to_xdr X key = Some i" using req(2) by (auto simp: keyed_def list_all_iff)
    moreover have "key \<in> set (concat ?css)"
      unfolding \<open>concat ?css = map snd ?req\<close> using key by (metis image_eqI set_map snd_conv)
    ultimately have "batch_entry X (map (\<lambda>keys. \<lparr> eb_latest_ledger = an_sequence a,
        eb_entries = server_answer X ledger keys \<rparr>) ?css) i = find (\<lambda>f. entry_id X f = Some i) ledger"
      using server_batch_entry [OF laws] by blast
    then show ?thesis using served unfolding serve_batches_server by simp
  qed
  have cfg: "extract_archival (batch_entry X bs config_id) = Inr settings"
    using ok c by (simp add: entry ledger_ok_def)
  have "bm_get (fst found) i =
      (if i \<in> bm_keys keys - {config_id} then Some (ledger_state X ledger i) else None)" for i
    using found entry [of i] by (auto simp: found_in_def req(3) ledger_state_def)
  moreover have "snd found = Some settings" "bm_ok (fst found)"
    using found cfg by (auto simp: found_in_def req(3))
  ultimately show ?thesis using run by blast
qed

text \<open>
  C36. On a ledger that does not change while it is read, materialising succeeds: the first
  attempt returns, for exactly the requested keys, what the ledger holds for them.
\<close>

theorem materialize_stable_ledger:
  assumes "xdr_laws X" and "ledger_ok X ledger settings" and "ledger_valid X a settings ledger"
    and c: "key_to_xdr X state_archival_key = Some config_id"
    and B: "cb_transport B = ledger_server X net a ledger" "cb_max_coherence_attempts B \<noteq> 0"
    and pol: "check_protocol X B (an_protocol_version a) = Inr ()"
    and keys: "bm_ok keys" "keyed X keys"
  shows "\<exists>m. materialize X B keys w = (Inr m, w) \<and> mt_anchor m = a \<and>
    (\<forall>i. bm_get (mt_coverage m) i =
       (if i \<in> bm_keys keys - {config_id} then Some (ledger_state X ledger i) else None))"
proof -
  obtain found where found: "fetch_batches X (ledger_server X net a ledger) (an_sequence a) config_id
      (chunks max_keys_per_batch (bm_insert config_id state_archival_key keys)) ([], None) w =
        (Inr (Some found), w)"
    and ok: "bm_ok (fst found)" "snd found = Some settings"
    and get: "\<And>i. bm_get (fst found) i =
       (if i \<in> bm_keys keys - {config_id} then Some (ledger_state X ledger i) else None)"
    using server_found [OF assms(1,2) c keys, of net a w] by blast
  have "state_valid X (an_sequence a) (sa_max_entry_ttl settings) (i, st)" if "(i, st) \<in> set (fst found)" for i st
  proof -
    have "bm_get (fst found) i = Some st" using that ok(1) by (simp add: bm_get_mem)
    then show ?thesis using ledger_state_valid [OF assms(3) c] get by (auto split: if_splits)
  qed
  then have "validate_coverage X (fst found) (an_sequence a) (sa_max_entry_ttl settings) = Inr ()"
    by (auto simp: validate_coverage_Inr list_all_iff)
  then obtain m where m: "finish_attempt X B a found = Inr m" "mt_coverage m = fst found"
    using ok(2) by (auto simp: finish_attempt_def)
  obtain n where n: "cb_max_coherence_attempts B = Suc n" using B(2) by (cases "cb_max_coherence_attempts B") auto
  obtain cov arch where pair: "found = (cov, arch)" by (cases found)
  have "materialize X B keys w = (Inr m, w)"
    using found m(1) pol by (simp add: materialize_def key_id_def c n Let_def B(1) pair)
  then show ?thesis using m finish_attempt_anchor [OF m(1)] get by auto
qed

end
