(* ===== verification/Sample_Capture.thy ===== *)
theory Sample_Capture
  imports Stable_Ledger
begin

text \<open>
  A small honest server for the witnesses: its ledger holds one contract instance, the code it
  runs and the archival settings. The witnesses of the properties of \<open>Materialize\<close> and
  \<open>Stable_Ledger\<close> are evaluated here on it.
\<close>

definition sample_contract :: sc_address where
  "sample_contract = ScAddress_Contract (replicate 32 3)"

definition sample_instance_entry :: ledger_entry where
  "sample_instance_entry = \<lparr> le_last_modified = 5,
     le_data = Data_ContractData \<lparr> cd_contract = sample_contract,
       cd_key = ScVal_LedgerKeyContractInstance, cd_durability = Persistent,
       cd_val = ScVal_ContractInstance \<lparr> executable = Wasm (sample_sha256 [1]), storage = None \<rparr> \<rparr>,
     le_ext = [] \<rparr>"

definition sample_settings :: state_archival_settings where
  "sample_settings = \<lparr> sa_max_entry_ttl = 50, sa_min_temporary_ttl = 1, sa_min_persistent_ttl = 1,
     sa_rest = [] \<rparr>"

definition sample_settings_entry :: ledger_entry where
  "sample_settings_entry = \<lparr> le_last_modified = 5,
     le_data = Data_ConfigSetting (Setting_StateArchival sample_settings), le_ext = [] \<rparr>"

definition sample_ledger :: "fetched_entry list" where
  "sample_ledger =
     [\<lparr> fe_entry = sample_settings_entry, fe_live_until = None \<rparr>,
      \<lparr> fe_entry = sample_code_entry 1, fe_live_until = Some 12 \<rparr>,
      \<lparr> fe_entry = sample_instance_entry, fe_live_until = Some 20 \<rparr>]"

definition sample_anchor :: anchor where
  "sample_anchor = \<lparr> an_sequence = 10, an_hash = ''aa'', an_protocol_version = 29,
     an_timestamp = 7, an_base_reserve = 100 \<rparr>"

definition sample_network :: network where
  "sample_network = \<lparr> nw_passphrase = ''net'', nw_protocol_version = 29 \<rparr>"

definition sample_builder :: "unit capture_builder" where
  "sample_builder = \<lparr> cb_network_passphrase = ''net'', cb_rpc_origin = ''https://h'',
     cb_transport = ledger_server sample_X sample_network sample_anchor sample_ledger,
     cb_protocol_policy = Exact, cb_max_coherence_attempts = 8, cb_max_discovery_rounds = 16 \<rparr>"

definition sample_instance_id :: key_id where
  "sample_instance_id = 6 # replicate 32 3"

definition sample_code_id :: key_id where
  "sample_code_id = 7 # sample_sha256 [1]"

definition sample_keys :: key_map where
  "sample_keys = [(sample_instance_id, contract_instance_key sample_contract)]"

definition sample_all_keys :: key_map where
  "sample_all_keys = [(sample_instance_id, contract_instance_key sample_contract),
     (sample_code_id, Key_ContractCode (sample_sha256 [1]))]"

definition sample_materialized :: "coverage \<Rightarrow> materialized" where
  "sample_materialized cov = \<lparr> mt_anchor = sample_anchor,
     mt_ledger_info = ledger_info_of sample_X ''net'' sample_anchor sample_settings,
     mt_coverage = cov \<rparr>"

definition sample_all_coverage :: coverage where
  "sample_all_coverage = [(sample_instance_id, Present sample_instance_entry (Some 20)),
     (sample_code_id, Present (sample_code_entry 1) (Some 12))]"

lemma sample_ids [simp]:
  "sample_key_to_xdr (contract_instance_key sample_contract) = Some sample_instance_id"
  "sample_key_to_xdr (Key_ContractCode (sample_sha256 [1])) = Some sample_code_id"
  "sample_key_to_xdr state_archival_key = Some [8]"
  "sample_to_key sample_instance_entry = contract_instance_key sample_contract"
  "sample_to_key sample_settings_entry = state_archival_key"
  by (simp_all add: sample_key_to_xdr_def contract_instance_key_def sample_contract_def
      sample_instance_id_def sample_code_id_def state_archival_key_def sample_to_key_def
      sample_instance_entry_def sample_settings_entry_def)

lemma sample_code_id_fold [simp]: "7 # sample_sha256 [1] = sample_code_id"
  by (simp only: sample_code_id_def)

lemma sample_id_order [simp]:
  "sample_instance_id < sample_code_id" "sample_instance_id < [8]" "sample_code_id < [8]"
  "\<not> [8] < sample_instance_id" "\<not> [8] < sample_code_id" "\<not> sample_code_id < sample_instance_id"
  "sample_instance_id \<noteq> sample_code_id" "sample_instance_id \<noteq> [8]" "sample_code_id \<noteq> [8]"
  "sample_code_id \<noteq> sample_instance_id" "[8] \<noteq> sample_instance_id" "[8] \<noteq> sample_code_id"
  by (simp_all add: sample_instance_id_def sample_code_id_def del: sample_code_id_fold)

lemma sample_keys_distinct [simp]:
  "contract_instance_key c \<noteq> Key_ContractCode h" "contract_instance_key c \<noteq> state_archival_key"
  "Key_ContractCode h \<noteq> state_archival_key"
  by (simp_all add: contract_instance_key_def state_archival_key_def)

lemma sample_entry_data [simp]:
  "le_data sample_settings_entry = Data_ConfigSetting (Setting_StateArchival sample_settings)"
  "instance_of (Present sample_instance_entry l) =
     Some \<lparr> executable = Wasm (sample_sha256 [1]), storage = None \<rparr>"
  "instance_of (Present (sample_code_entry 1) l) = None"
  by (simp_all add: sample_settings_entry_def instance_of_def sample_instance_entry_def
      sample_code_entry_def)

lemma sample_ledger_ok:
  "ledger_ok sample_X sample_ledger sample_settings"
  "ledger_valid sample_X sample_anchor sample_settings sample_ledger"
proof -
  show "ledger_ok sample_X sample_ledger sample_settings"
    by (simp add: ledger_ok_def sample_ledger_def entry_id_def extract_archival_def)
  show "ledger_valid sample_X sample_anchor sample_settings sample_ledger"
    by (simp add: ledger_valid_def sample_ledger_def entry_id_def state_of_def
        state_valid_Present sample_anchor_def sample_settings_def)
      (simp add: sample_instance_entry_def sample_code_entry_def live_window_def)
qed

lemma sample_keyed: "bm_ok sample_keys" "keyed sample_X sample_keys"
  by (simp_all add: sample_keys_def keyed_def)

lemma sample_builder_simps [simp]:
  "cb_network_passphrase sample_builder = ''net''"
  "cb_transport sample_builder = ledger_server sample_X sample_network sample_anchor sample_ledger"
  "cb_protocol_policy sample_builder = Exact"
  "cb_max_coherence_attempts sample_builder = 8"
  "cb_max_discovery_rounds sample_builder = 16"
  by (simp_all add: sample_builder_def)

lemma sample_protocol: "check_protocol sample_X sample_builder (an_protocol_version sample_anchor) = Inr ()"
  by (simp add: check_protocol_def policy_check_def sample_anchor_def)

lemma sample_materialize:
  assumes "bm_ok keys" and "keyed sample_X keys"
    and "bm_ok cov" and "\<And>i. bm_get cov i =
      (if i \<in> bm_keys keys - {[8]} then Some (ledger_state sample_X sample_ledger i) else None)"
  shows "materialize sample_X sample_builder keys () = (Inr (sample_materialized cov), ())"
proof -
  obtain found where run: "fetch_batches sample_X (ledger_server sample_X sample_network sample_anchor sample_ledger)
      (an_sequence sample_anchor) [8]
      (chunks max_keys_per_batch (bm_insert [8] state_archival_key keys)) ([], None) () =
        (Inr (Some found), ())"
    and found: "bm_ok (fst found)" "snd found = Some sample_settings"
      "\<And>i. bm_get (fst found) i = bm_get cov i"
    using server_found [OF sample_xdr_laws sample_ledger_ok(1) _ assms(1,2), of "[8]" sample_network
        sample_anchor "()"] assms(4) by auto
  have cov: "found = (cov, Some sample_settings)"
    using found assms(3) by (cases found) (auto intro: bm_ext)
  have valid: "validate_coverage sample_X cov (an_sequence sample_anchor) (sa_max_entry_ttl sample_settings) = Inr ()"
  proof -
    have "state_valid sample_X (an_sequence sample_anchor) (sa_max_entry_ttl sample_settings) (i, st)"
      if "(i, st) \<in> set cov" for i st
    proof -
      have "bm_get cov i = Some st" using that assms(3) by (simp add: bm_get_mem)
      then show ?thesis
        using assms(4) ledger_state_valid [OF sample_ledger_ok(2), of "[8]" i] by (auto split: if_splits)
    qed
    then show ?thesis by (auto simp: validate_coverage_Inr list_all_iff)
  qed
  have "coherence_loop sample_X sample_builder [8] (bm_insert [8] state_archival_key keys) (Suc n) () =
      (Inr (sample_materialized cov), ())" for n
    using sample_protocol run valid
    by (simp add: Let_def cov finish_attempt_def sample_materialized_def)
  from this [of 7] show ?thesis by (simp add: materialize_def key_id_def)
qed

lemma sample_run_keys:
  "materialize sample_X sample_builder sample_keys () =
     (Inr (sample_materialized [(sample_instance_id, Present sample_instance_entry (Some 20))]), ())"
  by (rule sample_materialize)
    (auto simp: sample_keys_def keyed_def ledger_state_def sample_ledger_def entry_id_def state_of_def)

lemma sample_run_all_keys:
  "materialize sample_X sample_builder sample_all_keys () =
     (Inr (sample_materialized sample_all_coverage), ())"
  by (rule sample_materialize)
    (auto simp: sample_all_keys_def sample_all_coverage_def keyed_def ledger_state_def
      sample_ledger_def entry_id_def state_of_def)

lemma sample_expand:
  "expand_code_closure sample_X sample_builder sample_keys
     (sample_materialized [(sample_instance_id, Present sample_instance_entry (Some 20))]) () =
   (Inr (sample_all_keys, sample_materialized sample_all_coverage), ())"
proof -
  let ?m = "sample_materialized [(sample_instance_id, Present sample_instance_entry (Some 20))]"
  have cov: "mt_coverage (sample_materialized c) = c" for c by (simp add: sample_materialized_def)
  have req: "required_keys sample_X [(sample_instance_id, Present sample_instance_entry (Some 20))] =
      Inr [Key_ContractCode (sample_sha256 [1])]"
    by (simp add: required_keys_def required_by_def)
  have req2: "required_keys sample_X sample_all_coverage = Inr [Key_ContractCode (sample_sha256 [1])]"
    by (simp add: sample_all_coverage_def required_keys_def required_by_def)
  have add: "try_fold (add_key sample_X) (sample_keys, 0) [Key_ContractCode (sample_sha256 [1])] =
      Inr (sample_all_keys, 1)"
    by (simp add: add_key_def key_id_def sample_keys_def sample_all_keys_def)
  have add2: "try_fold (add_key sample_X) (sample_all_keys, 0) [Key_ContractCode (sample_sha256 [1])] =
      Inr (sample_all_keys, 0)"
    by (simp add: add_key_def key_id_def sample_all_keys_def)
  have closed: "ensure_executable_closure_present sample_X sample_all_coverage = Inr ()"
    by (simp add: ensure_executable_closure_Inr closed_binding_def sample_all_coverage_def
        instance_closed_def code_present_def)
  have "closure_loop sample_X sample_builder (Suc (Suc n)) sample_keys ?m () =
      (Inr (sample_all_keys, sample_materialized sample_all_coverage), ())" for n
    using sample_run_all_keys
    by (simp add: sbind_def slift_def sret_def req req2 add add2 closed cov del: try_fold.simps)
  from this [of 15] show ?thesis
    by (simp add: expand_code_closure_def max_executable_closure_rounds_def)
qed

theorem materialize_stable_ledger_witness:
  "\<exists>m. materialize sample_X sample_builder sample_keys () = (Inr m, ()) \<and> mt_anchor m = sample_anchor \<and>
     (\<forall>i. bm_get (mt_coverage m) i =
       (if i \<in> bm_keys sample_keys - {[8]} then Some (ledger_state sample_X sample_ledger i) else None))"
  by (rule materialize_stable_ledger [OF sample_xdr_laws sample_ledger_ok])
    (simp_all add: sample_keyed sample_protocol)

theorem materialize_is_coherent_witness:
  "\<exists>config_id w2 batches. key_to_xdr sample_X state_archival_key = Some config_id \<and>
    serve_batches (cb_transport sample_builder) (chunks max_keys_per_batch
      (map snd (bm_insert config_id state_archival_key sample_keys))) w2 = (Inr batches, ()) \<and>
    batch_entry sample_X batches sample_instance_id =
      Some \<lparr> fe_entry = sample_instance_entry, fe_live_until = Some 20 \<rparr>"
proof -
  obtain config_id w1 w2 w3 batches where b: "key_to_xdr sample_X state_archival_key = Some config_id"
    "serve_batches (cb_transport sample_builder) (chunks max_keys_per_batch
      (map snd (bm_insert config_id state_archival_key sample_keys))) w2 = (Inr batches, w3)"
    and get: "\<forall>i. bm_get [(sample_instance_id, Present sample_instance_entry (Some 20))] i =
       (if i \<in> bm_keys sample_keys - {config_id} then Some (state_of (batch_entry sample_X batches i)) else None)"
    using materialize_is_coherent [OF sample_run_keys sample_keyed] by (auto simp: sample_materialized_def)
  have "state_of (batch_entry sample_X batches sample_instance_id) = Present sample_instance_entry (Some 20)"
    using get [rule_format, of sample_instance_id] by (simp split: if_splits)
  then have "batch_entry sample_X batches sample_instance_id =
      Some \<lparr> fe_entry = sample_instance_entry, fe_live_until = Some 20 \<rparr>"
    by (cases "batch_entry sample_X batches sample_instance_id") (auto simp: state_of_def)
  then show ?thesis using b by auto
qed

theorem expansion_is_closed_witness:
  "materialized_ok sample_X sample_builder sample_all_keys (sample_materialized sample_all_coverage) \<and>
   bm_keys sample_keys \<subseteq> bm_keys sample_all_keys"
  using expansion_is_closed [OF sample_expand materialize_ok [OF sample_run_keys sample_keyed]] by simp

end
