(* ===== verification/Runtime.thy ===== *)
theory Runtime
  imports Sample_Capture
begin

text \<open>
  Isolated forks: \<open>src/runtime.rs\<close>. The SDK's test environment (\<open>Env\<close>) is a parameter: the
  record \<open>sdk\<close> of the functions the program calls on it. An environment executes the protocol
  chosen by \<open>fork_env\<close>; everything reported outside keeps the network protocol. The locale
  \<open>checkpointable\<close> is the contract of checkpoint and revert, shared with the strict fork.
\<close>

subsection \<open>The environment\<close>

type_synonym auth_tree = "sc_address \<times> bytes"
type_synonym detached_event = "bytes \<times> bool"

text \<open>The SDK's \<open>Snapshot\<close>; \<open>sk_rest\<close> are the generators and whatever else it carries.\<close>

record sdk_snapshot =
  sk_ledger :: ledger_snapshot
  sk_auth :: "auth_tree list list"
  sk_events :: "detached_event list"
  sk_rest :: bytes

record 'env sdk =
  sdk_source_input :: "ledger_snapshot \<Rightarrow> ledger_info option \<times> ledger_snapshot option"
  sdk_from_ledger_snapshot :: "ledger_info option \<Rightarrow> ledger_snapshot option \<Rightarrow> 'env"
  sdk_from_snapshot :: "sdk_snapshot \<Rightarrow> 'env"
  sdk_to_ledger_snapshot :: "'env \<Rightarrow> ledger_snapshot"
  sdk_to_snapshot :: "'env \<Rightarrow> sdk_snapshot"
  sdk_configure :: "'env \<Rightarrow> 'env"
  sdk_register :: "bytes \<Rightarrow> sc_val list \<Rightarrow> 'env \<Rightarrow> sc_address \<times> 'env"

datatype fork_env_seed =
    Seed_Ledger "ledger_info option" "ledger_snapshot option"
  | Seed_Snapshot sdk_snapshot

definition execute_info :: "externals \<Rightarrow> ledger_info \<Rightarrow> ledger_info" where
  "execute_info X info =
     info\<lparr>li_protocol_version := executed_protocol_version X (li_protocol_version info)\<rparr>"

definition execute_snapshot :: "externals \<Rightarrow> sdk_snapshot \<Rightarrow> sdk_snapshot" where
  "execute_snapshot X s = s\<lparr>sk_ledger := (sk_ledger s)\<lparr>sn_protocol_version :=
     executed_protocol_version X (sn_protocol_version (sk_ledger s))\<rparr>\<rparr>"

definition fork_env :: "externals \<Rightarrow> 'env sdk \<Rightarrow> fork_env_seed \<Rightarrow> 'env" where
  "fork_env X S seed =
     sdk_configure S
       (case seed of
          Seed_Ledger info snapshot \<Rightarrow>
            sdk_from_ledger_snapshot S (map_option (execute_info X) info) snapshot
        | Seed_Snapshot snapshot \<Rightarrow> sdk_from_snapshot S (execute_snapshot X snapshot))"

definition network_ledger_snapshot :: "externals \<Rightarrow> 'env sdk \<Rightarrow> 'env \<Rightarrow> u32 \<Rightarrow> ledger_snapshot" where
  "network_ledger_snapshot X S env network =
     (let s = sdk_to_ledger_snapshot S env in
      s\<lparr>sn_protocol_version := restore_network_protocol X (sn_protocol_version s) network\<rparr>)"

subsection \<open>Forks\<close>

record 'env fork =
  fk_id :: u64
  fk_env :: 'env
  fk_network_protocol_version :: u32

record checkpoint =
  cp_fork_id :: u64
  cp_snapshot :: sdk_snapshot

text \<open>
  \<open>NEXT_FORK_ID.fetch_add(1)\<close> returns the counter and steps it with wrap-around; \<open>None\<close> is the
  panic of the assertion that the id is not zero.
\<close>

definition next_id :: "u64 \<Rightarrow> u64 option \<times> u64" where
  "next_id counter = (if counter = 0 then None else Some counter, counter + 1)"

definition fork_from_fixture ::
  "externals \<Rightarrow> 'env sdk \<Rightarrow> frozen_fixture \<Rightarrow> u64 \<Rightarrow> 'env fork option \<times> u64" where
  "fork_from_fixture X S fixture counter =
     (case next_id counter of
        (None, counter') \<Rightarrow> (None, counter')
      | (Some i, counter') \<Rightarrow>
          let s = ff_snapshot fixture in
          (Some \<lparr> fk_id = i,
                  fk_env = fork_env X S (case sdk_source_input S s of (info, base) \<Rightarrow> Seed_Ledger info base),
                  fk_network_protocol_version = sn_protocol_version s \<rparr>, counter'))"

definition fork_executed_protocol_version :: "externals \<Rightarrow> 'env fork \<Rightarrow> u32" where
  "fork_executed_protocol_version X f = executed_protocol_version X (fk_network_protocol_version f)"

definition register_wasm ::
  "externals \<Rightarrow> 'env sdk \<Rightarrow> bytes \<Rightarrow> bytes \<Rightarrow> sc_val list \<Rightarrow> 'env fork
    \<Rightarrow> (runtime_error + sc_address) \<times> 'env fork" where
  "register_wasm X S wasm expected_sha256 constructor_args f =
     (let actual_sha256 = sha256 X wasm in
      if actual_sha256 \<noteq> expected_sha256
      then (Inl (WasmHashMismatch expected_sha256 actual_sha256), f)
      else case sdk_register S wasm constructor_args (fk_env f) of
        (address, env') \<Rightarrow> (Inr address, f\<lparr>fk_env := env'\<rparr>))"

definition fork_checkpoint :: "externals \<Rightarrow> 'env sdk \<Rightarrow> 'env fork \<Rightarrow> checkpoint" where
  "fork_checkpoint X S f =
     (let s = sdk_to_snapshot S (fk_env f) in
      \<lparr> cp_fork_id = fk_id f,
        cp_snapshot = s\<lparr>sk_ledger := (sk_ledger s)\<lparr>sn_protocol_version :=
          restore_network_protocol X (sn_protocol_version (sk_ledger s))
            (fk_network_protocol_version f)\<rparr>\<rparr> \<rparr>)"

definition fork_revert ::
  "externals \<Rightarrow> 'env sdk \<Rightarrow> checkpoint \<Rightarrow> 'env fork \<Rightarrow> runtime_error + 'env fork" where
  "fork_revert X S c f =
     (if cp_fork_id c \<noteq> fk_id f then Inl CheckpointMismatch
      else Inr (f\<lparr>fk_env := fork_env X S (Seed_Snapshot (cp_snapshot c))\<rparr>))"

definition fork_ledger_snapshot :: "externals \<Rightarrow> 'env sdk \<Rightarrow> 'env fork \<Rightarrow> ledger_snapshot" where
  "fork_ledger_snapshot X S f = network_ledger_snapshot X S (fk_env f) (fk_network_protocol_version f)"

definition fork_ledger_digest :: "externals \<Rightarrow> 'env sdk \<Rightarrow> 'env fork \<Rightarrow> fixture_error + bytes" where
  "fork_ledger_digest X S f = canonical_ledger_digest X (fork_ledger_snapshot X S f)"

subsection \<open>What the SDK promises\<close>

text \<open>
  The documented behaviour relied on: a ledger snapshot converts into a source with its own
  ledger info and itself as base; an environment made from ledger info and a base snapshot
  holds that info's metadata and the snapshot's entries (in any order); one made from an SDK
  snapshot holds exactly it; and configuring changes no ledger state.
\<close>

definition sdk_laws :: "externals \<Rightarrow> 'env sdk \<Rightarrow> bool" where
  "sdk_laws X S \<longleftrightarrow>
     (\<forall>s. sdk_source_input S s = (Some (snapshot_ledger_info X s), Some s)) \<and>
     (\<forall>info s.
        (\<exists>es. mset es = mset (sn_ledger_entries s) \<and>
           sdk_to_ledger_snapshot S (sdk_configure S (sdk_from_ledger_snapshot S (Some info) (Some s))) =
           \<lparr> sn_protocol_version = li_protocol_version info,
             sn_sequence_number = li_sequence_number info,
             sn_timestamp = li_timestamp info,
             sn_network_id = li_network_id info,
             sn_base_reserve = li_base_reserve info,
             sn_min_persistent_entry_ttl = li_min_persistent_entry_ttl info,
             sn_min_temp_entry_ttl = li_min_temp_entry_ttl info,
             sn_max_entry_ttl = li_max_entry_ttl info,
             sn_ledger_entries = es \<rparr>)) \<and>
     (\<forall>s. sdk_to_ledger_snapshot S (sdk_configure S (sdk_from_snapshot S s)) = sk_ledger s) \<and>
     (\<forall>env. sk_ledger (sdk_to_snapshot S env) = sdk_to_ledger_snapshot S env)"

subsection \<open>Checkpoints\<close>

locale checkpointable =
  fixes ident :: "'f \<Rightarrow> u64"
    and owner :: "'c \<Rightarrow> u64"
    and save :: "'f \<Rightarrow> 'c"
    and restore :: "'c \<Rightarrow> 'f \<Rightarrow> 'e + 'f"
    and observe_state :: "'f \<Rightarrow> 'o"
    and compatible :: "'f \<Rightarrow> 'f \<Rightarrow> bool"
    and mismatch :: 'e
  assumes save_owner: "owner (save f) = ident f"
    and foreign: "owner c \<noteq> ident g \<Longrightarrow> restore c g = Inl mismatch"
    and own: "compatible f g \<Longrightarrow> ident g = ident f \<Longrightarrow>
      \<exists>h. restore (save f) g = Inr h \<and> ident h = ident f \<and> compatible f h \<and>
        observe_state h = observe_state f"
begin

lemma restore_iff:
  "compatible f g \<Longrightarrow>
     (\<exists>h. restore (save f) g = Inr h \<and> observe_state h = observe_state f) \<longleftrightarrow> ident g = ident f"
  using own [of f g] foreign [of "save f" g] by (cases "ident g = ident f") (auto simp: save_owner)

lemma restore_twice:
  assumes "compatible f g" and "ident g = ident f"
  shows "\<exists>h k. restore (save f) g = Inr h \<and> restore (save f) h = Inr k \<and>
    observe_state k = observe_state f"
proof -
  obtain h where "restore (save f) g = Inr h" "ident h = ident f" "compatible f h"
    using own [OF assms] by blast
  moreover from this obtain k where "restore (save f) h = Inr k" "observe_state k = observe_state f"
    using own by blast
  ultimately show ?thesis by blast
qed

end

text \<open>An environment executes an accepted network protocol, as every one made by \<open>fork_env\<close> does.\<close>

definition executes :: "externals \<Rightarrow> 'env sdk \<Rightarrow> 'env fork \<Rightarrow> bool" where
  "executes X S f \<longleftrightarrow> sn_protocol_version (sdk_to_ledger_snapshot S (fk_env f)) =
     executed_protocol_version X (fk_network_protocol_version f)"

definition fork_compatible :: "externals \<Rightarrow> 'env sdk \<Rightarrow> 'env fork \<Rightarrow> 'env fork \<Rightarrow> bool" where
  "fork_compatible X S f g \<longleftrightarrow> sdk_laws X S \<and> executes X S f \<and>
     fk_network_protocol_version g = fk_network_protocol_version f"

interpretation fork: checkpointable fk_id cp_fork_id "fork_checkpoint X S" "fork_revert X S"
    "fork_ledger_snapshot X S" "fork_compatible X S" CheckpointMismatch
  for X :: externals and S :: "'env sdk"
proof unfold_locales
  fix f g :: "'env fork"
  assume c: "fork_compatible X S f g" and i: "fk_id g = fk_id f"
  let ?h = "g\<lparr>fk_env := fork_env X S (Seed_Snapshot (cp_snapshot (fork_checkpoint X S f)))\<rparr>"
  have law: "sdk_to_ledger_snapshot S (sdk_configure S (sdk_from_snapshot S s)) = sk_ledger s"
      "sk_ledger (sdk_to_snapshot S env) = sdk_to_ledger_snapshot S env" for s env
    using c by (simp_all add: fork_compatible_def sdk_laws_def)
  have "fork_ledger_snapshot X S ?h = fork_ledger_snapshot X S f"
    using c by (simp add: fork_ledger_snapshot_def network_ledger_snapshot_def fork_env_def
        fork_checkpoint_def Let_def execute_snapshot_def law fork_compatible_def executes_def)
  moreover have "fork_revert X S (fork_checkpoint X S f) g = Inr ?h"
    using i by (simp add: fork_revert_def fork_checkpoint_def Let_def)
  ultimately show "\<exists>h. fork_revert X S (fork_checkpoint X S f) g = Inr h \<and> fk_id h = fk_id f \<and>
      fork_compatible X S f h \<and> fork_ledger_snapshot X S h = fork_ledger_snapshot X S f"
    using c i by (auto simp: fork_compatible_def)
qed (simp_all add: fork_checkpoint_def fork_revert_def Let_def)

lemma from_ledger_law:
  assumes "sdk_laws X S"
  obtains es where "mset es = mset (sn_ledger_entries s)"
    and "sdk_to_ledger_snapshot S (sdk_configure S (sdk_from_ledger_snapshot S (Some info) (Some s))) =
      \<lparr> sn_protocol_version = li_protocol_version info, sn_sequence_number = li_sequence_number info,
        sn_timestamp = li_timestamp info, sn_network_id = li_network_id info,
        sn_base_reserve = li_base_reserve info,
        sn_min_persistent_entry_ttl = li_min_persistent_entry_ttl info,
        sn_min_temp_entry_ttl = li_min_temp_entry_ttl info,
        sn_max_entry_ttl = li_max_entry_ttl info, sn_ledger_entries = es \<rparr>"
  using assms unfolding sdk_laws_def by blast

text \<open>A fork environment made from a snapshot and its own info reports that snapshot.\<close>

lemma fork_env_reports:
  assumes "sdk_laws X S" and "ledger_info_laws X"
  obtains es where "mset es = mset (sn_ledger_entries s)"
    and "network_ledger_snapshot X S
      (fork_env X S (Seed_Ledger (Some (snapshot_ledger_info X s)) (Some s))) (sn_protocol_version s) =
      s\<lparr>sn_ledger_entries := es\<rparr>"
    and "sn_protocol_version (sdk_to_ledger_snapshot S
      (fork_env X S (Seed_Ledger (Some (snapshot_ledger_info X s)) (Some s)))) =
      executed_protocol_version X (sn_protocol_version s)"
proof -
  have info: "snapshot_ledger_info X s =
      \<lparr> li_protocol_version = sn_protocol_version s, li_sequence_number = sn_sequence_number s,
        li_timestamp = sn_timestamp s, li_network_id = sn_network_id s,
        li_base_reserve = sn_base_reserve s,
        li_min_persistent_entry_ttl = sn_min_persistent_entry_ttl s,
        li_min_temp_entry_ttl = sn_min_temp_entry_ttl s, li_max_entry_ttl = sn_max_entry_ttl s \<rparr>"
    using assms(2) by (simp add: ledger_info_laws_def)
  obtain es where es: "mset es = mset (sn_ledger_entries s)"
    and reported: "sdk_to_ledger_snapshot S (sdk_configure S (sdk_from_ledger_snapshot S
        (Some (execute_info X (snapshot_ledger_info X s))) (Some s))) =
      s\<lparr>sn_protocol_version := executed_protocol_version X (sn_protocol_version s),
        sn_ledger_entries := es\<rparr>"
    by (rule from_ledger_law [OF assms(1), of s "execute_info X (snapshot_ledger_info X s)"])
      (simp add: execute_info_def info)
  show thesis
    by (rule that [OF es])
      (simp_all add: network_ledger_snapshot_def fork_env_def reported Let_def)
qed

subsection \<open>Properties\<close>

text \<open>
  A fresh fork is the fixture: the digest it reports equals the fixture's ledger digest,
  also when the network's protocol is one newer than the one executed.
\<close>

theorem fresh_fork_digest:
  assumes "sdk_laws X S" and "ledger_info_laws X"
    and "from_snapshot_with_policy X s passphrase policy = Inr fixture"
    and "fork_from_fixture X S fixture counter = (Some f, counter')"
  shows "fork_ledger_digest X S f = Inr (ff_ledger_digest fixture) \<and>
    fork_executed_protocol_version X f = supported_protocol_version X \<and> executes X S f"
proof -
  have fx: "ff_snapshot fixture = s" "canonical_ledger_digest X s = Inr (ff_ledger_digest fixture)"
      "policy_check X policy (sn_protocol_version s) = Inr ()"
    using assms(3) by (auto simp: from_snapshot_with_policy_def Let_def split: if_splits)
  have input: "sdk_source_input S s = (Some (snapshot_ledger_info X s), Some s)"
    using assms(1) by (simp add: sdk_laws_def)
  then have f: "fk_env f = fork_env X S (Seed_Ledger (Some (snapshot_ledger_info X s)) (Some s))"
      "fk_network_protocol_version f = sn_protocol_version s"
    using assms(4) by (auto simp: fork_from_fixture_def fx Let_def split: prod.splits option.splits)
  obtain es where es: "mset es = mset (sn_ledger_entries s)"
    and snap: "fork_ledger_snapshot X S f = s\<lparr>sn_ledger_entries := es\<rparr>"
    and ex: "executes X S f"
    using fork_env_reports [OF assms(1,2), of s] by (metis f fork_ledger_snapshot_def executes_def)
  have "canonical_ledger_digest X (s\<lparr>sn_ledger_entries := es\<rparr>) = canonical_ledger_digest X s"
    using canonical_digest_same [OF fx(2) es] fx(2) by simp
  then show ?thesis
    using ex fx executed_of_accepted [OF fx(3)]
    by (simp add: fork_ledger_digest_def snap fork_executed_protocol_version_def f)
qed

text \<open>
  C34. Checkpoint and revert: reverting a fork to a checkpoint taken from it brings back exactly
  the ledger it reported then, whatever happened in between and also after a first revert; a
  checkpoint of another fork is refused and nothing changes.
\<close>

theorem fork_revert_restores:
  assumes "sdk_laws X S" and "executes X S f"
    and "fk_network_protocol_version g = fk_network_protocol_version f"
  shows "if fk_id g = fk_id f
    then \<exists>h k. fork_revert X S (fork_checkpoint X S f) g = Inr h \<and>
      fork_revert X S (fork_checkpoint X S f) h = Inr k \<and>
      fork_ledger_snapshot X S h = fork_ledger_snapshot X S f \<and>
      fork_ledger_snapshot X S k = fork_ledger_snapshot X S f
    else fork_revert X S (fork_checkpoint X S f) g = Inl CheckpointMismatch"
proof (cases "fk_id g = fk_id f")
  case True
  have c: "fork_compatible X S f g" using assms by (simp add: fork_compatible_def)
  then show ?thesis
    using fork.restore_twice [OF c True] fork.own [OF c True] True by force
next
  case False
  then have "cp_fork_id (fork_checkpoint X S f) \<noteq> fk_id g"
    by (simp add: fork.save_owner)
  then show ?thesis using False by (simp add: fork.foreign)
qed

subsection \<open>A sample SDK\<close>

definition sample_of_info :: "ledger_info option \<Rightarrow> ledger_snapshot option \<Rightarrow> sdk_snapshot" where
  "sample_of_info info base =
     \<lparr> sk_ledger = (case (info, base) of
          (Some i, Some s) \<Rightarrow>
            \<lparr> sn_protocol_version = li_protocol_version i, sn_sequence_number = li_sequence_number i,
              sn_timestamp = li_timestamp i, sn_network_id = li_network_id i,
              sn_base_reserve = li_base_reserve i,
              sn_min_persistent_entry_ttl = li_min_persistent_entry_ttl i,
              sn_min_temp_entry_ttl = li_min_temp_entry_ttl i,
              sn_max_entry_ttl = li_max_entry_ttl i, sn_ledger_entries = sn_ledger_entries s \<rparr>
        | (_, Some s) \<Rightarrow> s
        | _ \<Rightarrow> sample_snapshot),
       sk_auth = [], sk_events = [], sk_rest = [] \<rparr>"

definition sample_sdk :: "sdk_snapshot sdk" where
  "sample_sdk = \<lparr> sdk_source_input = (\<lambda>s. (Some (snapshot_ledger_info sample_X s), Some s)),
     sdk_from_ledger_snapshot = sample_of_info, sdk_from_snapshot = (\<lambda>s. s),
     sdk_to_ledger_snapshot = sk_ledger, sdk_to_snapshot = (\<lambda>s. s), sdk_configure = (\<lambda>s. s),
     sdk_register = (\<lambda>wasm args env. (sample_contract, env)) \<rparr>"

lemma sample_sdk_laws: "sdk_laws sample_X sample_sdk"
  by (simp add: sdk_laws_def sample_sdk_def sample_of_info_def)

definition sample_fixture :: frozen_fixture where
  "sample_fixture = \<lparr> ff_snapshot = sample_snapshot,
     ff_ledger_digest = projr (canonical_ledger_digest sample_X sample_snapshot) \<rparr>"

lemma sample_fixture_accepted:
  "from_snapshot_with_policy sample_X sample_snapshot ''net'' Exact = Inr sample_fixture"
proof -
  obtain xs where "sorted_entries sample_X sample_snapshot = Inr xs" using sample_sorted ..
  moreover have "sn_protocol_version sample_snapshot = 29"
      "sn_network_id sample_snapshot = sample_sha256 (str_bytes ''net'')"
    by (simp_all add: sample_snapshot_def)
  ultimately show ?thesis
    by (simp add: from_snapshot_with_policy_def sample_fixture_def canonical_ledger_digest_def
        policy_check_def and_then_def map_err_def)
qed

definition sample_fork :: "sdk_snapshot fork" where
  "sample_fork = the (fst (fork_from_fixture sample_X sample_sdk sample_fixture 7))"

lemma sample_fork_created:
  "fork_from_fixture sample_X sample_sdk sample_fixture 7 = (Some sample_fork, 8)"
  by (simp add: sample_fork_def fork_from_fixture_def next_id_def Let_def split: prod.split)

theorem fresh_fork_digest_witness:
  "fork_ledger_digest sample_X sample_sdk sample_fork = Inr (ff_ledger_digest sample_fixture)"
  using fresh_fork_digest [OF sample_sdk_laws sample_ledger_info_laws sample_fixture_accepted
      sample_fork_created] by blast

lemma sample_fork_executes: "executes sample_X sample_sdk sample_fork"
  by (simp add: executes_def sample_fork_def fork_from_fixture_def next_id_def sample_sdk_def
      fork_env_def sample_of_info_def execute_info_def Let_def sample_X_def)

theorem fork_revert_restores_witness:
  "\<exists>h k. fork_revert sample_X sample_sdk (fork_checkpoint sample_X sample_sdk sample_fork) sample_fork = Inr h \<and>
      fork_revert sample_X sample_sdk (fork_checkpoint sample_X sample_sdk sample_fork) h = Inr k \<and>
      fork_ledger_snapshot sample_X sample_sdk h = fork_ledger_snapshot sample_X sample_sdk sample_fork \<and>
      fork_ledger_snapshot sample_X sample_sdk k = fork_ledger_snapshot sample_X sample_sdk sample_fork"
  using fork_revert_restores [OF sample_sdk_laws sample_fork_executes, of sample_fork] by simp

end
