(* ===== verification/Capture.thy ===== *)
theory Capture
  imports Runtime
begin

text \<open>
  Capturing: \<open>capture_ref_from_keys\<close> and what it calls, \<open>CapturedFixture\<close> and
  \<open>replay_with_local\<close> of \<open>src/capture.rs\<close>. A scenario maps the environment it is given to the
  script that the Host and the closure run against the source. Capturing runs it again and
  again on the state materialised so far, until a pass reads nothing new; the lemmas show that
  the fixture it returns then replays without RPC, with the very run of that last pass.
\<close>

text \<open>A result, an error, or the panic of an \<open>expect\<close> that is not contained.\<close>

datatype 'e fault = Error 'e | Panicked

record capture_report =
  cr_discovery_rounds :: nat
  cr_present_entries :: nat
  cr_absent_entries :: nat
  cr_inventory_digest :: bytes
  cr_final_replay_rpc_reads :: u64

record capture_provenance =
  pv_rpc_origin :: string
  pv_network_passphrase :: string
  pv_ledger_sequence :: u32
  pv_ledger_hash :: string
  pv_protocol_version :: u32

record captured_fixture =
  cf_fixture :: frozen_fixture
  cf_coverage :: coverage
  cf_report :: capture_report
  cf_provenance :: capture_provenance

definition provenance_executed_protocol_version :: "externals \<Rightarrow> capture_provenance \<Rightarrow> u32" where
  "provenance_executed_protocol_version X p = executed_protocol_version X (pv_protocol_version p)"

definition known_absent_keys :: "captured_fixture \<Rightarrow> key_id list" where
  "known_absent_keys f =
     map fst (filter (\<lambda>(key, state). case state of Absent \<Rightarrow> True | Present e l \<Rightarrow> False) (cf_coverage f))"

subsection \<open>From a materialised state to an environment\<close>

definition snapshot_entry_of :: "externals \<Rightarrow> key_id \<times> lookup_state \<Rightarrow> capture_error + snapshot_entry list" where
  "snapshot_entry_of X = (\<lambda>(i, state).
     case state of
       Absent \<Rightarrow> Inr []
     | Present entry live_until \<Rightarrow>
         (let key = to_key X entry in
          if is_state_archival_key key then Inl InternalInvariant
          else and_then (key_id X key) (\<lambda>derived.
            if i \<noteq> derived then Inl InternalInvariant else Inr [(key, (entry, live_until))])))"

definition snapshot_from_materialized :: "externals \<Rightarrow> materialized \<Rightarrow> capture_error + ledger_snapshot" where
  "snapshot_from_materialized X m =
     and_then (try_map (snapshot_entry_of X) (mt_coverage m)) (\<lambda>entries.
       let info = mt_ledger_info m in
       Inr \<lparr> sn_protocol_version = li_protocol_version info,
             sn_sequence_number = li_sequence_number info,
             sn_timestamp = li_timestamp info,
             sn_network_id = li_network_id info,
             sn_base_reserve = li_base_reserve info,
             sn_min_persistent_entry_ttl = li_min_persistent_entry_ttl info,
             sn_min_temp_entry_ttl = li_min_temp_entry_ttl info,
             sn_max_entry_ttl = li_max_entry_ttl info,
             sn_ledger_entries = concat entries \<rparr>)"

definition env_from_materialized ::
  "externals \<Rightarrow> 'env sdk \<Rightarrow> materialized \<Rightarrow> capture_error fault + 'env" where
  "env_from_materialized X S m =
     (case snapshot_from_materialized X m of
        Inl e \<Rightarrow> Inl Panicked
      | Inr snapshot \<Rightarrow> Inr (fork_env X S (Seed_Ledger (Some (mt_ledger_info m)) (Some snapshot))))"

subsection \<open>Network checks\<close>

definition validate_network :: "externals \<Rightarrow> 'w capture_builder \<Rightarrow> ('w, capture_error, unit) act" where
  "validate_network X B =
     sbind (smap_err Transport (tr_network (cb_transport B))) (\<lambda>network.
       if nw_passphrase network \<noteq> cb_network_passphrase B then sfail NetworkMismatch
       else slift (check_protocol X B (nw_protocol_version network)))"

definition current_anchor :: "externals \<Rightarrow> 'w capture_builder \<Rightarrow> ('w, capture_error, anchor) act" where
  "current_anchor X B =
     sbind (smap_err Transport (tr_latest_ledger (cb_transport B))) (\<lambda>anchor.
     sbind (slift (check_protocol X B (an_protocol_version anchor))) (\<lambda>_. sret anchor))"

subsection \<open>Discovery\<close>

definition with_stored ::
  "externals \<Rightarrow> local_ledger \<Rightarrow> key_map \<Rightarrow> ledger_key list \<Rightarrow> capture_error + key_map" where
  "with_stored X local requested stored =
     try_fold (\<lambda>req key. if owns local key then Inr req
         else and_then (key_id X key) (\<lambda>i. Inr (bm_insert i key req))) requested stored"

definition finish_capture ::
  "externals \<Rightarrow> 'w capture_builder \<Rightarrow> nat \<Rightarrow> materialized \<Rightarrow> capture_error + captured_fixture" where
  "finish_capture X B round m =
     and_then (snapshot_from_materialized X m) (\<lambda>snapshot.
     and_then (map_err Fixture (from_snapshot_with_policy X snapshot (cb_network_passphrase B)
         (cb_protocol_policy B))) (\<lambda>fixture.
     and_then (inventory_digest X (mt_coverage m)) (\<lambda>digest.
       Inr \<lparr> cf_fixture = fixture, cf_coverage = mt_coverage m,
             cf_report = \<lparr> cr_discovery_rounds = round,
               cr_present_entries = present_entries (mt_coverage m),
               cr_absent_entries = absent_entries (mt_coverage m),
               cr_inventory_digest = digest, cr_final_replay_rpc_reads = 0 \<rparr>,
             cf_provenance = \<lparr> pv_rpc_origin = cb_rpc_origin B,
               pv_network_passphrase = cb_network_passphrase B,
               pv_ledger_sequence = an_sequence (mt_anchor m),
               pv_ledger_hash = an_hash (mt_anchor m),
               pv_protocol_version = an_protocol_version (mt_anchor m) \<rparr> \<rparr>)))"

datatype round_result = Finished captured_fixture | Again key_map materialized

text \<open>What a pass decides once the scenario has run; \<open>s\<close> is the source afterwards.\<close>

definition after_pass ::
  "externals \<Rightarrow> 'w capture_builder \<Rightarrow> nat \<Rightarrow> key_map \<Rightarrow> materialized
    \<Rightarrow> 'r outcome \<Rightarrow> local_ledger \<Rightarrow> tracking_source \<Rightarrow> ('w, capture_error, round_result) act" where
  "after_pass X B round keys m out local s =
     (case fst (take_failure s) of
        Some operation \<Rightarrow> sfail (Transport operation)
      | None \<Rightarrow>
          sbind (slift (ok_or HostInspection (oc_stored out))) (\<lambda>stored.
          sbind (slift (with_stored X local (ts_requested s) stored)) (\<lambda>requested.
          sbind (slift (try_fold (add_key X) (keys, 0)
              (filter (\<lambda>key. \<not> is_state_archival_key key) (map snd requested)))) (\<lambda>(keys', added).
            if added \<noteq> 0 then
              sbind (materialize X B keys') (\<lambda>m1.
              sbind (expand_code_closure X B keys' m1) (\<lambda>(keys2, m2). sret (Again keys2 m2)))
            else if oc_value out = None then sfail ScenarioPanicked
            else if ts_rpc_reads s \<noteq> 0 then sfail InternalInvariant
            else slift (and_then (finish_capture X B round m) (\<lambda>f. Inr (Finished f)))))))"

definition capture_round ::
  "externals \<Rightarrow> 'env sdk \<Rightarrow> 'w capture_builder \<Rightarrow> ('env \<Rightarrow> 'r outcome script) \<Rightarrow> nat \<Rightarrow> key_map \<Rightarrow> materialized
    \<Rightarrow> ('w, capture_error fault, round_result) act" where
  "capture_round X S B scenario round keys m w =
     (case env_from_materialized X S m of
        Inl e \<Rightarrow> (Inl e, w)
      | Inr env \<Rightarrow>
          (case run_tracking X (Some (cb_transport B)) (scenario env)
               (local_empty, tracking_source_new (mt_coverage m)
                  (li_protocol_version (mt_ledger_info m)), w) of
             (out, (local, s, w')) \<Rightarrow>
               smap_err Error (after_pass X B round keys m out local s) w'))"

primrec discovery_loop ::
  "externals \<Rightarrow> 'env sdk \<Rightarrow> 'w capture_builder \<Rightarrow> ('env \<Rightarrow> 'r outcome script) \<Rightarrow> nat \<Rightarrow> key_map \<Rightarrow> materialized
    \<Rightarrow> ('w, capture_error fault, captured_fixture) act" where
  "discovery_loop X S B scenario 0 keys m = sfail (Error (FixedPointLimit (cb_max_discovery_rounds B)))"
| "discovery_loop X S B scenario (Suc left) keys m =
     sbind (capture_round X S B scenario (cb_max_discovery_rounds B - left) keys m) (\<lambda>r.
       case r of
         Finished f \<Rightarrow> sret f
       | Again keys' m' \<Rightarrow> discovery_loop X S B scenario left keys' m')"

definition capture_ref_from_keys ::
  "externals \<Rightarrow> 'env sdk \<Rightarrow> 'w capture_builder \<Rightarrow> ('env \<Rightarrow> 'r outcome script) \<Rightarrow> key_map
    \<Rightarrow> ('w, capture_error fault, captured_fixture) act" where
  "capture_ref_from_keys X S B scenario keys =
     sbind (smap_err Error (sbind (validate_network X B) (\<lambda>_.
         sbind (materialize X B keys) (\<lambda>m. expand_code_closure X B keys m)))) (\<lambda>(keys', m').
       discovery_loop X S B scenario (cb_max_discovery_rounds B) keys' m')"

definition capture ::
  "externals \<Rightarrow> 'env sdk \<Rightarrow> 'w capture_builder \<Rightarrow> ('env \<Rightarrow> 'r outcome script)
    \<Rightarrow> ('w, capture_error fault, captured_fixture) act" where
  "capture X S B scenario = capture_ref_from_keys X S B scenario []"

subsection \<open>The captured fixture\<close>

definition captured_anchor :: "captured_fixture \<Rightarrow> anchor" where
  "captured_anchor f =
     (let s = ff_snapshot (cf_fixture f) in
      \<lparr> an_sequence = sn_sequence_number s, an_hash = pv_ledger_hash (cf_provenance f),
        an_protocol_version = sn_protocol_version s, an_timestamp = sn_timestamp s,
        an_base_reserve = sn_base_reserve s \<rparr>)"

definition inventory_keys :: "externals \<Rightarrow> captured_fixture \<Rightarrow> capture_error + key_map" where
  "inventory_keys X f =
     and_then (try_map (\<lambda>(i, state).
         and_then (ok_or MalformedCaptureBundle (key_from_xdr X i)) (\<lambda>key.
         and_then (key_id X key) (\<lambda>derived.
           if derived \<noteq> i \<or> is_state_archival_key key then Inl MalformedCaptureBundle
           else Inr (i, key)))) (cf_coverage f)) (\<lambda>kvs. Inr (bm_of_list kvs))"

definition capture_with_inventory ::
  "externals \<Rightarrow> 'env sdk \<Rightarrow> 'w capture_builder \<Rightarrow> captured_fixture \<Rightarrow> ('env \<Rightarrow> 'r outcome script)
    \<Rightarrow> ('w, capture_error fault, captured_fixture) act" where
  "capture_with_inventory X S B f scenario =
     sbind (slift (map_err Error (inventory_keys X f))) (\<lambda>keys.
       capture_ref_from_keys X S B scenario keys)"

definition cached_anchor_is_current ::
  "externals \<Rightarrow> 'w capture_builder \<Rightarrow> captured_fixture \<Rightarrow> ('w, capture_error, bool) act" where
  "cached_anchor_is_current X B f =
     sbind (validate_network X B) (\<lambda>_.
     sbind (current_anchor X B) (\<lambda>anchor. sret (anchor = captured_anchor f)))"

definition unknown_after ::
  "externals \<Rightarrow> coverage \<Rightarrow> local_ledger \<Rightarrow> key_id set \<Rightarrow> ledger_key list \<Rightarrow> capture_error + key_id set" where
  "unknown_after X cov local unknown stored =
     try_fold (\<lambda>unk key. if owns local key then Inr unk
         else and_then (key_id X key) (\<lambda>i.
           Inr (if bm_get cov i = None then insert i unk else unk))) unknown stored"

definition replayed :: "externals \<Rightarrow> captured_fixture \<Rightarrow> materialized" where
  "replayed X f =
     \<lparr> mt_anchor = captured_anchor f, mt_ledger_info = snapshot_ledger_info X (ff_snapshot (cf_fixture f)),
       mt_coverage = cf_coverage f \<rparr>"

definition replay_with_local ::
  "externals \<Rightarrow> 'env sdk \<Rightarrow> captured_fixture \<Rightarrow> ('env \<Rightarrow> 'r outcome script) \<Rightarrow> capture_error fault + 'r" where
  "replay_with_local X S f scenario =
     (let m = replayed X f in
      and_then (env_from_materialized X S m) (\<lambda>env.
      case run_tracking X None (scenario env)
          (local_empty, tracking_source_new (cf_coverage f)
             (li_protocol_version (mt_ledger_info m)), ()) of
        (out, (local, s, _)) \<Rightarrow>
          map_err Error
            (and_then (ok_or HostInspection (oc_stored out)) (\<lambda>stored.
             and_then (unknown_after X (cf_coverage f) local (ts_unknown s) stored) (\<lambda>unknown.
               if unknown \<noteq> {} then Inl (UnknownLedgerKeys (card unknown))
               else ok_or ScenarioPanicked (oc_value out))))))"

subsection \<open>The environment is always there\<close>

definition entries_of :: "externals \<Rightarrow> coverage \<Rightarrow> snapshot_entry list" where
  "entries_of X cov = concat (map (\<lambda>(i, state). case state of
     Absent \<Rightarrow> [] | Present e l \<Rightarrow> [(to_key X e, (e, l))]) cov)"

definition snapshot_of :: "externals \<Rightarrow> ledger_info \<Rightarrow> coverage \<Rightarrow> ledger_snapshot" where
  "snapshot_of X info cov =
     \<lparr> sn_protocol_version = li_protocol_version info, sn_sequence_number = li_sequence_number info,
       sn_timestamp = li_timestamp info, sn_network_id = li_network_id info,
       sn_base_reserve = li_base_reserve info,
       sn_min_persistent_entry_ttl = li_min_persistent_entry_ttl info,
       sn_min_temp_entry_ttl = li_min_temp_entry_ttl info, sn_max_entry_ttl = li_max_entry_ttl info,
       sn_ledger_entries = entries_of X cov \<rparr>"

definition covered_entry :: "externals \<Rightarrow> key_id \<times> lookup_state \<Rightarrow> bool" where
  "covered_entry X = (\<lambda>(i, state). case state of
     Absent \<Rightarrow> True
   | Present e l \<Rightarrow> to_key X e \<noteq> state_archival_key \<and> key_to_xdr X (to_key X e) = Some i)"

lemma snapshot_entry_of_Inr:
  "snapshot_entry_of X b = Inr es \<longleftrightarrow>
     covered_entry X b \<and> es = (case b of (i, state) \<Rightarrow> case state of
       Absent \<Rightarrow> [] | Present e l \<Rightarrow> [(to_key X e, (e, l))])"
  by (auto simp: snapshot_entry_of_def covered_entry_def Let_def split: lookup_state.splits if_splits prod.splits)

lemma snapshot_from_materialized_Inr:
  "snapshot_from_materialized X m = Inr s \<longleftrightarrow>
     list_all (covered_entry X) (mt_coverage m) \<and> s = snapshot_of X (mt_ledger_info m) (mt_coverage m)"
proof -
  have "try_map (snapshot_entry_of X) cov = Inr parts \<longleftrightarrow>
      list_all (covered_entry X) cov \<and> parts = map (\<lambda>(i, state). case state of
        Absent \<Rightarrow> [] | Present e l \<Rightarrow> [(to_key X e, (e, l))]) cov" for cov parts
    by (induction cov arbitrary: parts) (auto simp: snapshot_entry_of_Inr)
  then show ?thesis
    by (auto simp: snapshot_from_materialized_def Let_def snapshot_of_def entries_of_def)
qed

lemma materialized_okE:
  assumes "materialized_ok X B keys m"
  obtains config_id settings where "key_to_xdr X state_archival_key = Some config_id"
    and "bm_keys (mt_coverage m) = bm_keys keys - {config_id}"
    and "mt_ledger_info m = ledger_info_of X (cb_network_passphrase B) (mt_anchor m) settings"
    and "list_all (state_valid X (an_sequence (mt_anchor m)) (sa_max_entry_ttl settings)) (mt_coverage m)"
    and "bm_ok (mt_coverage m)" and "bm_ok keys" and "keyed X keys"
    and "check_protocol X B (an_protocol_version (mt_anchor m)) = Inr ()"
    and "\<exists>w w'. tr_latest_ledger (cb_transport B) w = (Inr (mt_anchor m), w')"
  using assms unfolding materialized_ok_def validate_coverage_Inr by (elim conjE exE) (rule that; blast)

lemma materialized_covered:
  assumes "materialized_ok X B keys m"
  shows "list_all (covered_entry X) (mt_coverage m)"
proof -
  obtain config_id and settings :: state_archival_settings
    where c: "key_to_xdr X state_archival_key = Some config_id"
    and dom: "bm_keys (mt_coverage m) = bm_keys keys - {config_id}"
    and valid: "list_all (state_valid X (an_sequence (mt_anchor m)) (sa_max_entry_ttl settings)) (mt_coverage m)"
    using assms by (rule materialized_okE) (rule that)
  have "covered_entry X (i, state)" if "(i, state) \<in> set (mt_coverage m)" for i state
  proof -
    have "i \<in> bm_keys (mt_coverage m)" using that by (force simp: bm_keys_def)
    then have "i \<noteq> config_id" using dom by blast
    then show ?thesis
      using valid that c
      by (cases state) (auto simp: covered_entry_def list_all_iff state_valid_Present)
  qed
  then show ?thesis by (auto simp: list_all_iff)
qed

lemma materialized_env:
  "materialized_ok X B keys m \<Longrightarrow>
     env_from_materialized X S m = Inr (fork_env X S (Seed_Ledger (Some (mt_ledger_info m))
       (Some (snapshot_of X (mt_ledger_info m) (mt_coverage m)))))"
  using snapshot_from_materialized_Inr [of X m "snapshot_of X (mt_ledger_info m) (mt_coverage m)"]
  by (simp add: env_from_materialized_def materialized_covered)

subsection \<open>A pass\<close>

lemma with_stored_ok:
  assumes "with_stored X local req stored = Inr req'" and "bm_ok req" and "keyed X req"
  shows "bm_ok req' \<and> keyed X req' \<and> bm_keys req \<subseteq> bm_keys req' \<and>
    list_all (\<lambda>key. owns local key \<or> (\<exists>i\<in>bm_keys req'. key_to_xdr X key = Some i)) stored"
  using assms unfolding with_stored_def
proof (induction stored arbitrary: req)
  case (Cons key stored)
  show ?case
  proof (cases "owns local key")
    case True
    then show ?thesis using Cons by simp
  next
    case False
    then obtain i where i: "key_to_xdr X key = Some i"
      and rest: "try_fold (\<lambda>req key. if owns local key then Inr req
         else and_then (key_id X key) (\<lambda>i. Inr (bm_insert i key req))) (bm_insert i key req) stored = Inr req'"
      using Cons.prems(1) by auto
    show ?thesis
      using Cons.IH [OF rest bm_ok_insert [OF Cons.prems(2)] keyed_insert [OF Cons.prems(3) i]] i by auto
  qed
qed simp

lemma after_pass_Inr:
  assumes "after_pass X B round keys m out local s w = (Inr r, w')"
  obtains stored requested keys1 added where "ts_failure s = None" "oc_stored out = Some stored"
    "with_stored X local (ts_requested s) stored = Inr requested"
    "try_fold (add_key X) (keys, 0)
      (filter (\<lambda>key. \<not> is_state_archival_key key) (map snd requested)) = Inr (keys1, added)"
    "if added \<noteq> 0
     then \<exists>m1 w1 keys2 m2. materialize X B keys1 w = (Inr m1, w1) \<and>
       expand_code_closure X B keys1 m1 w1 = (Inr (keys2, m2), w') \<and> r = Again keys2 m2
     else oc_value out \<noteq> None \<and> ts_rpc_reads s = 0 \<and>
       (\<exists>f. finish_capture X B round m = Inr f \<and> r = Finished f)"
proof -
  have f: "ts_failure s = None" using assms by (cases "ts_failure s") (auto simp: after_pass_def take_failure_def)
  with assms obtain stored requested keys1 added where
    st: "oc_stored out = Some stored" "with_stored X local (ts_requested s) stored = Inr requested"
    "try_fold (add_key X) (keys, 0)
      (filter (\<lambda>key. \<not> is_state_archival_key key) (map snd requested)) = Inr (keys1, added)"
    and rest: "(if added \<noteq> 0 then
              sbind (materialize X B keys1) (\<lambda>m1.
              sbind (expand_code_closure X B keys1 m1) (\<lambda>(keys2, m2). sret (Again keys2 m2)))
            else if oc_value out = None then sfail ScenarioPanicked
            else if ts_rpc_reads s \<noteq> 0 then sfail InternalInvariant
            else slift (and_then (finish_capture X B round m) (\<lambda>f. Inr (Finished f)))) w = (Inr r, w')"
    by (auto simp: after_pass_def take_failure_def simp del: is_state_archival_key_iff)
  show thesis
    by (rule that [OF f st]) (use rest in \<open>auto split: if_splits\<close>)
qed

lemma after_pass_again:
  assumes "after_pass X B round keys m out local s w = (Inr (Again keys2 m2), w')"
    and "bm_ok keys" and "keyed X keys"
  shows "materialized_ok X B keys2 m2 \<and> bm_keys keys \<subseteq> bm_keys keys2 \<and>
    ensure_executable_closure_present X (mt_coverage m2) = Inr ()"
  using assms(1)
proof (rule after_pass_Inr)
  fix stored requested keys1 added
  assume add: "try_fold (add_key X) (keys, 0)
      (filter (\<lambda>key. \<not> is_state_archival_key key) (map snd requested)) = Inr (keys1, added)"
    and r: "if added \<noteq> 0
     then \<exists>m1 w1 keys2' m2'. materialize X B keys1 w = (Inr m1, w1) \<and>
       expand_code_closure X B keys1 m1 w1 = (Inr (keys2', m2'), w') \<and>
       Again keys2 m2 = Again keys2' m2'
     else oc_value out \<noteq> None \<and> ts_rpc_reads s = 0 \<and>
       (\<exists>f. finish_capture X B round m = Inr f \<and> Again keys2 m2 = Finished f)"
  then obtain m1 w1 where m1: "materialize X B keys1 w = (Inr m1, w1)"
    and ex: "expand_code_closure X B keys1 m1 w1 = (Inr (keys2, m2), w')"
    by (auto split: if_splits)
  note k1 = add_keys [OF add assms(2,3)]
  have "materialized_ok X B keys1 m1" using m1 k1 by (blast intro: materialize_ok)
  then show ?thesis
    using closure_loop_ok [OF ex [unfolded expand_code_closure_def]] k1 by blast
qed

lemma smap_err_no_panic [simp]: "smap_err Error m w \<noteq> (Inl Panicked, w')"
  by (auto simp: smap_err_Inl)

lemma capture_round_ok:
  assumes "capture_round X S B scenario round keys m w = (r, w')" and "materialized_ok X B keys m"
  shows "r \<noteq> Inl Panicked \<and> (\<forall>keys2 m2. r = Inr (Again keys2 m2) \<longrightarrow>
    materialized_ok X B keys2 m2 \<and> bm_keys keys \<subseteq> bm_keys keys2 \<and>
    ensure_executable_closure_present X (mt_coverage m2) = Inr ())"
proof -
  have k: "bm_ok keys" "keyed X keys" using assms(2) by (auto simp: materialized_ok_def)
  obtain out local s w1 where run: "run_tracking X (Some (cb_transport B))
      (scenario (fork_env X S (Seed_Ledger (Some (mt_ledger_info m))
         (Some (snapshot_of X (mt_ledger_info m) (mt_coverage m))))))
      (local_empty, tracking_source_new (mt_coverage m) (li_protocol_version (mt_ledger_info m)), w) =
      (out, (local, s, w1))"
    by (metis prod.exhaust)
  then have after: "smap_err Error (after_pass X B round keys m out local s) w1 = (r, w')"
    using assms(1) by (simp add: capture_round_def materialized_env [OF assms(2)])
  then have "r \<noteq> Inl Panicked" by (auto simp: smap_err_Inl)
  moreover have "materialized_ok X B keys2 m2 \<and> bm_keys keys \<subseteq> bm_keys keys2 \<and>
    ensure_executable_closure_present X (mt_coverage m2) = Inr ()" if "r = Inr (Again keys2 m2)" for keys2 m2
    using after unfolding that smap_err_Inr by (rule after_pass_again [OF _ k])
  ultimately show ?thesis by blast
qed

subsection \<open>Runs of a pass\<close>

lemma follow_world:
  "follow (tracking_serve X) view_mark_local p (l, cov, w) = Some (out, (l', cov', w')) \<Longrightarrow>
     cov' = cov \<and> w' = w \<and>
     follow (tracking_serve X) view_mark_local p (l, cov, v) = Some (out, (l', cov, v))"
proof (induction p arbitrary: l)
  case (Get key k)
  then show ?case by (auto simp: tracking_serve_def split: option.splits)
next
  case (Mark m p)
  then show ?case by (simp add: view_mark_local_def)
qed auto

definition source_ok :: "externals \<Rightarrow> 'w tracking_world \<Rightarrow> bool" where
  "source_ok X = (\<lambda>(local, s, w). bm_ok (ts_requested s) \<and> keyed X (ts_requested s))"

lemma world_get_rpc:
  assumes "world_get X (Some tr) key (l, s, w) = (answer, (l', s', w'))"
  shows "ts_unknown s' = ts_unknown s"
    and "source_ok X (l, s, w) \<Longrightarrow> source_ok X (l', s', w')"
    and "ts_failure s = Some op \<Longrightarrow> answer = Inl Host_Storage_Internal \<and> s' = s \<and> w' = w"
  using assms
  by (auto simp: world_get_def tracking_get_def tracking_fetch_def key_id_def Let_def source_ok_def
      bm_ok_insert keyed_insert split: option.splits if_splits prod.splits sum.splits)

lemma run_rpc:
  assumes "run_tracking X (Some tr) p (l, s, w) = (out, (l', s', w'))"
  shows "ts_unknown s' = ts_unknown s \<and> (source_ok X (l, s, w) \<longrightarrow> source_ok X (l', s', w'))"
  using assms unfolding run_tracking_def
proof (induction p arbitrary: l s w)
  case (Get key k)
  obtain answer l1 s1 w1 where g: "world_get X (Some tr) key (l, s, w) = (answer, (l1, s1, w1))"
    by (metis prod.exhaust)
  then show ?case
    using Get.IH [of "k answer" l1 s1 w1] Get.prems world_get_rpc [OF g] by auto
next
  case (Ask k)
  then show ?case using Ask.IH [of "k (world_count (l, s, w))" l s w] by simp
qed (auto simp: world_mark_def source_ok_def)

lemma run_after_failure:
  assumes "run_tracking X (Some tr) p (l, s, w) = (out, (l', s', w'))" and "ts_failure s = Some op"
  shows "s' = s \<and> w' = w"
  using assms unfolding run_tracking_def
proof (induction p arbitrary: l)
  case (Get key k)
  obtain answer l1 s1 w1 where g: "world_get X (Some tr) key (l, s, w) = (answer, (l1, s1, w1))"
    by (metis prod.exhaust)
  then show ?case
    using Get.IH [of "k answer" l1] Get.prems world_get_rpc(3) [OF g] by auto
next
  case (Ask k)
  then show ?case using Ask.IH [of "k (world_count (l, s, w))" l] by simp
qed (auto simp: world_mark_def)

lemma calm_start: "tracking_calm (local_empty, tracking_source_new cov n, w)"
  "source_ok X (local_empty, tracking_source_new cov n, w)"
  "tracking_view (local_empty, tracking_source_new cov n, w) = (local_empty, cov, w)"
  by (simp_all add: tracking_calm_def tracking_source_new_def source_ok_def keyed_def tracking_view_def)

definition stored_covered :: "externals \<Rightarrow> coverage \<Rightarrow> local_ledger \<Rightarrow> ledger_key list \<Rightarrow> bool" where
  "stored_covered X cov local = list_all (\<lambda>key. owns local key \<or> key = state_archival_key \<or>
     (\<exists>i. key_to_xdr X key = Some i \<and> bm_get cov i \<noteq> None))"

lemma stored_are_covered:
  assumes laws: "xdr_laws X" and m: "materialized_ok X B keys m"
    and st: "with_stored X local req stored = Inr requested" "bm_ok req" "keyed X req"
    and add: "try_fold (add_key X) (keys, 0)
      (filter (\<lambda>key. \<not> is_state_archival_key key) (map snd requested)) = Inr (keys1, 0)"
  shows "stored_covered X (mt_coverage m) local stored"
proof -
  obtain config_id and settings :: state_archival_settings
    where c: "key_to_xdr X state_archival_key = Some config_id"
    and dom: "bm_keys (mt_coverage m) = bm_keys keys - {config_id}" and k: "bm_ok keys" "keyed X keys"
    using m by (rule materialized_okE) (rule that)
  note ws = with_stored_ok [OF st] and ak = add_keys [OF add k]
  have "owns local key \<or> key = state_archival_key \<or>
     (\<exists>i. key_to_xdr X key = Some i \<and> bm_get (mt_coverage m) i \<noteq> None)" if mem: "key \<in> set stored" for key
  proof (cases "owns local key \<or> key = state_archival_key")
    case False
    then obtain i where i: "i \<in> bm_keys requested" "key_to_xdr X key = Some i"
      using ws mem by (auto simp: list_all_iff)
    then obtain k where "bm_get requested i = Some k" by (auto simp: bm_keys_get)
    moreover from this have "k = key" using keyed_agree [of X requested i k key] ws laws i(2) by simp
    ultimately have "(i, key) \<in> set requested" by (auto dest: bm_get_in_set)
    then have "key \<in> set (filter (\<lambda>key. \<not> is_state_archival_key key) (map snd requested))"
      using False by force
    then have "i \<in> bm_keys keys" using ak i(2) by (auto simp: list_all_iff)
    moreover have "i \<noteq> config_id" using key_to_xdr_inject [OF laws c] i(2) False by auto
    ultimately have "i \<in> bm_keys (mt_coverage m)" using dom by simp
    then show ?thesis using i(2) by (simp add: bm_keys_get)
  qed blast
  then show ?thesis by (simp add: stored_covered_def list_all_iff)
qed

text \<open>
  What the Host's storage holds never includes the network's settings; the capture skips that
  key, so this is the documented behaviour its replay relies on.
\<close>

definition stores_no_settings :: "externals \<Rightarrow> ('env \<Rightarrow> 'r outcome script) \<Rightarrow> bool" where
  "stores_no_settings X scenario \<longleftrightarrow>
     (\<forall>env cov out v stored. follow (tracking_serve X) view_mark_local (scenario env)
         (local_empty, cov, ()) = Some (out, v) \<and> oc_stored out = Some stored \<longrightarrow>
       state_archival_key \<notin> set stored)"

definition specified_run ::
  "externals \<Rightarrow> 'env sdk \<Rightarrow> ledger_info \<Rightarrow> coverage \<Rightarrow> ('env \<Rightarrow> 'r outcome script) \<Rightarrow> ('r outcome \<times> local_ledger) option" where
  "specified_run X S info cov scenario =
     map_option (\<lambda>(out, v). (out, fst v)) (follow (tracking_serve X) view_mark_local
       (scenario (fork_env X S (Seed_Ledger (Some info) (Some (snapshot_of X info cov)))))
       (local_empty, cov, ()))"

lemma finished_pass:
  assumes round: "capture_round X S B scenario round keys m w = (Inr (Finished f), w')"
    and laws: "xdr_laws X" and m: "materialized_ok X B keys m"
  obtains out local stored r where
    "specified_run X S (mt_ledger_info m) (mt_coverage m) scenario = Some (out, local)"
    "oc_value out = Some r" "oc_stored out = Some stored"
    "stored_covered X (mt_coverage m) local stored"
    "finish_capture X B round m = Inr f"
proof -
  let ?start = "(local_empty, tracking_source_new (mt_coverage m) (li_protocol_version (mt_ledger_info m)), w)"
  let ?script = "scenario (fork_env X S (Seed_Ledger (Some (mt_ledger_info m))
         (Some (snapshot_of X (mt_ledger_info m) (mt_coverage m)))))"
  obtain out local s w1 where run: "run_tracking X (Some (cb_transport B)) ?script ?start = (out, (local, s, w1))"
    by (metis prod.exhaust)
  have after: "after_pass X B round keys m out local s w1 = (Inr (Finished f), w')"
    using round run by (simp add: capture_round_def materialized_env [OF m])
  note rpc = run_rpc [OF run]
  from after show thesis
  proof (rule after_pass_Inr)
    fix stored requested keys1 added
    assume fail: "ts_failure s = None" and stored: "oc_stored out = Some stored"
      and ws: "with_stored X local (ts_requested s) stored = Inr requested"
      and add: "try_fold (add_key X) (keys, 0)
        (filter (\<lambda>key. \<not> is_state_archival_key key) (map snd requested)) = Inr (keys1, added)"
      and r: "if added \<noteq> 0
        then \<exists>m1 w2 keys2 m2. materialize X B keys1 w1 = (Inr m1, w2) \<and>
          expand_code_closure X B keys1 m1 w2 = (Inr (keys2, m2), w') \<and> Finished f = Again keys2 m2
        else oc_value out \<noteq> None \<and> ts_rpc_reads s = 0 \<and>
          (\<exists>f'. finish_capture X B round m = Inr f' \<and> Finished f = Finished f')"
    then have zero: "added = 0" "oc_value out \<noteq> None" "ts_rpc_reads s = 0"
        "finish_capture X B round m = Inr f"
      by (auto split: if_splits)
    have "tracking_calm (local, s, w1)"
      using fail zero(3) rpc by (simp add: tracking_calm_def tracking_source_new_def)
    then have "follow (tracking_serve X) view_mark_local ?script (local_empty, mt_coverage m, w) =
        Some (out, tracking_view (local, s, w1))"
      using tracking.calm_run [OF run [unfolded run_tracking_def]] by (simp add: calm_start)
    then have "follow (tracking_serve X) view_mark_local ?script (local_empty, mt_coverage m, ()) =
        Some (out, (local, mt_coverage m, ()))"
      using follow_world [where v = "()"] by (fastforce simp: tracking_view_def)
    then have spec: "specified_run X S (mt_ledger_info m) (mt_coverage m) scenario = Some (out, local)"
      by (simp add: specified_run_def)
    have "bm_ok (ts_requested s)" "keyed X (ts_requested s)"
      using rpc by (auto simp: source_ok_def tracking_source_new_def keyed_def)
    then have "stored_covered X (mt_coverage m) local stored"
      using stored_are_covered [OF laws m ws] add zero(1) by simp
    then show thesis using that spec stored zero(2,4) by blast
  qed
qed

subsection \<open>The whole capture\<close>

definition materialized_closed :: "externals \<Rightarrow> 'w capture_builder \<Rightarrow> key_map \<Rightarrow> materialized \<Rightarrow> bool" where
  "materialized_closed X B keys m \<longleftrightarrow> materialized_ok X B keys m \<and>
     ensure_executable_closure_present X (mt_coverage m) = Inr ()"

lemma discovery_no_panic:
  "materialized_closed X B keys m \<Longrightarrow> fst (discovery_loop X S B scenario left keys m w) \<noteq> Inl Panicked"
proof (induction left arbitrary: keys m w)
  case 0
  then show ?case by (simp add: sfail_def)
next
  case (Suc left)
  obtain r w1 where round: "capture_round X S B scenario (cb_max_discovery_rounds B - left) keys m w = (r, w1)"
    by (metis prod.exhaust)
  note ok = capture_round_ok [OF round] 
  have ok: "r \<noteq> Inl Panicked" "\<And>keys2 m2. r = Inr (Again keys2 m2) \<Longrightarrow> materialized_closed X B keys2 m2"
    using ok Suc.prems by (auto simp: materialized_closed_def)
  show ?case
  proof (cases r)
    case (Inl e)
    then show ?thesis using ok round by (simp add: sbind_run)
  next
    case (Inr rr)
    then show ?thesis
      using ok(2) round Suc.IH by (cases rr) (auto simp: sbind_run sret_def)
  qed
qed

lemma discovery_finishes:
  "discovery_loop X S B scenario left keys m w = (Inr f, w') \<Longrightarrow> materialized_closed X B keys m \<Longrightarrow>
     left \<le> cb_max_discovery_rounds B \<Longrightarrow>
     \<exists>round keys2 m2 w1. materialized_closed X B keys2 m2 \<and> 1 \<le> round \<and> round \<le> cb_max_discovery_rounds B \<and>
       bm_keys keys \<subseteq> bm_keys keys2 \<and>
       capture_round X S B scenario round keys2 m2 w1 = (Inr (Finished f), w')"
proof (induction left arbitrary: keys m w)
  case (Suc left)
  then obtain r w1 where round: "capture_round X S B scenario (cb_max_discovery_rounds B - left) keys m w = (Inr r, w1)"
    and rest: "(case r of Finished f \<Rightarrow> sret f
       | Again keys' m' \<Rightarrow> discovery_loop X S B scenario left keys' m') w1 = (Inr f, w')"
    by auto
  show ?case
  proof (cases r)
    case (Finished f')
    with rest have "f' = f" "w1 = w'" by auto
    with Finished round Suc.prems(2,3) show ?thesis
      by (intro exI [of _ "cb_max_discovery_rounds B - left"] exI [of _ keys] exI [of _ m] exI [of _ w]) auto
  next
    case (Again keys1 m1)
    have "materialized_ok X B keys1 m1 \<and> bm_keys keys \<subseteq> bm_keys keys1 \<and>
        ensure_executable_closure_present X (mt_coverage m1) = Inr ()"
      using capture_round_ok [OF round] Suc.prems(2) Again by (simp add: materialized_closed_def)
    then have "materialized_closed X B keys1 m1" "bm_keys keys \<subseteq> bm_keys keys1"
      by (simp_all add: materialized_closed_def)
    with Suc.IH [of keys1 m1 w1] rest Again Suc.prems(3) show ?thesis by fastforce
  qed
qed simp

lemma capture_start:
  assumes "sbind (validate_network X B) (\<lambda>_. sbind (materialize X B keys)
      (\<lambda>m. expand_code_closure X B keys m)) w = (Inr (keys', m'), w')"
    and "bm_ok keys" and "keyed X keys"
  shows "materialized_closed X B keys' m' \<and> bm_keys keys \<subseteq> bm_keys keys'"
proof -
  from assms(1) obtain m w1 w2 where m: "materialize X B keys w1 = (Inr m, w2)"
    and ex: "expand_code_closure X B keys m w2 = (Inr (keys', m'), w')"
    by auto
  then show ?thesis
    using closure_loop_ok [OF ex [unfolded expand_code_closure_def] materialize_ok [OF m assms(2,3)]]
    by (simp add: materialized_closed_def)
qed

lemma capture_finishes:
  assumes "capture_ref_from_keys X S B scenario keys w = (Inr f, w')"
    and "bm_ok keys" and "keyed X keys"
  obtains round keys2 m2 w1 where "materialized_closed X B keys2 m2"
    "1 \<le> round" "round \<le> cb_max_discovery_rounds B" "bm_keys keys \<subseteq> bm_keys keys2"
    "capture_round X S B scenario round keys2 m2 w1 = (Inr (Finished f), w')"
proof -
  from assms(1) obtain keys' m' w1 where
    start: "sbind (validate_network X B) (\<lambda>_. sbind (materialize X B keys)
      (\<lambda>m. expand_code_closure X B keys m)) w = (Inr (keys', m'), w1)"
    and loop: "discovery_loop X S B scenario (cb_max_discovery_rounds B) keys' m' w1 = (Inr f, w')"
    unfolding capture_ref_from_keys_def sbind_Inr smap_err_Inr by (auto simp del: sbind_Inr)
  note st = capture_start [OF start assms(2,3)]
  show thesis
    using discovery_finishes [OF loop] st that by (meson order_refl order_trans)
qed

text \<open>What a captured fixture is, in terms of the state it was made from.\<close>

lemma finish_capture_Inr:
  "finish_capture X B round m = Inr f \<Longrightarrow>
     ff_snapshot (cf_fixture f) = snapshot_of X (mt_ledger_info m) (mt_coverage m) \<and>
     cf_coverage f = mt_coverage m \<and>
     from_snapshot_with_policy X (snapshot_of X (mt_ledger_info m) (mt_coverage m))
       (cb_network_passphrase B) (cb_protocol_policy B) = Inr (cf_fixture f) \<and>
     list_all (covered_entry X) (mt_coverage m) \<and>
     inventory_digest X (mt_coverage m) = Inr (cr_inventory_digest (cf_report f)) \<and>
     cf_report f = \<lparr> cr_discovery_rounds = round,
       cr_present_entries = present_entries (mt_coverage m),
       cr_absent_entries = absent_entries (mt_coverage m),
       cr_inventory_digest = cr_inventory_digest (cf_report f), cr_final_replay_rpc_reads = 0 \<rparr> \<and>
     cf_provenance f = \<lparr> pv_rpc_origin = cb_rpc_origin B,
       pv_network_passphrase = cb_network_passphrase B,
       pv_ledger_sequence = an_sequence (mt_anchor m), pv_ledger_hash = an_hash (mt_anchor m),
       pv_protocol_version = an_protocol_version (mt_anchor m) \<rparr>"
  by (auto simp: finish_capture_def snapshot_from_materialized_Inr from_snapshot_with_policy_def Let_def
      split: if_splits)

subsection \<open>Replaying\<close>

lemma unknown_after_covered:
  "stored_covered X cov local stored \<Longrightarrow> state_archival_key \<notin> set stored \<Longrightarrow>
     unknown_after X cov local {} stored = Inr {}"
  unfolding unknown_after_def stored_covered_def
proof (induction stored)
  case (Cons key stored)
  then have step: "(if owns local key then Inr {} else and_then (key_id X key) (\<lambda>i.
      Inr (if bm_get cov i = None then insert i {} else {}))) = Inr {}"
    by (cases "owns local key") (auto simp: key_id_def)
  show ?case
    unfolding try_fold.simps step and_then_simps by (rule Cons.IH) (use Cons.prems in auto)
qed simp

lemma snapshot_info:
  "ledger_info_laws X \<Longrightarrow> snapshot_ledger_info X (snapshot_of X info cov) = info"
  by (simp add: ledger_info_laws_def snapshot_of_def)

lemma replay_specified:
  fixes scenario :: "'env \<Rightarrow> 'r outcome script"
  assumes laws: "ledger_info_laws X"
    and snap: "ff_snapshot (cf_fixture f) = snapshot_of X info (cf_coverage f)"
    and cov: "list_all (covered_entry X) (cf_coverage f)"
    and run: "specified_run X S info (cf_coverage f) scenario = Some (out, local)"
    and out: "oc_value out = Some r" "oc_stored out = Some stored"
    and st: "stored_covered X (cf_coverage f) local stored" "state_archival_key \<notin> set stored"
  shows "replay_with_local X S f scenario = Inr r"
proof -
  let ?env = "fork_env X S (Seed_Ledger (Some info) (Some (snapshot_of X info (cf_coverage f))))"
  let ?start = "(local_empty, tracking_source_new (cf_coverage f) (li_protocol_version info), ())"
  have info: "mt_ledger_info (replayed X f) = info" "mt_coverage (replayed X f) = cf_coverage f"
    by (simp_all add: replayed_def snap snapshot_info [OF laws])
  have env: "env_from_materialized X S (replayed X f) = Inr ?env"
  proof -
    have "snapshot_from_materialized X (replayed X f) = Inr (snapshot_of X info (cf_coverage f))"
      unfolding snapshot_from_materialized_Inr info using cov by simp
    then show ?thesis by (simp add: env_from_materialized_def info)
  qed
  obtain v where "follow (tracking_serve X) view_mark_local (scenario ?env) (local_empty, cf_coverage f, ()) =
      Some (out, v)" "fst v = local"
    using run by (auto simp: specified_run_def)
  then obtain s' where run: "run_tracking X None (scenario ?env) ?start = (out, s')" and calm: "tracking_calm s'"
      and local: "fst (tracking_view s') = local"
    using tracking.run_follows [of ?start X "scenario ?env" out v None]
    by (auto simp: calm_start run_tracking_def)
  obtain l s w where s': "s' = (l, s, w)" by (rule prod_cases3)
  then have "l = local" "ts_unknown s = {}" using local calm by (auto simp: tracking_view_def tracking_calm_def)
  then show ?thesis
    using run out unknown_after_covered [OF st]
    by (simp add: replay_with_local_def Let_def env info s')
qed

subsection \<open>Properties\<close>

lemma captured_replays:
  assumes "xdr_laws X" and "ledger_info_laws X" and "stores_no_settings X scenario"
    and "capture_ref_from_keys X S B scenario keys w = (Inr f, w')"
    and "bm_ok keys" and "keyed X keys"
  shows "\<exists>out local r.
    specified_run X S (snapshot_ledger_info X (ff_snapshot (cf_fixture f))) (cf_coverage f) scenario =
      Some (out, local) \<and> oc_value out = Some r \<and>
    replay_with_local X S f scenario = Inr r"
proof -
  obtain round keys2 m w1 where m: "materialized_closed X B keys2 m"
    and pass: "capture_round X S B scenario round keys2 m w1 = (Inr (Finished f), w')"
    using assms(4-6) by (rule capture_finishes) (rule that)
  have mo: "materialized_ok X B keys2 m" using m by (simp add: materialized_closed_def)
  obtain out local stored r where
    run: "specified_run X S (mt_ledger_info m) (mt_coverage m) scenario = Some (out, local)"
    and out: "oc_value out = Some r" "oc_stored out = Some stored"
    and st: "stored_covered X (mt_coverage m) local stored"
    and fin: "finish_capture X B round m = Inr f"
    using pass assms(1) mo by (rule finished_pass) (rule that)
  note f = finish_capture_Inr [OF fin]
  have "state_archival_key \<notin> set stored"
    using run out(2) assms(3) unfolding specified_run_def stores_no_settings_def by auto
  then have "replay_with_local X S f scenario = Inr r"
    using replay_specified [OF assms(2), of f "mt_ledger_info m" S scenario out local r stored] f run out st
    by simp
  then show ?thesis using f run out snapshot_info [OF assms(2)] by auto
qed

text \<open>
  C1. A capture replays offline. Whatever the RPC server answered on the way, when capturing a
  scenario succeeds, replaying the captured fixture with the same scenario succeeds without
  any RPC: every key the scenario reads or leaves in the Host's storage is covered or local,
  and the replay returns the value of the one run that the coverage determines.
\<close>

theorem capture_replays:
  assumes "xdr_laws X" and "ledger_info_laws X" and "stores_no_settings X scenario"
    and "capture_ref_from_keys X S B scenario keys w = (Inr f, w')"
    and "bm_ok keys" and "keyed X keys"
  shows "\<exists>out local r.
    specified_run X S (snapshot_ledger_info X (ff_snapshot (cf_fixture f))) (cf_coverage f) scenario =
      Some (out, local) \<and> oc_value out = Some r \<and>
    replay_with_local X S f scenario = Inr r"
  using assms by (rule captured_replays)

text \<open>
  C40. Capturing never panics on its own: the \<open>expect\<close> on the snapshot of the materialised
  state cannot fail, whatever the server answers and whatever the scenario does.
\<close>

theorem capture_never_panics:
  "fst (capture X S B scenario w) \<noteq> Inl Panicked"
proof -
  have k: "bm_ok []" "keyed X []" by (simp_all add: keyed_def)
  obtain r w1 where start: "sbind (validate_network X B) (\<lambda>_. sbind (materialize X B [])
      (\<lambda>m. expand_code_closure X B [] m)) w = (r, w1)"
    by (metis prod.exhaust)
  show ?thesis
  proof (cases r)
    case (Inl e)
    then have "smap_err Error (sbind (validate_network X B) (\<lambda>_. sbind (materialize X B [])
      (\<lambda>m. expand_code_closure X B [] m))) w = (Inl (Error e), w1)"
      by (simp add: smap_err_def start)
    then show ?thesis by (simp add: capture_def capture_ref_from_keys_def sbind_run(2))
  next
    case (Inr km)
    obtain keys' m' where km: "km = (keys', m')" by (cases km)
    have "smap_err Error (sbind (validate_network X B) (\<lambda>_. sbind (materialize X B [])
      (\<lambda>m. expand_code_closure X B [] m))) w = (Inr (keys', m'), w1)"
      by (simp add: smap_err_def start Inr km)
    moreover have "materialized_closed X B keys' m'"
      using capture_start [OF start [unfolded Inr km] k] by simp
    ultimately show ?thesis
      by (simp add: capture_def capture_ref_from_keys_def sbind_run(1) discovery_no_panic)
  qed
qed

text \<open>
  A key reads as absent only on evidence: it is local, or the source holds it as absent,
  either from before or because the server answered a request for exactly this key, without
  failing, with no entry.
\<close>

lemma absence_is_evidence:
  assumes "tracking_get X transport local key (s, w) = (Inr None, (s', w'))" and "bm_ok (ts_cache s)"
  shows "owns local key \<or>
    (\<exists>i. key_to_xdr X key = Some i \<and> bm_get (ts_cache s') i = Some Absent \<and>
      (bm_get (ts_cache s) i = Some Absent \<or>
       (\<exists>tr batch. transport = Some tr \<and> tr_ledger_entries tr [key] w = (Inr batch, w') \<and>
          eb_entries batch = [])))"
proof (cases "owns local key")
  case False
  obtain i where i: "key_to_xdr X key = Some i" and nf: "ts_failure s = None"
    using assms(1) by (cases "key_to_xdr X key")
      (auto simp: tracking_get_def key_id_def split: if_splits)
  let ?s = "s\<lparr>ts_requested := bm_insert i key (ts_requested s)\<rparr>"
  have get: "(case bm_get (ts_cache s) i of
      Some state \<Rightarrow> (Inr (present_of state), (?s, w))
    | None \<Rightarrow> (case transport of
         None \<Rightarrow> (Inl Host_Storage_Internal, (?s\<lparr>ts_unknown := insert i (ts_unknown ?s)\<rparr>, w))
       | Some tr \<Rightarrow> tracking_fetch X tr i key (?s\<lparr>ts_rpc_reads := ts_rpc_reads ?s + 1\<rparr>, w))) =
      (Inr None, (s', w'))"
    using assms(1) False i nf by (simp add: tracking_get_def key_id_def Let_def)
  show ?thesis
  proof (cases "bm_get (ts_cache s) i")
    case (Some state)
    then show ?thesis
      using get i by (cases state) (auto simp: present_of_def)
  next
    case None
    then obtain tr where tr: "transport = Some tr"
      and fetch: "tracking_fetch X tr i key (?s\<lparr>ts_rpc_reads := ts_rpc_reads ?s + 1\<rparr>, w) = (Inr None, (s', w'))"
      using get by (auto split: option.splits)
    then obtain batch returned where batch: "tr_ledger_entries tr [key] w = (Inr batch, w')"
      and v: "validate_batch X [key] (eb_entries batch) = Inr returned"
      and state: "present_of (state_of (bm_get returned i)) = None"
      and s': "ts_cache s' = bm_insert i (state_of (bm_get returned i)) (ts_cache s)"
      by (auto simp: tracking_fetch_def Let_def split: prod.splits sum.splits)
    have none: "bm_get returned i = None"
      using state by (cases "bm_get returned i") (auto simp: state_of_def present_of_def)
    have "entry_id X f = Some i" if "f \<in> set (eb_entries batch)" for f
      using validated_ids [OF v that] i by simp
    then have "eb_entries batch = []"
      using validate_batch_get(2) [OF v, of i] none by (cases "eb_entries batch") auto
    moreover have "bm_get (ts_cache s') i = Some Absent"
      using s' none assms(2) by (simp add: bm_get_insert state_of_def)
    ultimately show ?thesis using i tr batch by blast
  qed
qed simp

text \<open>A request for one key that fails, or is answered by entries that are not of this key.\<close>

definition server_refuses :: "externals \<Rightarrow> 'w transport \<Rightarrow> ledger_key \<Rightarrow> 'w \<Rightarrow> string \<Rightarrow> bool" where
  "server_refuses X tr key w operation \<longleftrightarrow>
     (case fst (tr_ledger_entries tr [key] w) of
        Inl failed \<Rightarrow> operation = failed
      | Inr batch \<Rightarrow> operation = ''getLedgerEntries'' \<and> (\<exists>e. validate_batch X [key] (eb_entries batch) = Inl e))"

lemma refused_read_fails:
  assumes "world_get X (Some tr) key (l, (s, w)) = (answer, (l1, (s1, w1)))" and "server_refuses X tr key w operation"
    and "ts_failure s = None" and "\<not> owns l key" and "key_to_xdr X key = Some i" and "bm_get (ts_cache s) i = None"
  shows "answer = Inl Host_Storage_Internal \<and> ts_failure s1 = Some operation"
  using assms
  by (auto simp: world_get_def tracking_get_def tracking_fetch_def key_id_def Let_def server_refuses_def
      split: prod.splits sum.splits)

lemma failed_read_latches:
  assumes "world_get X (Some tr) key (l, (s, w)) = (Inl e, (l1, (s1, w1)))"
  shows "\<exists>operation. ts_failure s1 = Some operation"
  using assms
  by (auto simp: world_get_def tracking_get_def tracking_fetch_def key_id_def Let_def
      split: prod.splits sum.splits option.splits if_splits)

text \<open>
  C32. A failed ledger read is never taken for an absent entry. When a pass reads a key that is
  neither local nor known and the server fails or answers with anything invalid, the read fails
  with the operation latched; a read answers absent only for a local key, on a known absence, or on
  an empty answer to a request for exactly this key. Once a read has failed, whatever the scenario
  goes on to do, all later reads fail, nothing more is sent, and the pass ends with that operation.
\<close>

theorem failed_read_ends_pass:
  assumes run: "run_tracking X (Some tr) (Get key k) (l, (s, w)) = (out, (l', (s', w')))"
    and read: "world_get X (Some tr) key (l, (s, w)) = (answer, (l1, (s1, w1)))" and cache: "bm_ok (ts_cache s)"
  shows "(server_refuses X tr key w operation \<and> ts_failure s = None \<and> \<not> owns l key \<and>
        key_to_xdr X key = Some i \<and> bm_get (ts_cache s) i = None \<longrightarrow>
      answer = Inl Host_Storage_Internal \<and> ts_failure s1 = Some operation) \<and>
    (answer = Inr None \<longrightarrow> owns l key \<or> (\<exists>j. key_to_xdr X key = Some j \<and> (bm_get (ts_cache s) j = Some Absent \<or>
       (\<exists>batch. tr_ledger_entries tr [key] w = (Inr batch, w1) \<and> eb_entries batch = [])))) \<and>
    (answer = Inl Host_Storage_Internal \<longrightarrow> (\<exists>latched. ts_failure s1 = Some latched \<and> s' = s1 \<and> w' = w1 \<and>
       world_get X (Some tr) later (l', (s', w')) = (Inl Host_Storage_Internal, (l', (s', w'))) \<and>
       after_pass X B round keys m out l' s' w' = (Inl (Transport latched), w')))"
proof (intro conjI impI)
  have rest: "run_tracking X (Some tr) (k answer) (l1, (s1, w1)) = (out, (l', (s', w')))"
    using run read by (simp add: run_tracking_def)
  {
    assume "server_refuses X tr key w operation \<and> ts_failure s = None \<and> \<not> owns l key \<and>
        key_to_xdr X key = Some i \<and> bm_get (ts_cache s) i = None"
    then show "answer = Inl Host_Storage_Internal" "ts_failure s1 = Some operation"
      using refused_read_fails [OF read] by blast+
  next
    assume "answer = Inr None"
    then have "tracking_get X (Some tr) l key (s, w) = (Inr None, (s1, w1))"
      using read by (auto simp: world_get_def split: prod.splits)
    from absence_is_evidence [OF this cache]
    show "owns l key \<or> (\<exists>j. key_to_xdr X key = Some j \<and> (bm_get (ts_cache s) j = Some Absent \<or>
       (\<exists>batch. tr_ledger_entries tr [key] w = (Inr batch, w1) \<and> eb_entries batch = [])))" by auto
  next
    assume failed: "answer = Inl Host_Storage_Internal"
    obtain latched where f: "ts_failure s1 = Some latched" using failed_read_latches [OF read [unfolded failed]] ..
    have s: "s' = s1" "w' = w1" using run_after_failure [OF rest f] by auto
    then show "\<exists>latched. ts_failure s1 = Some latched \<and> s' = s1 \<and> w' = w1 \<and>
       world_get X (Some tr) later (l', (s', w')) = (Inl Host_Storage_Internal, (l', (s', w'))) \<and>
       after_pass X B round keys m out l' s' w' = (Inl (Transport latched), w')"
      using f by (simp add: world_get_def tracking_get_def after_pass_def take_failure_def sfail_def)
  }
qed

end
