(* ===== verification/Sample_Replay.thy ===== *)
theory Sample_Replay
  imports Capture
begin

text \<open>
  One capture, evaluated: a scenario that reads a contract instance and its code against the
  honest sample server. The witnesses of the properties of \<open>Capture\<close> apply to it.
\<close>

definition sample_scenario :: "sdk_snapshot \<Rightarrow> bool outcome script" where
  "sample_scenario env =
     Get (contract_instance_key sample_contract) (\<lambda>answer.
     Get (Key_ContractCode (sample_sha256 [1])) (\<lambda>code.
       Done \<lparr> oc_value = Some (answer \<noteq> Inr None),
         oc_stored = Some [contract_instance_key sample_contract, Key_ContractCode (sample_sha256 [1])] \<rparr>))"

lemma sample_stores: "stores_no_settings sample_X sample_scenario"
  by (auto simp: stores_no_settings_def sample_scenario_def state_archival_key_def
      contract_instance_key_def split: option.splits)

lemma sample_final: "materialized_closed sample_X sample_builder sample_all_keys (sample_materialized sample_all_coverage)"
  using expansion_is_closed [OF sample_expand materialize_ok [OF sample_run_keys sample_keyed]]
    closure_loop_ok [OF sample_expand [unfolded expand_code_closure_def]
      materialize_ok [OF sample_run_keys sample_keyed]]
  by (simp add: materialized_closed_def)

lemma sample_info: "mt_ledger_info (sample_materialized cov) =
    ledger_info_of sample_X ''net'' sample_anchor sample_settings"
  "mt_coverage (sample_materialized cov) = cov" "mt_anchor (sample_materialized cov) = sample_anchor"
  by (simp_all add: sample_materialized_def)

lemma sample_not_owned [simp]: "\<not> owns local_empty key"
  by (simp add: owns_def local_empty_def split: ledger_key.split)

lemma sample_pass:
  "run_tracking sample_X tr (sample_scenario env) (local_empty, tracking_source_new sample_all_coverage n, w) =
     (\<lparr> oc_value = Some True,
        oc_stored = Some [contract_instance_key sample_contract, Key_ContractCode (sample_sha256 [1])] \<rparr>,
      (local_empty, (tracking_source_new sample_all_coverage n)
         \<lparr>ts_requested := sample_all_keys\<rparr>, w))"
  by (simp add: run_tracking_def sample_scenario_def world_get_def tracking_get_def key_id_def
      tracking_source_new_def sample_all_coverage_def sample_all_keys_def present_of_def)

lemma sample_entry_bytes: "\<exists>b. sample_entry_to_xdr sample_instance_entry = Some b"
  by (simp add: sample_entry_to_xdr_def sample_instance_entry_def sample_to_key_def
      sample_contract_def sample_key_to_xdr_def)

lemma sample_finish: "\<exists>f. finish_capture sample_X sample_builder n (sample_materialized sample_all_coverage) = Inr f"
proof -
  let ?s = "snapshot_of sample_X (ledger_info_of sample_X ''net'' sample_anchor sample_settings) sample_all_coverage"
  obtain b where b: "sample_entry_to_xdr sample_instance_entry = Some b" using sample_entry_bytes ..
  have entries: "sn_ledger_entries ?s =
      [(contract_instance_key sample_contract, sample_instance_entry, Some 20),
       (Key_ContractCode (sample_sha256 [1]), sample_code_entry 1, Some 12)]"
    by (simp add: snapshot_of_def entries_of_def sample_all_coverage_def)
  have "list_all (entry_ok sample_X) (sn_ledger_entries ?s)" "distinct (map fst (map (encoded sample_X) (sn_ledger_entries ?s)))"
    by (simp_all add: entries entry_ok_def encoded_def b)
  then obtain d where d: "canonical_ledger_digest sample_X ?s = Inr d"
    by (simp add: canonical_ledger_digest_def sorted_entries_Inr bm_ok_sort_key)
  have "from_snapshot_with_policy sample_X ?s ''net'' Exact = Inr \<lparr> ff_snapshot = ?s, ff_ledger_digest = d \<rparr>"
    by (simp add: from_snapshot_with_policy_def policy_check_def Let_def d)
      (simp add: snapshot_of_def ledger_info_of_def sample_anchor_def)
  moreover have "snapshot_from_materialized sample_X (sample_materialized sample_all_coverage) = Inr ?s"
    using materialized_covered [of sample_X sample_builder sample_all_keys
        "sample_materialized sample_all_coverage"] sample_final
    by (simp add: snapshot_from_materialized_Inr sample_info materialized_closed_def)
  moreover have "\<exists>x. inventory_digest sample_X sample_all_coverage = Inr x"
    by (simp add: inventory_digest_def inventory_preimage_Inr state_encodes_def sample_all_coverage_def b)
  ultimately show ?thesis by (auto simp: finish_capture_def sample_info)
qed

lemma sample_capture:
  "\<exists>f. capture_ref_from_keys sample_X sample_sdk sample_builder sample_scenario sample_keys () = (Inr f, ()) \<and>
     finish_capture sample_X sample_builder 1 (sample_materialized sample_all_coverage) = Inr f"
proof -
  obtain f where f: "finish_capture sample_X sample_builder 1 (sample_materialized sample_all_coverage) = Inr f"
    using sample_finish ..
  have stored: "with_stored sample_X local_empty sample_all_keys
      [contract_instance_key sample_contract, Key_ContractCode (sample_sha256 [1])] = Inr sample_all_keys"
    by (simp add: with_stored_def sample_all_keys_def key_id_def)
  have add: "try_fold (add_key sample_X) (sample_all_keys, 0)
      [contract_instance_key sample_contract, Key_ContractCode (sample_sha256 [1])] = Inr (sample_all_keys, 0)"
    by (simp add: add_key_def sample_all_keys_def key_id_def)
  have asked: "filter (\<lambda>key. key \<noteq> state_archival_key) (map snd sample_all_keys) =
      [contract_instance_key sample_contract, Key_ContractCode (sample_sha256 [1])]"
    by (simp add: sample_all_keys_def)
  have src: "ts_failure (tracking_source_new c n) = None" "ts_rpc_reads (tracking_source_new c n) = 0" for c n
    by (simp_all add: tracking_source_new_def)
  have after: "after_pass sample_X sample_builder 1 sample_all_keys (sample_materialized sample_all_coverage)
      \<lparr> oc_value = Some True,
        oc_stored = Some [contract_instance_key sample_contract, Key_ContractCode (sample_sha256 [1])] \<rparr>
      local_empty ((tracking_source_new c n)\<lparr>ts_requested := sample_all_keys\<rparr>) () = (Inr (Finished f), ())" for c n
    using stored add f
    by (simp add: after_pass_def take_failure_def src asked del: try_fold.simps list.map filter.simps)
  have pass: "capture_round sample_X sample_sdk sample_builder sample_scenario 1 sample_all_keys
      (sample_materialized sample_all_coverage) () = (Inr (Finished f), ())"
    using sample_final after
    by (simp add: capture_round_def materialized_env [of sample_X sample_builder sample_all_keys]
        materialized_closed_def sample_info sample_pass)
  have loop: "discovery_loop sample_X sample_sdk sample_builder sample_scenario 16 sample_all_keys
      (sample_materialized sample_all_coverage) () = (Inr f, ())"
    using pass by (simp add: numeral_eq_Suc)
  have net: "validate_network sample_X sample_builder () = (Inr (), ())"
    by (simp add: validate_network_def sample_network_def check_protocol_def policy_check_def)
  show ?thesis
    by (rule exI [of _ f])
      (simp add: capture_ref_from_keys_def net sample_run_keys sample_expand loop f [unfolded One_nat_def])
qed

definition sample_captured :: captured_fixture where
  "sample_captured = projr (fst (capture_ref_from_keys sample_X sample_sdk sample_builder
     sample_scenario sample_keys ()))"

lemma sample_captured_run:
  "capture_ref_from_keys sample_X sample_sdk sample_builder sample_scenario sample_keys () =
     (Inr sample_captured, ())"
    and sample_captured_finish:
  "finish_capture sample_X sample_builder 1 (sample_materialized sample_all_coverage) = Inr sample_captured"
  using sample_capture by (auto simp: sample_captured_def)

lemma sample_captured_fields:
  "cf_coverage sample_captured = sample_all_coverage"
  "pv_ledger_hash (cf_provenance sample_captured) = ''aa''"
  using finish_capture_Inr [OF sample_captured_finish]
  by (simp_all add: sample_info) (metis capture_provenance.select_convs(4) sample_anchor_def anchor.select_convs(2))

theorem capture_replays_witness:
  "\<exists>r. replay_with_local sample_X sample_sdk sample_captured sample_scenario = Inr r"
  using capture_replays [OF sample_xdr_laws sample_ledger_info_laws sample_stores
      sample_captured_run sample_keyed] by blast

definition sample_failing :: "unit transport" where
  "sample_failing = \<lparr> tr_network = sfail ''getNetwork'', tr_latest_ledger = sfail ''getLatestLedger'',
     tr_ledger_entries = (\<lambda>keys. sfail ''getLedgerEntries'') \<rparr>"

theorem failed_read_ends_pass_witness:
  "\<exists>out local' s'. run_tracking sample_X (Some sample_failing) (sample_scenario undefined)
     (local_empty, (tracking_source_new [] 29, ())) = (out, (local', (s', ()))) \<and>
   ts_failure s' = Some ''getLedgerEntries'' \<and>
   after_pass sample_X sample_builder 1 [] (sample_materialized []) out local' s' () =
     (Inl (Transport ''getLedgerEntries''), ())"
proof -
  let ?s = "tracking_source_new [] 29" and ?key = "contract_instance_key sample_contract"
  obtain k where script: "sample_scenario undefined = Get ?key k" by (simp add: sample_scenario_def)
  obtain i where i: "key_to_xdr sample_X ?key = Some i" by (simp add: sample_key_to_xdr_def contract_instance_key_def sample_contract_def)
  obtain answer l1 s1 w1 where read: "world_get sample_X (Some sample_failing) ?key (local_empty, (?s, ())) =
      (answer, (l1, (s1, w1)))"
    by (metis prod.exhaust)
  obtain out l' s' w' where run: "run_tracking sample_X (Some sample_failing) (Get ?key k) (local_empty, (?s, ())) =
      (out, (l', (s', w')))"
    by (metis prod.exhaust)
  have refuses: "server_refuses sample_X sample_failing ?key () ''getLedgerEntries''"
    by (simp add: server_refuses_def sample_failing_def sfail_def)
  have start: "bm_ok (ts_cache ?s)" "ts_failure ?s = None" "bm_get (ts_cache ?s) i = None"
    by (simp_all add: tracking_source_new_def)
  from failed_read_ends_pass [OF run read start(1), of "''getLedgerEntries''" i undefined sample_builder 1 "[]"
        "sample_materialized []"]
  show ?thesis using run i refuses start(2,3) unfolding script by auto
qed

theorem absence_is_evidence_witness:
  "\<exists>s'. tracking_get sample_X (Some (cb_transport sample_builder)) local_empty (Key_ContractCode (sample_sha256 [2]))
      (tracking_source_new [] 29, ()) = (Inr None, (s', ())) \<and>
    bm_get (ts_cache s') (7 # sample_sha256 [2]) = Some Absent"
proof -
  let ?key = "Key_ContractCode (sample_sha256 [2])" and ?tr = "cb_transport sample_builder"
  have v: "validate_batch sample_X [?key] [] = Inr []"
    by (simp add: validate_batch_def key_id_def)
  have "server_answer sample_X sample_ledger [?key] = []"
    by (simp add: server_answer_def sample_ledger_def contract_instance_key_def state_archival_key_def)
  then have "\<exists>s'. tracking_get sample_X (Some ?tr) local_empty ?key (tracking_source_new [] 29, ()) =
      (Inr None, (s', ()))"
    by (simp add: tracking_get_def tracking_fetch_def tracking_source_new_def key_id_def v
        state_of_def present_of_def)
  then obtain s' where get: "tracking_get sample_X (Some ?tr) local_empty ?key (tracking_source_new [] 29, ()) =
      (Inr None, (s', ()))" ..
  have "bm_ok (ts_cache (tracking_source_new [] 29))" by (simp add: tracking_source_new_def)
  from absence_is_evidence [OF get this] get show ?thesis by auto
qed

end
