(* ===== verification/Capture_Bundle.thy ===== *)
theory Capture_Bundle
  imports Sample_Replay
begin

text \<open>
  The file format of a captured fixture: \<open>to_bundle\<close>, \<open>from_bundle\<close>, the legacy format and
  their validation in \<open>src/capture.rs\<close>. JSON (\<open>serde_json\<close>) and the parsing of an address
  (\<open>Address::from_str\<close>) are the parameter \<open>J\<close>. The lemmas: a bundle that was written is read
  back as the same fixture, and the canonical digest binds everything a bundle says.
\<close>

record bundle_report =
  br_discovery_rounds :: u32
  br_present_entries :: u64
  br_absent_entries :: u64
  br_final_replay_rpc_reads :: u64

record capture_bundle =
  bu_schema_version :: u32
  bu_ledger_snapshot :: ledger_snapshot
  bu_known_absent :: "string list"
  bu_report :: bundle_report
  bu_provenance :: capture_provenance
  bu_ledger_digest :: string
  bu_inventory_digest :: string
  bu_canonical_digest :: string

record legacy_capture_bundle = capture_bundle +
  bu_root_contract :: string

record bundle_digests =
  bd_ledger :: bytes
  bd_inventory :: bytes

record json_codec =
  js_version :: "bytes \<Rightarrow> u32 option"
  js_bundle :: "bytes \<Rightarrow> capture_bundle option"
  js_legacy :: "bytes \<Rightarrow> legacy_capture_bundle option"
  js_print :: "capture_bundle \<Rightarrow> bytes option"
  address_from_str :: "string \<Rightarrow> sc_address option"

definition json_laws :: "json_codec \<Rightarrow> bool" where
  "json_laws J \<longleftrightarrow> (\<forall>b bs. js_print J b = Some bs \<longrightarrow>
     js_version J bs = Some (bu_schema_version b) \<and> js_bundle J bs = Some b)"

definition capture_bundle_schema_version :: u32 where
  "capture_bundle_schema_version = 2"

definition bundle_digest_domain_v2 :: bytes where
  "bundle_digest_domain_v2 =
     str_bytes ''KANATOKO'' @ [0] @ str_bytes ''CAPTURE-BUNDLE'' @ [0] @ str_bytes ''V2'' @ [0]"

definition legacy_bundle_digest_domain_v1 :: bytes where
  "legacy_bundle_digest_domain_v1 =
     str_bytes ''KANATOKO'' @ [0] @ str_bytes ''CAPTURE-BUNDLE'' @ [0] @ str_bytes ''V1'' @ [0]"

subsection \<open>Digests\<close>

definition update_bundle_digest ::
  "externals \<Rightarrow> string list \<Rightarrow> bundle_report \<Rightarrow> capture_provenance \<Rightarrow> bytes \<Rightarrow> bytes
    \<Rightarrow> capture_error + bytes" where
  "update_bundle_digest X known_absent report provenance ledger_digest inventory =
     and_then (try_map (\<lambda>encoded. and_then (ok_or MalformedCaptureBundle (b64_decode X encoded))
         (\<lambda>key. Inr (digest_field key))) known_absent) (\<lambda>keys.
       Inr (be64 (len64 known_absent) @ concat keys @
            be32 (br_discovery_rounds report) @ be64 (br_present_entries report) @
            be64 (br_absent_entries report) @ be64 (br_final_replay_rpc_reads report) @
            digest_field (str_bytes (pv_rpc_origin provenance)) @
            digest_field (str_bytes (pv_network_passphrase provenance)) @
            be32 (pv_ledger_sequence provenance) @
            digest_field (str_bytes (pv_ledger_hash provenance)) @
            be32 (pv_protocol_version provenance) @ ledger_digest @ inventory))"

definition bundle_preimage ::
  "externals \<Rightarrow> string list \<Rightarrow> bundle_report \<Rightarrow> capture_provenance \<Rightarrow> bytes \<Rightarrow> bytes
    \<Rightarrow> capture_error + bytes" where
  "bundle_preimage X known_absent report provenance ledger_digest inventory =
     and_then (update_bundle_digest X known_absent report provenance ledger_digest inventory)
       (\<lambda>bs. Inr (bundle_digest_domain_v2 @ be32 capture_bundle_schema_version @ bs))"

definition canonical_bundle_digest ::
  "externals \<Rightarrow> string list \<Rightarrow> bundle_report \<Rightarrow> capture_provenance \<Rightarrow> bytes \<Rightarrow> bytes
    \<Rightarrow> capture_error + bytes" where
  "canonical_bundle_digest X known_absent report provenance ledger_digest inventory =
     and_then (bundle_preimage X known_absent report provenance ledger_digest inventory)
       (\<lambda>bs. Inr (sha256 X bs))"

definition legacy_canonical_bundle_digest ::
  "externals \<Rightarrow> string \<Rightarrow> string list \<Rightarrow> bundle_report \<Rightarrow> capture_provenance \<Rightarrow> bytes \<Rightarrow> bytes
    \<Rightarrow> capture_error + bytes" where
  "legacy_canonical_bundle_digest X root_contract known_absent report provenance ledger_digest inventory =
     and_then (update_bundle_digest X known_absent report provenance ledger_digest inventory)
       (\<lambda>bs. Inr (sha256 X (legacy_bundle_digest_domain_v1 @ be32 1 @
          digest_field (str_bytes root_contract) @ bs)))"

subsection \<open>Writing\<close>

definition try_u32 :: "nat \<Rightarrow> capture_error + u32" where
  "try_u32 n = (if n < 2 ^ 32 then Inr (word_of_nat n) else Inl InternalInvariant)"

definition try_u64 :: "nat \<Rightarrow> capture_error + u64" where
  "try_u64 n = (if n < 2 ^ 64 then Inr (word_of_nat n) else Inl InternalInvariant)"

definition to_bundle :: "externals \<Rightarrow> captured_fixture \<Rightarrow> capture_error + capture_bundle" where
  "to_bundle X f =
     (let known_absent = map (b64_encode X) (known_absent_keys f);
          ledger_digest = ff_ledger_digest (cf_fixture f);
          report = cf_report f in
      and_then (inventory_digest X (cf_coverage f)) (\<lambda>inventory.
      if inventory \<noteq> cr_inventory_digest report then Inl InternalInvariant
      else
        and_then (try_u32 (cr_discovery_rounds report)) (\<lambda>rounds.
        and_then (try_u64 (cr_present_entries report)) (\<lambda>present.
        and_then (try_u64 (cr_absent_entries report)) (\<lambda>absent.
          let bundle_report = \<lparr> br_discovery_rounds = rounds, br_present_entries = present,
                br_absent_entries = absent,
                br_final_replay_rpc_reads = cr_final_replay_rpc_reads report \<rparr> in
          and_then (canonical_bundle_digest X known_absent bundle_report (cf_provenance f)
              ledger_digest inventory) (\<lambda>canonical.
            Inr \<lparr> bu_schema_version = capture_bundle_schema_version,
                  bu_ledger_snapshot = ff_snapshot (cf_fixture f), bu_known_absent = known_absent,
                  bu_report = bundle_report, bu_provenance = cf_provenance f,
                  bu_ledger_digest = hex ledger_digest, bu_inventory_digest = hex inventory,
                  bu_canonical_digest = hex canonical \<rparr>))))))"

subsection \<open>Reading\<close>

definition validate_bundle_metadata ::
  "ledger_snapshot \<Rightarrow> bundle_report \<Rightarrow> capture_provenance \<Rightarrow> string \<Rightarrow> capture_error + unit" where
  "validate_bundle_metadata snapshot report provenance passphrase =
     (if pv_network_passphrase provenance \<noteq> passphrase then Inl NetworkMismatch
      else and_then (redact_rpc_origin (pv_rpc_origin provenance)) (\<lambda>origin.
        if origin \<noteq> pv_rpc_origin provenance then Inl MalformedCaptureBundle
        else
          let discovery_rounds = unat (br_discovery_rounds report) in
          if pv_ledger_sequence provenance \<noteq> sn_sequence_number snapshot
             \<or> pv_protocol_version provenance \<noteq> sn_protocol_version snapshot
             \<or> pv_ledger_hash provenance = []
             \<or> discovery_rounds = 0
             \<or> discovery_rounds > max_discovery_rounds
             \<or> br_final_replay_rpc_reads report \<noteq> 0
          then Inl CaptureBundleIntegrity else Inr ()))"

definition check_digests ::
  "('a capture_bundle_scheme \<Rightarrow> bytes \<Rightarrow> bytes \<Rightarrow> capture_error + bytes) \<Rightarrow> u32
    \<Rightarrow> 'a capture_bundle_scheme \<Rightarrow> string \<Rightarrow> capture_error + bundle_digests" where
  "check_digests expected version bundle passphrase =
     (if bu_schema_version bundle \<noteq> version
      then Inl (UnsupportedCaptureBundleSchema (bu_schema_version bundle) capture_bundle_schema_version)
      else
        and_then (validate_bundle_metadata (bu_ledger_snapshot bundle) (bu_report bundle)
            (bu_provenance bundle) passphrase) (\<lambda>_.
        and_then (decode_hex_digest (bu_ledger_digest bundle)) (\<lambda>ledger.
        and_then (decode_hex_digest (bu_inventory_digest bundle)) (\<lambda>inventory.
        and_then (decode_hex_digest (bu_canonical_digest bundle)) (\<lambda>actual_canonical.
        and_then (expected bundle ledger inventory) (\<lambda>expected_canonical.
          if actual_canonical \<noteq> expected_canonical then Inl CaptureBundleIntegrity
          else Inr \<lparr> bd_ledger = ledger, bd_inventory = inventory \<rparr>))))))"

definition validate_bundle_envelope ::
  "externals \<Rightarrow> capture_bundle \<Rightarrow> string \<Rightarrow> capture_error + bundle_digests" where
  "validate_bundle_envelope X =
     check_digests (\<lambda>bundle. canonical_bundle_digest X (bu_known_absent bundle) (bu_report bundle)
       (bu_provenance bundle)) capture_bundle_schema_version"

definition validate_legacy_bundle_envelope ::
  "externals \<Rightarrow> legacy_capture_bundle \<Rightarrow> string \<Rightarrow> capture_error + bundle_digests" where
  "validate_legacy_bundle_envelope X =
     check_digests (\<lambda>bundle. legacy_canonical_bundle_digest X (bu_root_contract bundle)
       (bu_known_absent bundle) (bu_report bundle) (bu_provenance bundle)) 1"

definition cover_present ::
  "externals \<Rightarrow> coverage \<Rightarrow> snapshot_entry \<Rightarrow> capture_error + coverage" where
  "cover_present X coverage = (\<lambda>(_, entry, live_until).
     let key = to_key X entry in
     if is_state_archival_key key then Inl MalformedCaptureBundle
     else and_then (key_id X key) (\<lambda>i.
       if bm_get coverage i \<noteq> None then Inl CaptureBundleIntegrity
       else Inr (bm_insert i (Present entry live_until) coverage)))"

definition cover_absent ::
  "externals \<Rightarrow> bytes option \<times> coverage \<Rightarrow> string \<Rightarrow> capture_error + (bytes option \<times> coverage)" where
  "cover_absent X = (\<lambda>(previous, coverage) encoded.
     and_then (ok_or MalformedCaptureBundle (b64_decode X encoded)) (\<lambda>bs.
     if b64_encode X bs \<noteq> encoded then Inl MalformedCaptureBundle
     else
       and_then (ok_or MalformedCaptureBundle (key_from_xdr X bs)) (\<lambda>key.
       and_then (key_id X key) (\<lambda>i.
       if i \<noteq> bs \<or> is_state_archival_key key then Inl MalformedCaptureBundle
       else if (case previous of None \<Rightarrow> False | Some p \<Rightarrow> bs \<le> p) then Inl MalformedCaptureBundle
       else if bm_get coverage bs \<noteq> None then Inl CaptureBundleIntegrity
       else Inr (Some bs, bm_insert bs Absent coverage)))))"

definition bundle_coverage ::
  "externals \<Rightarrow> ledger_snapshot \<Rightarrow> string list \<Rightarrow> capture_error + coverage" where
  "bundle_coverage X snapshot known_absent =
     and_then (try_fold (cover_present X) [] (sn_ledger_entries snapshot)) (\<lambda>coverage.
     and_then (try_fold (cover_absent X) (None, coverage) known_absent) (\<lambda>(_, coverage').
       Inr coverage'))"

definition validate_bundle_coverage ::
  "externals \<Rightarrow> coverage \<Rightarrow> bundle_report \<Rightarrow> bytes \<Rightarrow> u32 \<Rightarrow> u32 \<Rightarrow> capture_error + nat \<times> nat" where
  "validate_bundle_coverage X coverage report expected ledger_sequence max_entry_ttl =
     (if validate_coverage X coverage ledger_sequence max_entry_ttl \<noteq> Inr ()
         \<or> ensure_executable_closure_present X coverage \<noteq> Inr ()
      then Inl CaptureBundleIntegrity
      else
        let present = present_entries coverage; absent = absent_entries coverage in
        and_then (inventory_digest X coverage) (\<lambda>digest.
          if digest \<noteq> expected
             \<or> try_u64 present \<noteq> Inr (br_present_entries report)
             \<or> try_u64 absent \<noteq> Inr (br_absent_entries report)
          then Inl CaptureBundleIntegrity else Inr (present, absent)))"

definition rebuild ::
  "'a capture_bundle_scheme \<Rightarrow> bundle_digests \<Rightarrow> frozen_fixture \<Rightarrow> coverage \<Rightarrow> nat \<times> nat \<Rightarrow> captured_fixture" where
  "rebuild bundle digests fixture coverage counts =
     \<lparr> cf_fixture = fixture, cf_coverage = coverage,
       cf_report = \<lparr> cr_discovery_rounds = unat (br_discovery_rounds (bu_report bundle)),
         cr_present_entries = fst counts, cr_absent_entries = snd counts,
         cr_inventory_digest = bd_inventory digests, cr_final_replay_rpc_reads = 0 \<rparr>,
       cf_provenance = bu_provenance bundle \<rparr>"

definition from_bundle ::
  "externals \<Rightarrow> capture_bundle \<Rightarrow> string \<Rightarrow> protocol_policy \<Rightarrow> capture_error + captured_fixture" where
  "from_bundle X bundle passphrase policy =
     and_then (validate_bundle_envelope X bundle passphrase) (\<lambda>digests.
     and_then (map_err Fixture
         (from_snapshot_with_policy X (bu_ledger_snapshot bundle) passphrase policy)) (\<lambda>fixture.
     if ff_ledger_digest fixture \<noteq> bd_ledger digests then Inl CaptureBundleIntegrity
     else
       and_then (bundle_coverage X (ff_snapshot fixture) (bu_known_absent bundle)) (\<lambda>coverage.
       and_then (validate_bundle_coverage X coverage (bu_report bundle) (bd_inventory digests)
           (sn_sequence_number (ff_snapshot fixture)) (sn_max_entry_ttl (ff_snapshot fixture))) (\<lambda>counts.
         Inr (rebuild bundle digests fixture coverage counts)))))"

definition parse_legacy_contract_address :: "json_codec \<Rightarrow> string \<Rightarrow> capture_error + sc_address" where
  "parse_legacy_contract_address J v =
     and_then (ok_or MalformedCaptureBundle (address_from_str J v)) (\<lambda>address.
       case address of ScAddress_Contract h \<Rightarrow> Inr address | _ \<Rightarrow> Inl MalformedCaptureBundle)"

definition from_legacy_bundle ::
  "externals \<Rightarrow> json_codec \<Rightarrow> legacy_capture_bundle \<Rightarrow> string \<Rightarrow> protocol_policy
    \<Rightarrow> capture_error + captured_fixture" where
  "from_legacy_bundle X J bundle passphrase policy =
     and_then (validate_legacy_bundle_envelope X bundle passphrase) (\<lambda>digests.
     and_then (map_err Fixture
         (from_snapshot_with_policy X (bu_ledger_snapshot bundle) passphrase policy)) (\<lambda>fixture.
     if ff_ledger_digest fixture \<noteq> bd_ledger digests then Inl CaptureBundleIntegrity
     else
       and_then (parse_legacy_contract_address J (bu_root_contract bundle)) (\<lambda>root.
       and_then (bundle_coverage X (ff_snapshot fixture) (bu_known_absent bundle)) (\<lambda>coverage.
       and_then (map_err (\<lambda>_. CaptureBundleIntegrity) (ensure_legacy_root_present X root coverage)) (\<lambda>_.
       and_then (validate_bundle_coverage X coverage (bu_report bundle) (bd_inventory digests)
           (sn_sequence_number (ff_snapshot fixture)) (sn_max_entry_ttl (ff_snapshot fixture))) (\<lambda>counts.
         Inr (rebuild bundle digests fixture coverage counts)))))))"

definition from_bundle_bytes ::
  "externals \<Rightarrow> json_codec \<Rightarrow> bytes \<Rightarrow> string \<Rightarrow> protocol_policy \<Rightarrow> capture_error + captured_fixture" where
  "from_bundle_bytes X J bs passphrase policy =
     and_then (ok_or MalformedCaptureBundle (js_version J bs)) (\<lambda>version.
       if version = capture_bundle_schema_version then
         and_then (ok_or MalformedCaptureBundle (js_bundle J bs)) (\<lambda>bundle.
           from_bundle X bundle passphrase policy)
       else if version = 1 then
         and_then (ok_or MalformedCaptureBundle (js_legacy J bs)) (\<lambda>bundle.
           from_legacy_bundle X J bundle passphrase policy)
       else Inl (UnsupportedCaptureBundleSchema version capture_bundle_schema_version))"

subsection \<open>Coverage through a bundle\<close>

definition absent_keys :: "coverage \<Rightarrow> key_id list" where
  "absent_keys cov =
     map fst (filter (\<lambda>(key, state). case state of Absent \<Rightarrow> True | Present e l \<Rightarrow> False) cov)"

lemma absent_keys_simps [simp]:
  "absent_keys [] = []"
  "absent_keys ((i, Absent) # cov) = i # absent_keys cov"
  "absent_keys ((i, Present e l) # cov) = absent_keys cov"
  by (simp_all add: absent_keys_def)

lemma entries_of_simps [simp]:
  "entries_of X [] = []"
  "entries_of X ((i, Absent) # cov) = entries_of X cov"
  "entries_of X ((i, Present e l) # cov) = (to_key X e, (e, l)) # entries_of X cov"
  by (simp_all add: entries_of_def)

text \<open>A covered key is the encoding of a key other than the archival setting's.\<close>

definition covered_key :: "externals \<Rightarrow> key_id \<times> lookup_state \<Rightarrow> bool" where
  "covered_key X = (\<lambda>(i, state). \<exists>key. key_to_xdr X key = Some i \<and> key \<noteq> state_archival_key)"

lemma cover_present_all:
  assumes "list_all (covered_entry X) cov" and "bm_ok cov" and "bm_ok acc"
    and "bm_keys cov \<inter> bm_keys acc = {}"
  shows "\<exists>acc'. try_fold (cover_present X) acc (entries_of X cov) = Inr acc' \<and> bm_ok acc' \<and>
    (\<forall>i. bm_get acc' i = (case bm_get cov i of Some (Present e l) \<Rightarrow> Some (Present e l) | _ \<Rightarrow> bm_get acc i))"
  using assms
proof (induction cov arbitrary: acc)
  case Nil
  then show ?case by simp
next
  case (Cons b cov)
  obtain i state where b: "b = (i, state)" by (cases b)
  have i: "i \<notin> bm_keys cov" using Cons.prems(2) by (auto simp: b)
  then have none: "bm_get cov i = None" by (simp add: bm_keys_get)
  show ?case
  proof (cases state)
    case Absent
    have disj: "bm_keys cov \<inter> bm_keys acc = {}" using Cons.prems(4) by (auto simp: b)
    obtain acc' where "try_fold (cover_present X) acc (entries_of X cov) = Inr acc'" "bm_ok acc'"
      "\<forall>j. bm_get acc' j = (case bm_get cov j of Some (Present e l) \<Rightarrow> Some (Present e l) | _ \<Rightarrow> bm_get acc j)"
      using Cons.IH [OF _ _ Cons.prems(3) disj] Cons.prems(1,2) by (auto simp: b)
    then show ?thesis using none by (intro exI [of _ acc']) (auto simp: b Absent)
  next
    case (Present e l)
    have fresh: "bm_get acc i = None" using Cons.prems(4) by (simp add: b bm_keys_get)
    have step: "cover_present X acc (to_key X e, (e, l)) = Inr (bm_insert i (Present e l) acc)"
      using Cons.prems(1) fresh by (simp add: b Present covered_entry_def cover_present_def key_id_def Let_def)
    have disj: "bm_keys cov \<inter> bm_keys (bm_insert i (Present e l) acc) = {}"
      using Cons.prems(4) i by (auto simp: b)
    obtain acc' where rest: "try_fold (cover_present X) (bm_insert i (Present e l) acc) (entries_of X cov) = Inr acc'"
      "bm_ok acc'"
      "\<forall>j. bm_get acc' j = (case bm_get cov j of Some (Present e l) \<Rightarrow> Some (Present e l)
         | _ \<Rightarrow> bm_get (bm_insert i (Present e l) acc) j)"
      using Cons.IH [OF _ _ bm_ok_insert [OF Cons.prems(3)] disj] Cons.prems(1,2) by (auto simp: b)
    have "try_fold (cover_present X) acc (entries_of X (b # cov)) = Inr acc'"
      using rest(1) by (simp add: b Present step)
    moreover have "bm_get acc' j = (case bm_get (b # cov) j of Some (Present e l) \<Rightarrow> Some (Present e l)
        | _ \<Rightarrow> bm_get acc j)" for j
      using rest(3) none Cons.prems(3)
      by (simp add: b Present bm_get_insert split: option.split lookup_state.split)
    ultimately show ?thesis using rest(2) by blast
  qed
qed

lemma cover_absent_step:
  assumes "xdr_laws X" "base64_laws X" and "covered_key X (i, state)" and "bm_get acc i = None"
    and "\<forall>p. previous = Some p \<longrightarrow> p < i"
  shows "cover_absent X (previous, acc) (b64_encode X i) = Inr (Some i, bm_insert i Absent acc)"
proof -
  obtain key where key: "key_to_xdr X key = Some i" "key \<noteq> state_archival_key"
    using assms(3) by (auto simp: covered_key_def)
  then have dec: "key_from_xdr X i = Some key" using assms(1) by (simp add: xdr_laws_def)
  have b64: "b64_decode X (b64_encode X i) = Some i" using assms(2) by (simp add: base64_laws_def)
  have "\<not> (case previous of None \<Rightarrow> False | Some p \<Rightarrow> i \<le> p)"
    using assms(5) by (auto split: option.split)
  then show ?thesis using key assms(4) by (simp add: cover_absent_def b64 dec key_id_def)
qed

lemma cover_absent_all:
  assumes laws: "xdr_laws X" "base64_laws X"
    and "list_all (covered_key X) cov" and "bm_ok cov" and "bm_ok acc"
    and "\<forall>i. bm_get cov i = Some Absent \<longrightarrow> bm_get acc i = None"
    and "\<forall>p. previous = Some p \<longrightarrow> (\<forall>i\<in>bm_keys cov. p < i)"
  shows "\<exists>p acc'. try_fold (cover_absent X) (previous, acc) (map (b64_encode X) (absent_keys cov)) = Inr (p, acc') \<and>
    bm_ok acc' \<and>
    (\<forall>i. bm_get acc' i = (if bm_get cov i = Some Absent then Some Absent else bm_get acc i))"
  using assms(3-)
proof (induction cov arbitrary: acc previous)
  case Nil
  then show ?case by simp
next
  case (Cons b cov)
  obtain i state where b: "b = (i, state)" by (cases b)
  have i: "i \<notin> bm_keys cov" "\<forall>j\<in>bm_keys cov. i < j" using Cons.prems(2) by (auto simp: b)
  then have none: "bm_get cov i = None" by (simp add: bm_keys_get)
  show ?case
  proof (cases state)
    case (Present e l)
    have cond: "\<forall>j. bm_get cov j = Some Absent \<longrightarrow> bm_get acc j = None"
      using Cons.prems(4) none by (auto simp: b Present split: if_splits)
    have prev: "\<forall>p. previous = Some p \<longrightarrow> (\<forall>j\<in>bm_keys cov. p < j)"
      using Cons.prems(5) by (simp add: b)
    obtain p acc' where "try_fold (cover_absent X) (previous, acc) (map (b64_encode X) (absent_keys cov)) = Inr (p, acc')"
      "bm_ok acc'" "\<forall>j. bm_get acc' j = (if bm_get cov j = Some Absent then Some Absent else bm_get acc j)"
      using Cons.IH [OF _ _ Cons.prems(3) cond prev] Cons.prems(1,2) by (auto simp: b)
    then show ?thesis using none by (intro exI [of _ p] exI [of _ acc']) (auto simp: b Present)
  next
    case Absent
    have step: "cover_absent X (previous, acc) (b64_encode X i) = Inr (Some i, bm_insert i Absent acc)"
      using Cons.prems(1,4,5) by (intro cover_absent_step [OF laws]) (auto simp: b Absent)
    have cond: "\<forall>j. bm_get cov j = Some Absent \<longrightarrow> bm_get (bm_insert i Absent acc) j = None"
      using Cons.prems(3,4) none by (auto simp: b Absent bm_get_insert split: if_splits)
    obtain p acc' where rest: "try_fold (cover_absent X) (Some i, bm_insert i Absent acc)
        (map (b64_encode X) (absent_keys cov)) = Inr (p, acc')"
      "bm_ok acc'" "\<forall>j. bm_get acc' j = (if bm_get cov j = Some Absent then Some Absent
         else bm_get (bm_insert i Absent acc) j)"
      using Cons.IH [OF _ _ bm_ok_insert [OF Cons.prems(3)] cond, of "Some i"] Cons.prems(1,2) i(2)
      by (auto simp: b)
    have "try_fold (cover_absent X) (previous, acc) (map (b64_encode X) (absent_keys (b # cov))) = Inr (p, acc')"
      using rest(1) by (simp add: b Absent step)
    moreover have "bm_get acc' j = (if bm_get (b # cov) j = Some Absent then Some Absent else bm_get acc j)" for j
      using rest(3) none Cons.prems(3) by (simp add: b Absent bm_get_insert)
    ultimately show ?thesis using rest(2) by blast
  qed
qed

lemma bundle_coverage_roundtrip:
  assumes "xdr_laws X" and "base64_laws X" and "list_all (covered_entry X) cov"
    and "list_all (covered_key X) cov" and "bm_ok cov"
  shows "bundle_coverage X (snapshot_of X info cov) (map (b64_encode X) (absent_keys cov)) = Inr cov"
proof -
  obtain acc where acc: "try_fold (cover_present X) [] (entries_of X cov) = Inr acc" "bm_ok acc"
    and get: "\<forall>i. bm_get acc i = (case bm_get cov i of Some (Present e l) \<Rightarrow> Some (Present e l) | _ \<Rightarrow> bm_get [] i)"
    using cover_present_all [OF assms(3,5), of "[]"] by auto
  have "\<forall>i. bm_get cov i = Some Absent \<longrightarrow> bm_get acc i = None" by (simp add: get)
  then obtain p acc' where acc': "try_fold (cover_absent X) (None, acc) (map (b64_encode X) (absent_keys cov)) = Inr (p, acc')"
      "bm_ok acc'"
    and get': "\<And>i. bm_get acc' i = (if bm_get cov i = Some Absent then Some Absent else bm_get acc i)"
    using cover_absent_all [OF assms(1,2,4,5) acc(2), of None] by auto
  have "bm_get acc' i = bm_get cov i" for i
    by (simp add: get get' split: option.split lookup_state.split)
  then have "acc' = cov" using bm_ext [OF acc'(2) assms(5)] by (simp add: fun_eq_iff)
  then show ?thesis using acc acc' by (simp add: bundle_coverage_def snapshot_of_def)
qed

subsection \<open>Round trip\<close>

definition captured_ok :: "externals \<Rightarrow> captured_fixture \<Rightarrow> string \<Rightarrow> protocol_policy \<Rightarrow> ledger_info \<Rightarrow> bool" where
  "captured_ok X f passphrase policy info \<longleftrightarrow>
     ff_snapshot (cf_fixture f) = snapshot_of X info (cf_coverage f) \<and>
     from_snapshot_with_policy X (ff_snapshot (cf_fixture f)) passphrase policy = Inr (cf_fixture f) \<and>
     bm_ok (cf_coverage f) \<and> list_all (covered_entry X) (cf_coverage f) \<and>
     list_all (covered_key X) (cf_coverage f) \<and>
     list_all (state_valid X (li_sequence_number info) (li_max_entry_ttl info)) (cf_coverage f) \<and>
     ensure_executable_closure_present X (cf_coverage f) = Inr () \<and>
     inventory_digest X (cf_coverage f) = Inr (cr_inventory_digest (cf_report f)) \<and>
     cr_present_entries (cf_report f) = present_entries (cf_coverage f) \<and>
     cr_absent_entries (cf_report f) = absent_entries (cf_coverage f) \<and>
     cr_final_replay_rpc_reads (cf_report f) = 0 \<and>
     1 \<le> cr_discovery_rounds (cf_report f) \<and>
     pv_network_passphrase (cf_provenance f) = passphrase \<and>
     pv_ledger_sequence (cf_provenance f) = li_sequence_number info \<and>
     pv_protocol_version (cf_provenance f) = li_protocol_version info"

lemma materialized_covered_keys:
  assumes "materialized_ok X B keys m"
  shows "list_all (covered_key X) (mt_coverage m)"
proof -
  obtain config_id and settings :: state_archival_settings
    where c: "key_to_xdr X state_archival_key = Some config_id"
    and dom: "bm_keys (mt_coverage m) = bm_keys keys - {config_id}" and k: "bm_ok keys" "keyed X keys"
    using assms by (rule materialized_okE) (rule that)
  have "covered_key X (i, state)" if "(i, state) \<in> set (mt_coverage m)" for i state
  proof -
    have "i \<in> bm_keys (mt_coverage m)" using that by (force simp: bm_keys_def)
    then have "i \<in> bm_keys keys" "i \<noteq> config_id" using dom by auto
    then obtain key where "(i, key) \<in> set keys" by (auto simp: bm_keys_def)
    then have "key_to_xdr X key = Some i" using k(2) by (auto simp: keyed_def list_all_iff)
    then show ?thesis using c \<open>i \<noteq> config_id\<close> by (auto simp: covered_key_def)
  qed
  then show ?thesis by (auto simp: list_all_iff)
qed

lemma capture_gives_ok:
  assumes "capture_ref_from_keys X S B scenario keys w = (Inr f, w')" and "bm_ok keys" and "keyed X keys"
  shows "\<exists>info. captured_ok X f (cb_network_passphrase B) (cb_protocol_policy B) info \<and>
    cr_discovery_rounds (cf_report f) \<le> cb_max_discovery_rounds B \<and>
    pv_rpc_origin (cf_provenance f) = cb_rpc_origin B \<and>
    (\<exists>anchor w1 w2. tr_latest_ledger (cb_transport B) w1 = (Inr anchor, w2) \<and>
       pv_ledger_hash (cf_provenance f) = an_hash anchor)"
proof -
  obtain round keys2 m w1 where m: "materialized_closed X B keys2 m"
    and rounds: "1 \<le> round" "round \<le> cb_max_discovery_rounds B"
    and pass: "capture_round X S B scenario round keys2 m w1 = (Inr (Finished f), w')"
    using assms by (rule capture_finishes) (rule that)
  have mo: "materialized_ok X B keys2 m" using m by (simp add: materialized_closed_def)
  let ?start = "(local_empty, tracking_source_new (mt_coverage m) (li_protocol_version (mt_ledger_info m)), w1)"
  let ?script = "scenario (fork_env X S (Seed_Ledger (Some (mt_ledger_info m))
         (Some (snapshot_of X (mt_ledger_info m) (mt_coverage m)))))"
  obtain out local s w2 where run: "run_tracking X (Some (cb_transport B)) ?script ?start = (out, (local, s, w2))"
    by (metis prod.exhaust)
  have after: "after_pass X B round keys2 m out local s w2 = (Inr (Finished f), w')"
    using pass run by (simp add: capture_round_def materialized_env [OF mo])
  have "finish_capture X B round m = Inr f"
    using after by (rule after_pass_Inr) (auto split: if_splits)
  note f = finish_capture_Inr [OF this]
  obtain config_id and settings :: state_archival_settings
    where info: "mt_ledger_info m = ledger_info_of X (cb_network_passphrase B) (mt_anchor m) settings"
    and valid: "list_all (state_valid X (an_sequence (mt_anchor m)) (sa_max_entry_ttl settings)) (mt_coverage m)"
    and cov: "bm_ok (mt_coverage m)"
    and anchor: "\<exists>w w'. tr_latest_ledger (cb_transport B) w = (Inr (mt_anchor m), w')"
    using mo by (rule materialized_okE) (rule that)
  have fields: "li_sequence_number (mt_ledger_info m) = an_sequence (mt_anchor m)"
      "li_max_entry_ttl (mt_ledger_info m) = sa_max_entry_ttl settings"
      "li_protocol_version (mt_ledger_info m) = an_protocol_version (mt_anchor m)"
    by (simp_all add: info ledger_info_of_def)
  have rep: "cr_discovery_rounds (cf_report f) = round"
      "cr_present_entries (cf_report f) = present_entries (mt_coverage m)"
      "cr_absent_entries (cf_report f) = absent_entries (mt_coverage m)"
      "cr_final_replay_rpc_reads (cf_report f) = 0"
    using f by (metis capture_report.select_convs)+
  have prov: "pv_rpc_origin (cf_provenance f) = cb_rpc_origin B"
      "pv_network_passphrase (cf_provenance f) = cb_network_passphrase B"
      "pv_ledger_sequence (cf_provenance f) = an_sequence (mt_anchor m)"
      "pv_protocol_version (cf_provenance f) = an_protocol_version (mt_anchor m)"
      "pv_ledger_hash (cf_provenance f) = an_hash (mt_anchor m)"
    using f by (metis capture_provenance.select_convs)+
  have "captured_ok X f (cb_network_passphrase B) (cb_protocol_policy B) (mt_ledger_info m)"
    using f rep prov m rounds(1) valid cov materialized_covered_keys [OF mo]
    unfolding captured_ok_def materialized_closed_def fields by simp
  then show ?thesis using rep(1) rounds(2) prov(1,5) anchor by auto
qed

lemma canonical_digest_of_written:
  assumes "base64_laws X" and "sha_laws X"
  obtains d where "canonical_bundle_digest X (map (b64_encode X) keys) report provenance ledger inventory = Inr d"
    and "length d = 32"
proof -
  have "\<exists>parts. try_map (\<lambda>encoded. and_then (ok_or MalformedCaptureBundle (b64_decode X encoded))
      (\<lambda>key. Inr (digest_field key))) (map (b64_encode X) keys) = Inr parts"
    using assms(1) by (simp add: try_map_Inr_iff_all base64_laws_def)
  then have "\<exists>d. canonical_bundle_digest X (map (b64_encode X) keys) report provenance ledger inventory = Inr d \<and>
      length d = 32"
    using assms(2) by (auto simp: canonical_bundle_digest_def bundle_preimage_def update_bundle_digest_def sha_laws_def)
  then show thesis using that by blast
qed

lemma counts_fit:
  "fits_usize cov \<Longrightarrow> present_entries cov < 2 ^ 64 \<and> absent_entries cov < 2 ^ 64"
  unfolding present_entries_def absent_entries_def fits_usize_def
  by (meson diff_le_self le_less_trans length_filter_le)

lemma digest_lengths:
  assumes "sha_laws X"
  shows "inventory_digest X cov = Inr d \<Longrightarrow> length d = 32"
    and "from_snapshot_with_policy X snapshot passphrase policy = Inr fixture \<Longrightarrow>
      length (ff_ledger_digest fixture) = 32"
  using assms
  by (auto simp: inventory_digest_def from_snapshot_with_policy_def Let_def canonical_ledger_digest_def
      sha_laws_def split: if_splits)

lemma bundle_roundtrip_ok:
  assumes laws: "xdr_laws X" "sha_laws X" "base64_laws X"
    and ok: "captured_ok X f passphrase policy info"
    and rounds: "cr_discovery_rounds (cf_report f) \<le> max_discovery_rounds"
    and origin: "redact_rpc_origin (pv_rpc_origin (cf_provenance f)) = Inr (pv_rpc_origin (cf_provenance f))"
    and hash: "pv_ledger_hash (cf_provenance f) \<noteq> []"
    and fits: "fits_usize (cf_coverage f)"
  shows "\<exists>b. to_bundle X f = Inr b \<and> bu_schema_version b = capture_bundle_schema_version \<and>
    from_bundle X b passphrase policy = Inr f"
proof -
  let ?cov = "cf_coverage f" and ?s = "ff_snapshot (cf_fixture f)" and ?r = "cf_report f"
    and ?p = "cf_provenance f"
  let ?absent = "map (b64_encode X) (absent_keys ?cov)"
  have absent: "known_absent_keys f = absent_keys ?cov" by (simp add: known_absent_keys_def absent_keys_def)
  have r: "cr_discovery_rounds ?r < 2 ^ 32" "cr_discovery_rounds ?r \<noteq> 0"
    using rounds ok by (simp_all add: max_discovery_rounds_def captured_ok_def)
  have counts: "present_entries ?cov < 2 ^ 64" "absent_entries ?cov < 2 ^ 64" using counts_fit [OF fits] by auto
  let ?br = "\<lparr> br_discovery_rounds = word_of_nat (cr_discovery_rounds ?r),
      br_present_entries = word_of_nat (present_entries ?cov),
      br_absent_entries = word_of_nat (absent_entries ?cov), br_final_replay_rpc_reads = 0 \<rparr>"
  let ?inv = "cr_inventory_digest ?r" and ?led = "ff_ledger_digest (cf_fixture f)"
  obtain d where d: "canonical_bundle_digest X ?absent ?br ?p ?led ?inv = Inr d" "length d = 32"
    using canonical_digest_of_written [OF laws(3,2)] by blast
  let ?b = "\<lparr> bu_schema_version = capture_bundle_schema_version, bu_ledger_snapshot = ?s,
      bu_known_absent = ?absent, bu_report = ?br, bu_provenance = ?p, bu_ledger_digest = hex ?led,
      bu_inventory_digest = hex ?inv, bu_canonical_digest = hex d \<rparr>"
  have inv: "inventory_digest X ?cov = Inr ?inv" using ok by (simp add: captured_ok_def)
  have led: "from_snapshot_with_policy X ?s passphrase policy = Inr (cf_fixture f)"
    using ok unfolding captured_ok_def by blast
  have len: "length ?led = 32" "length ?inv = 32"
    using digest_lengths [OF laws(2)] led inv by blast+
  have wrote: "to_bundle X f = Inr ?b"
    using inv ok r(1) counts d(1) by (simp add: to_bundle_def Let_def absent try_u32_def try_u64_def captured_ok_def)
  have un: "unat (word_of_nat (cr_discovery_rounds ?r) :: u32) = cr_discovery_rounds ?r"
    using r(1) by (simp add: unat_of_nat)
  have hexes: "decode_hex_digest (hex ?led) = Inr ?led" "decode_hex_digest (hex ?inv) = Inr ?inv"
      "decode_hex_digest (hex d) = Inr d"
    using decode_hex_digest_iff len d(2) by simp_all
  have meta: "validate_bundle_metadata ?s ?br ?p passphrase = Inr ()"
    using ok origin hash r(2) rounds
    by (simp add: validate_bundle_metadata_def captured_ok_def un snapshot_of_def Let_def)
  have envelope: "validate_bundle_envelope X ?b passphrase = Inr \<lparr> bd_ledger = ?led, bd_inventory = ?inv \<rparr>"
    by (simp add: validate_bundle_envelope_def check_digests_def meta hexes d(1))
  have cover: "bundle_coverage X ?s ?absent = Inr ?cov"
    using bundle_coverage_roundtrip [OF laws(1,3)] ok by (simp add: captured_ok_def)
  have valid: "validate_bundle_coverage X ?cov ?br ?inv (sn_sequence_number ?s) (sn_max_entry_ttl ?s) =
      Inr (present_entries ?cov, absent_entries ?cov)"
    using ok inv counts
    by (simp add: validate_bundle_coverage_def captured_ok_def snapshot_of_def validate_coverage_Inr
        Let_def try_u64_def)
  have "from_bundle X ?b passphrase policy = Inr (rebuild ?b \<lparr> bd_ledger = ?led, bd_inventory = ?inv \<rparr>
      (cf_fixture f) ?cov (present_entries ?cov, absent_entries ?cov))"
    by (simp add: from_bundle_def envelope led cover valid)
  also have "\<dots> = Inr f"
    using ok un by (simp add: rebuild_def captured_ok_def)
  finally show ?thesis using wrote by (intro exI [of _ ?b]) simp
qed

lemma redact_idempotent:
  assumes "redact_rpc_origin raw = Inr out"
  shows "redact_rpc_origin out = Inr out"
proof -
  let ?P = "\<lambda>c. c \<notin> set ''/?#''" and ?A = "\<lambda>c. c \<noteq> CHR ''@''"
  obtain scheme host where shape: "scheme \<in> {''http'', ''https''}" "out = scheme @ ''://'' @ host"
      "host \<noteq> []" "list_all ?P host" "CHR ''@'' \<notin> set host"
  proof -
    obtain scheme remainder where split: "split_once ''://'' raw = Some (scheme, remainder)"
      using assms by (auto simp: redact_rpc_origin_def)
    define authority where "authority = takeWhile ?P remainder"
    define host where "host = (if CHR ''@'' \<in> set authority
      then rev (takeWhile ?A (rev authority)) else authority)"
    have out: "scheme \<in> {''http'', ''https''}" "host \<noteq> []" "out = scheme @ ''://'' @ host"
      using assms by (auto simp: redact_rpc_origin_def split host_def authority_def Let_def split: if_splits)
    have "set host \<subseteq> set authority"
      by (auto simp: host_def dest: set_takeWhileD)
    then have "list_all ?P host"
      unfolding authority_def list_all_iff by (blast dest: set_takeWhileD)
    moreover have "CHR ''@'' \<notin> set host" by (auto simp: host_def dest: set_takeWhileD)
    ultimately show thesis using that [of scheme host] out by blast
  qed
  have "takeWhile ?P host = host" using shape(4) by (simp add: list_all_iff takeWhile_eq_all_conv)
  moreover have "split_once ''://'' out = Some (scheme, host)" using shape(1,2) by auto
  ultimately show ?thesis
    using shape(1,3,5) unfolding shape(2) redact_rpc_origin_def Let_def by (simp only: option.case prod.case) auto
qed

lemma written_capture_reads:
  assumes "capture_ref_from_keys X S B scenario keys w = (Inr f, w')" and "bm_ok keys" and "keyed X keys"
    and "xdr_laws X" and "sha_laws X" and "base64_laws X" and "json_laws J"
    and "cb_max_discovery_rounds B \<le> max_discovery_rounds"
    and "redact_rpc_origin rpc_url = Inr (cb_rpc_origin B)"
    and "pv_ledger_hash (cf_provenance f) \<noteq> []" and "fits_usize (cf_coverage f)"
  shows "\<exists>b. to_bundle X f = Inr b \<and>
    from_bundle X b (cb_network_passphrase B) (cb_protocol_policy B) = Inr f \<and>
    (\<forall>bs. js_print J b = Some bs \<longrightarrow>
       from_bundle_bytes X J bs (cb_network_passphrase B) (cb_protocol_policy B) = Inr f)"
proof -
  obtain info where ok: "captured_ok X f (cb_network_passphrase B) (cb_protocol_policy B) info"
    and rounds: "cr_discovery_rounds (cf_report f) \<le> cb_max_discovery_rounds B"
    and origin: "pv_rpc_origin (cf_provenance f) = cb_rpc_origin B"
    using capture_gives_ok [OF assms(1-3)] by blast
  obtain b where b: "to_bundle X f = Inr b" "bu_schema_version b = capture_bundle_schema_version"
      "from_bundle X b (cb_network_passphrase B) (cb_protocol_policy B) = Inr f"
    using bundle_roundtrip_ok [OF assms(4-6) ok _ _ assms(10,11)] rounds assms(8)
      redact_idempotent [OF assms(9)] unfolding origin by force
  have "from_bundle_bytes X J bs (cb_network_passphrase B) (cb_protocol_policy B) = Inr f"
    if "js_print J b = Some bs" for bs
    using that assms(7) b(2,3) by (simp add: from_bundle_bytes_def json_laws_def)
  with b show ?thesis by blast
qed

text \<open>
  C2. A captured fixture survives its file: a capture made through an origin-redacted builder
  is written as a bundle of the current schema, and reading that bundle back, or the bytes it
  is printed to, under the same passphrase and protocol policy passes every check of the reader
  and rebuilds the same fixture, coverage, report and provenance included.
\<close>

theorem bundle_roundtrip:
  assumes "capture_ref_from_keys X S B scenario keys w = (Inr f, w')" and "bm_ok keys" and "keyed X keys"
    and "xdr_laws X" and "sha_laws X" and "base64_laws X" and "json_laws J"
    and "cb_max_discovery_rounds B \<le> max_discovery_rounds"
    and "redact_rpc_origin rpc_url = Inr (cb_rpc_origin B)"
    and "pv_ledger_hash (cf_provenance f) \<noteq> []" and "fits_usize (cf_coverage f)"
  shows "\<exists>b. to_bundle X f = Inr b \<and>
    from_bundle X b (cb_network_passphrase B) (cb_protocol_policy B) = Inr f \<and>
    (\<forall>bs. js_print J b = Some bs \<longrightarrow>
       from_bundle_bytes X J bs (cb_network_passphrase B) (cb_protocol_policy B) = Inr f)"
  using assms by (rule written_capture_reads)

definition sample_json :: json_codec where
  "sample_json = \<lparr> js_version = (\<lambda>bs. if bs = [1] then Some 2 else None),
     js_bundle = (\<lambda>bs. if bs = [1] then (case to_bundle sample_X sample_captured of
        Inl e \<Rightarrow> None | Inr b \<Rightarrow> Some b) else None),
     js_legacy = (\<lambda>bs. None),
     js_print = (\<lambda>b. if to_bundle sample_X sample_captured = Inr b then Some [1] else None),
     address_from_str = (\<lambda>s. None) \<rparr>"

lemma to_bundle_version: "to_bundle X f = Inr b \<Longrightarrow> bu_schema_version b = capture_bundle_schema_version"
  by (auto simp: to_bundle_def Let_def split: if_splits)

lemma sample_json_laws: "json_laws sample_json"
  by (auto simp: json_laws_def sample_json_def dest: to_bundle_version
      simp: capture_bundle_schema_version_def split: if_splits)

lemma sample_bundle_premises:
  "cb_max_discovery_rounds sample_builder \<le> max_discovery_rounds"
  "redact_rpc_origin ''https://h'' = Inr (cb_rpc_origin sample_builder)"
  "pv_ledger_hash (cf_provenance sample_captured) \<noteq> []" "fits_usize (cf_coverage sample_captured)"
  by (simp_all add: sample_builder_def redact_rpc_origin_def max_discovery_rounds_def sample_captured_fields
      fits_usize_def sample_all_coverage_def)

theorem bundle_roundtrip_witness:
  "\<exists>b. to_bundle sample_X sample_captured = Inr b \<and>
     from_bundle sample_X b ''net'' Exact = Inr sample_captured \<and>
     from_bundle_bytes sample_X sample_json [1] ''net'' Exact = Inr sample_captured"
proof -
  note trip = bundle_roundtrip [OF sample_captured_run sample_keyed sample_xdr_laws sample_sha_laws
      sample_base64_laws sample_json_laws sample_bundle_premises]
  then obtain b where b: "to_bundle sample_X sample_captured = Inr b" by blast
  then have "js_print sample_json b = Some [1]" by (simp add: sample_json_def)
  with b trip show ?thesis by fastforce
qed

subsection \<open>What a capture is\<close>

text \<open>
  C21. What a capture returns is well formed: the covered key ids are strictly sorted, each is the XDR of
  a ledger key that is not the network's settings, and a present entry is stored under its own
  key; the snapshot lists exactly the present entries, belongs to the builder's network, has a
  protocol the policy accepts and the recorded digest; report and provenance say what the
  fixture holds.
\<close>

theorem captured_fixture_typed:
  assumes "capture_ref_from_keys X S B scenario keys w = (Inr f, w')" and "bm_ok keys" and "keyed X keys"
  shows "let cov = cf_coverage f; snapshot = ff_snapshot (cf_fixture f) in
    sorted_wrt (<) (map fst cov) \<and>
    (\<forall>(i, state)\<in>set cov. \<exists>key. key_to_xdr X key = Some i \<and> key \<noteq> state_archival_key \<and>
       (\<forall>e live. state = Present e live \<longrightarrow> to_key X e = key)) \<and>
    set (sn_ledger_entries snapshot) = {(to_key X e, (e, live)) | i e live. (i, Present e live) \<in> set cov} \<and>
    sn_network_id snapshot = sha256 X (str_bytes (cb_network_passphrase B)) \<and>
    policy_check X (cb_protocol_policy B) (sn_protocol_version snapshot) = Inr () \<and>
    canonical_ledger_digest X snapshot = Inr (ff_ledger_digest (cf_fixture f)) \<and>
    cr_present_entries (cf_report f) + cr_absent_entries (cf_report f) = length cov \<and>
    pv_ledger_sequence (cf_provenance f) = sn_sequence_number snapshot \<and>
    pv_protocol_version (cf_provenance f) = sn_protocol_version snapshot"
proof -
  obtain info where ok: "captured_ok X f (cb_network_passphrase B) (cb_protocol_policy B) info"
    using capture_gives_ok [OF assms] by blast
  let ?cov = "cf_coverage f"
  have key: "\<exists>key. key_to_xdr X key = Some i \<and> key \<noteq> state_archival_key \<and>
      (\<forall>e live. state = Present e live \<longrightarrow> to_key X e = key)" if "(i, state) \<in> set ?cov" for i state
    using ok that by (cases state) (auto simp: captured_ok_def list_all_iff covered_entry_def covered_key_def)
  have entries: "set (entries_of X cov) = {(to_key X e, (e, live)) | i e live. (i, Present e live) \<in> set cov}" for cov
    by (force simp: entries_of_def split: lookup_state.splits)
  have "present_entries cov + absent_entries cov = length cov" for cov
    by (simp add: present_entries_def absent_entries_def)
  moreover have accepted: "from_snapshot_with_policy X (ff_snapshot (cf_fixture f)) (cb_network_passphrase B)
      (cb_protocol_policy B) = Inr (cf_fixture f)"
    using ok unfolding captured_ok_def by blast
  moreover have "ff_snapshot (cf_fixture f) = snapshot_of X info ?cov" using ok unfolding captured_ok_def by blast
  then have "sn_ledger_entries (ff_snapshot (cf_fixture f)) = entries_of X ?cov"
      "sn_sequence_number (ff_snapshot (cf_fixture f)) = li_sequence_number info"
      "sn_protocol_version (ff_snapshot (cf_fixture f)) = li_protocol_version info"
    by (simp_all add: snapshot_of_def)
  ultimately show ?thesis
    using ok key entries accepted_snapshot(2-4) [OF accepted]
    by (simp add: Let_def captured_ok_def bm_ok_def case_prod_beta)
qed

theorem captured_fixture_typed_witness:
  "sorted_wrt (<) (map fst (cf_coverage sample_captured)) \<and>
     canonical_ledger_digest sample_X (ff_snapshot (cf_fixture sample_captured)) =
       Inr (ff_ledger_digest (cf_fixture sample_captured))"
  using captured_fixture_typed [OF sample_captured_run sample_keyed] by (simp only: Let_def)

subsection \<open>What the canonical digest binds\<close>

definition provenance_fits :: "capture_provenance \<Rightarrow> bool" where
  "provenance_fits p \<longleftrightarrow> fits_usize (str_bytes (pv_rpc_origin p)) \<and>
     fits_usize (str_bytes (pv_network_passphrase p)) \<and> fits_usize (str_bytes (pv_ledger_hash p))"

definition absent_fits :: "externals \<Rightarrow> string list \<Rightarrow> bool" where
  "absent_fits X es \<longleftrightarrow> fits_usize es \<and>
     list_all (\<lambda>e. case b64_decode X e of None \<Rightarrow> True | Some bs \<Rightarrow> fits_usize bs) es"

lemma decoded_fields:
  assumes "try_map (\<lambda>encoded. and_then (ok_or MalformedCaptureBundle (b64_decode X encoded))
      (\<lambda>key. Inr (digest_field key))) es = Inr parts"
  obtains ks where "map (b64_decode X) es = map Some ks" "parts = map digest_field ks" "length ks = length es"
  using assms
proof (induction es arbitrary: parts thesis)
  case (Cons e es)
  then obtain k rest where k: "b64_decode X e = Some k" "parts = digest_field k # rest"
    "try_map (\<lambda>encoded. and_then (ok_or MalformedCaptureBundle (b64_decode X encoded))
      (\<lambda>key. Inr (digest_field key))) es = Inr rest" by auto
  obtain ks where "map (b64_decode X) es = map Some ks" "rest = map digest_field ks" "length ks = length es"
    using Cons.IH [OF _ k(3)] by blast
  then show ?case using k Cons.prems(1) [of "k # ks"] by simp
qed simp

text \<open>The part of the digest after the absent keys.\<close>

definition bundle_tail :: "bundle_report \<Rightarrow> capture_provenance \<Rightarrow> bytes \<Rightarrow> bytes \<Rightarrow> bytes" where
  "bundle_tail r p l i =
     be32 (br_discovery_rounds r) @ be64 (br_present_entries r) @
     be64 (br_absent_entries r) @ be64 (br_final_replay_rpc_reads r) @
     digest_field (str_bytes (pv_rpc_origin p)) @ digest_field (str_bytes (pv_network_passphrase p)) @
     be32 (pv_ledger_sequence p) @ digest_field (str_bytes (pv_ledger_hash p)) @
     be32 (pv_protocol_version p) @ l @ i"

lemma bundle_tail_inject:
  assumes same: "bundle_tail r p l i = bundle_tail s q m j"
    and fits: "provenance_fits p" "provenance_fits q" and len: "length l = length m"
  shows "r = s \<and> p = q \<and> l = m \<and> i = j"
proof -
  note tail = same [unfolded bundle_tail_def]
  have f: "fits_usize (str_bytes (pv_rpc_origin p))" "fits_usize (str_bytes (pv_rpc_origin q))"
    "fits_usize (str_bytes (pv_network_passphrase p))" "fits_usize (str_bytes (pv_network_passphrase q))"
    "fits_usize (str_bytes (pv_ledger_hash p))" "fits_usize (str_bytes (pv_ledger_hash q))"
    using fits by (simp_all add: provenance_fits_def)
  note t1 = u32_frame.unframe [OF TrueI TrueI tail]
  note t2 = u64_frame.unframe [OF TrueI TrueI t1 [THEN conjunct2]]
  note t3 = u64_frame.unframe [OF TrueI TrueI t2 [THEN conjunct2]]
  note t4 = u64_frame.unframe [OF TrueI TrueI t3 [THEN conjunct2]]
  note t5 = field_frame.unframe [OF f(1,2) t4 [THEN conjunct2]]
  note t6 = field_frame.unframe [OF f(3,4) t5 [THEN conjunct2]]
  note t7 = u32_frame.unframe [OF TrueI TrueI t6 [THEN conjunct2]]
  note t8 = field_frame.unframe [OF f(5,6) t7 [THEN conjunct2]]
  note t9 = u32_frame.unframe [OF TrueI TrueI t8 [THEN conjunct2]]
  have "l = m \<and> i = j" using append_same_length [OF t9 [THEN conjunct2] len] .
  moreover have "r = s" using t1 t2 t3 t4 by (cases r; cases s) simp
  moreover have "p = q" using t5 t6 t7 t8 t9 by (cases p; cases q) simp
  ultimately show ?thesis by simp
qed

lemma update_bundle_digest_inject:
  assumes a: "update_bundle_digest X ka r p l i = Inr bs" and b: "update_bundle_digest X kb s q m j = Inr bs"
    and fits: "absent_fits X ka" "absent_fits X kb" "provenance_fits p" "provenance_fits q"
    and len: "length l = length m"
  shows "map (b64_decode X) ka = map (b64_decode X) kb \<and> r = s \<and> p = q \<and> l = m \<and> i = j"
proof -
  obtain pa where pa: "try_map (\<lambda>encoded. and_then (ok_or MalformedCaptureBundle (b64_decode X encoded))
      (\<lambda>key. Inr (digest_field key))) ka = Inr pa" "bs = be64 (len64 ka) @ concat pa @ bundle_tail r p l i"
    using a by (auto simp: update_bundle_digest_def bundle_tail_def)
  obtain pb where pb: "try_map (\<lambda>encoded. and_then (ok_or MalformedCaptureBundle (b64_decode X encoded))
      (\<lambda>key. Inr (digest_field key))) kb = Inr pb" "bs = be64 (len64 kb) @ concat pb @ bundle_tail s q m j"
    using b by (auto simp: update_bundle_digest_def bundle_tail_def)
  obtain ks where ks: "map (b64_decode X) ka = map Some ks" "pa = map digest_field ks" "length ks = length ka"
    using pa(1) by (rule decoded_fields)
  obtain ls where ls: "map (b64_decode X) kb = map Some ls" "pb = map digest_field ls" "length ls = length kb"
    using pb(1) by (rule decoded_fields)
  have fit: "list_all fits_usize ks" "list_all fits_usize ls"
    using fits(1,2) ks(1) ls(1) unfolding absent_fits_def list_all_length
    by (metis (no_types, lifting) length_map nth_map option.case(2))+
  have "len64 ka = len64 kb \<and> concat pa @ bundle_tail r p l i = concat pb @ bundle_tail s q m j"
    using pa(2) pb(2) by (intro u64_frame.unframe) auto
  then have n: "length ks = length ls"
      and rest: "concat (map digest_field ks) @ bundle_tail r p l i = concat (map digest_field ls) @ bundle_tail s q m j"
    using fits ks(2,3) ls(2,3) by (simp_all add: absent_fits_def)
  have keys: "ks = ls" and tail: "bundle_tail r p l i = bundle_tail s q m j"
    using field_frame.unframe_list [OF fit n rest] by simp_all
  show ?thesis using bundle_tail_inject [OF tail fits(3,4) len] ks(1) ls(1) keys by simp
qed

lemma try_u64_Inr: "try_u64 n = Inr v \<longleftrightarrow> n = unat v"
proof
  assume "try_u64 n = Inr v"
  then have "n < 2 ^ 64" "v = word_of_nat n" by (auto simp: try_u64_def split: if_splits)
  then show "n = unat v" by (simp add: unat_of_nat)
next
  assume "n = unat v"
  then show "try_u64 n = Inr v" using unsigned_less [where 'a = nat, of v] by (simp add: try_u64_def)
qed

lemma check_digests_Inr:
  "check_digests expected version bundle passphrase = Inr digests \<longleftrightarrow>
     bu_schema_version bundle = version \<and>
     validate_bundle_metadata (bu_ledger_snapshot bundle) (bu_report bundle) (bu_provenance bundle) passphrase = Inr () \<and>
     decode_hex_digest (bu_ledger_digest bundle) = Inr (bd_ledger digests) \<and>
     decode_hex_digest (bu_inventory_digest bundle) = Inr (bd_inventory digests) \<and>
     (\<exists>canonical. decode_hex_digest (bu_canonical_digest bundle) = Inr canonical \<and>
        expected bundle (bd_ledger digests) (bd_inventory digests) = Inr canonical)"
  by (auto simp: check_digests_def split: if_splits)

lemma from_bundle_Inr:
  assumes "from_bundle X b passphrase policy = Inr f"
  obtains pre where
    "bundle_preimage X (bu_known_absent b) (bu_report b) (bu_provenance b)
       (ff_ledger_digest (cf_fixture f)) (cr_inventory_digest (cf_report f)) = Inr pre"
    "bu_canonical_digest b = hex (sha256 X pre)"
    "from_snapshot_with_policy X (bu_ledger_snapshot b) passphrase policy = Inr (cf_fixture f)"
    "bundle_coverage X (ff_snapshot (cf_fixture f)) (bu_known_absent b) = Inr (cf_coverage f)"
    "length (ff_ledger_digest (cf_fixture f)) = 32"
    "inventory_digest X (cf_coverage f) = Inr (cr_inventory_digest (cf_report f))"
    "cf_provenance f = bu_provenance b"
    "cr_discovery_rounds (cf_report f) = unat (br_discovery_rounds (bu_report b))"
    "cr_present_entries (cf_report f) = unat (br_present_entries (bu_report b))"
    "cr_absent_entries (cf_report f) = unat (br_absent_entries (bu_report b))"
    "cr_final_replay_rpc_reads (cf_report f) = 0"
proof -
  obtain digests fixture cov counts where
    env: "validate_bundle_envelope X b passphrase = Inr digests" and
    fix1: "from_snapshot_with_policy X (bu_ledger_snapshot b) passphrase policy = Inr fixture" and
    led: "ff_ledger_digest fixture = bd_ledger digests" and
    cov: "bundle_coverage X (ff_snapshot fixture) (bu_known_absent b) = Inr cov" and
    val: "validate_bundle_coverage X cov (bu_report b) (bd_inventory digests)
        (sn_sequence_number (ff_snapshot fixture)) (sn_max_entry_ttl (ff_snapshot fixture)) = Inr counts" and
    f: "f = rebuild b digests fixture cov counts"
    using assms by (auto simp: from_bundle_def split: if_splits)
  have counts: "fst counts = unat (br_present_entries (bu_report b))"
      "snd counts = unat (br_absent_entries (bu_report b))" "inventory_digest X cov = Inr (bd_inventory digests)"
    using val by (auto simp: validate_bundle_coverage_def Let_def try_u64_Inr split: if_splits)
  obtain canonical where can: "decode_hex_digest (bu_canonical_digest b) = Inr canonical"
      "canonical_bundle_digest X (bu_known_absent b) (bu_report b) (bu_provenance b)
         (bd_ledger digests) (bd_inventory digests) = Inr canonical"
      and l: "decode_hex_digest (bu_ledger_digest b) = Inr (bd_ledger digests)"
    using env by (auto simp: validate_bundle_envelope_def check_digests_Inr)
  then obtain pre where pre: "bundle_preimage X (bu_known_absent b) (bu_report b) (bu_provenance b)
       (bd_ledger digests) (bd_inventory digests) = Inr pre" "canonical = sha256 X pre"
    by (auto simp: canonical_bundle_digest_def)
  have hexed: "bu_canonical_digest b = hex (sha256 X pre)" "length (bd_ledger digests) = 32"
    using can(1) l pre(2) decode_hex_digest_iff by simp_all
  show thesis
    by (rule that [of pre]) (use pre hexed fix1 cov counts led in \<open>simp_all add: f rebuild_def\<close>)
qed

lemma cover_absent_canonical:
  "try_fold (cover_absent X) acc es = Inr acc' \<Longrightarrow>
     list_all (\<lambda>e. \<exists>bs. b64_decode X e = Some bs \<and> b64_encode X bs = e) es"
  by (induction es arbitrary: acc) (auto simp: cover_absent_def split: if_splits prod.splits)

lemma same_decoding:
  assumes "list_all (\<lambda>e. \<exists>bs. b64_decode X e = Some bs \<and> b64_encode X bs = e) es"
    and "list_all (\<lambda>e. \<exists>bs. b64_decode X e = Some bs \<and> b64_encode X bs = e) fs"
    and "map (b64_decode X) es = map (b64_decode X) fs"
  shows "es = fs"
  using assms
proof (induction es arbitrary: fs)
  case (Cons e es)
  then obtain f rest where "fs = f # rest" by (cases fs) auto
  with Cons show ?case by auto
qed simp

text \<open>What a loaded bundle says, the digest over it included.\<close>

lemma from_bundle_content:
  assumes "from_bundle X b passphrase policy = Inr f"
    and "bundle_preimage X (bu_known_absent b) (bu_report b) (bu_provenance b)
       (ff_ledger_digest (cf_fixture f)) (cr_inventory_digest (cf_report f)) = Inr p"
  shows "bu_canonical_digest b = hex (sha256 X p)"
    "bundle_coverage X (ff_snapshot (cf_fixture f)) (bu_known_absent b) = Inr (cf_coverage f)"
    "length (ff_ledger_digest (cf_fixture f)) = 32" "cf_provenance f = bu_provenance b"
    "cf_report f = \<lparr> cr_discovery_rounds = unat (br_discovery_rounds (bu_report b)),
       cr_present_entries = unat (br_present_entries (bu_report b)),
       cr_absent_entries = unat (br_absent_entries (bu_report b)),
       cr_inventory_digest = cr_inventory_digest (cf_report f), cr_final_replay_rpc_reads = 0 \<rparr>"
  using assms by (auto elim!: from_bundle_Inr)

text \<open>
  C33. The canonical digest binds the bundle: two bundles that are accepted, under any passphrases
  and policies, and carry the same canonical digest give fixtures with the same provenance, report
  (inventory digest included) and ledger digest, and record the same absent keys, unless SHA-256
  collides on exactly the two byte strings hashed for them.
\<close>

theorem bundle_digest_binds:
  assumes b: "from_bundle X b passphrase policy = Inr f" and c: "from_bundle X c passphrase' policy' = Inr g"
    and p: "bundle_preimage X (bu_known_absent b) (bu_report b) (bu_provenance b)
       (ff_ledger_digest (cf_fixture f)) (cr_inventory_digest (cf_report f)) = Inr p"
    and q: "bundle_preimage X (bu_known_absent c) (bu_report c) (bu_provenance c)
       (ff_ledger_digest (cf_fixture g)) (cr_inventory_digest (cf_report g)) = Inr q"
    and no_collision: "inj_on (sha256 X) {p, q}"
    and fits: "absent_fits X (bu_known_absent b)" "absent_fits X (bu_known_absent c)"
       "provenance_fits (bu_provenance b)" "provenance_fits (bu_provenance c)"
    and same: "bu_canonical_digest b = bu_canonical_digest c"
  shows "cf_provenance f = cf_provenance g \<and> cf_report f = cf_report g \<and>
    ff_ledger_digest (cf_fixture f) = ff_ledger_digest (cf_fixture g) \<and>
    bu_known_absent b = bu_known_absent c"
proof -
  note f = from_bundle_content [OF b p] and g = from_bundle_content [OF c q]
  have "sha256 X p = sha256 X q" using f(1) g(1) same by (metis decode_hex_pairs_hex sum.inject(2))
  then have "p = q" by (rule inj_onD [OF no_collision]) simp_all
  then obtain bs where u: "update_bundle_digest X (bu_known_absent b) (bu_report b) (bu_provenance b)
       (ff_ledger_digest (cf_fixture f)) (cr_inventory_digest (cf_report f)) = Inr bs"
     "update_bundle_digest X (bu_known_absent c) (bu_report c) (bu_provenance c)
       (ff_ledger_digest (cf_fixture g)) (cr_inventory_digest (cf_report g)) = Inr bs"
    using p q by (auto simp: bundle_preimage_def)
  have eq: "map (b64_decode X) (bu_known_absent b) = map (b64_decode X) (bu_known_absent c)"
      "bu_report b = bu_report c" "bu_provenance b = bu_provenance c"
      "ff_ledger_digest (cf_fixture f) = ff_ledger_digest (cf_fixture g)"
      "cr_inventory_digest (cf_report f) = cr_inventory_digest (cf_report g)"
    using update_bundle_digest_inject [OF u fits] f(3) g(3) by simp_all
  have "bu_known_absent b = bu_known_absent c"
    using f(2) g(2) eq(1) unfolding bundle_coverage_def
    by (intro same_decoding) (auto dest!: cover_absent_canonical)
  then show ?thesis using f(4,5) g(4,5) eq by simp
qed

lemma to_bundle_fields:
  assumes "to_bundle X f = Inr b"
  shows "bu_known_absent b = map (b64_encode X) (known_absent_keys f)" "bu_provenance b = cf_provenance f"
  using assms by (auto simp: to_bundle_def Let_def split: if_splits)

theorem bundle_digest_binds_witness:
  "\<exists>b. from_bundle sample_X b ''net'' Exact = Inr sample_captured \<and>
     (let g = projr (from_bundle sample_X b ''net'' Exact) in
      cf_provenance sample_captured = cf_provenance g \<and> cf_report sample_captured = cf_report g)"
proof -
  have origin: "redact_rpc_origin ''https://h'' = Inr (cb_rpc_origin sample_builder)"
    by (simp add: sample_builder_def redact_rpc_origin_def)
  obtain info where ok: "captured_ok sample_X sample_captured ''net'' Exact info"
    and fields: "cr_discovery_rounds (cf_report sample_captured) \<le> max_discovery_rounds"
      "pv_rpc_origin (cf_provenance sample_captured) = ''https://h''"
    using capture_gives_ok [OF sample_captured_run sample_keyed]
    by (auto simp: sample_builder_def max_discovery_rounds_def)
  obtain b where b: "to_bundle sample_X sample_captured = Inr b"
      "from_bundle sample_X b ''net'' Exact = Inr sample_captured"
    using bundle_roundtrip_ok [OF sample_xdr_laws sample_sha_laws sample_base64_laws ok fields(1)] fields(2)
      redact_idempotent [OF origin]
    by (auto simp: sample_captured_fields fits_usize_def sample_all_coverage_def sample_builder_def)
  obtain p where p: "bundle_preimage sample_X (bu_known_absent b) (bu_report b) (bu_provenance b)
       (ff_ledger_digest (cf_fixture sample_captured)) (cr_inventory_digest (cf_report sample_captured)) = Inr p"
    using b(2) by (rule from_bundle_Inr) (rule that)
  have "known_absent_keys sample_captured = []"
    by (simp add: known_absent_keys_def sample_captured_fields sample_all_coverage_def present_of_def)
  then have a: "absent_fits sample_X (bu_known_absent b)"
    using to_bundle_fields [OF b(1)] by (simp add: absent_fits_def fits_usize_def)
  have "provenance_fits (cf_provenance sample_captured)"
    using ok fields(2) by (simp add: provenance_fits_def sample_captured_fields captured_ok_def fits_usize_def)
  then have v: "provenance_fits (bu_provenance b)" using to_bundle_fields [OF b(1)] by simp
  show ?thesis
    using b(2) bundle_digest_binds [OF b(2) b(2) p p _ a a v v refl] by (intro exI [of _ b]) simp
qed

end
