(* ===== verification/Ledger_Diff.thy ===== *)
theory Ledger_Diff
  imports Coverage
begin

text \<open>
  How a strict fork compares ledgers (\<open>snapshot_map\<close>, \<open>state_diff\<close>), carries a change into its
  coverage (\<open>update_coverage\<close>) and removes the nonces that recording authorization leaves behind
  (\<open>strip_new_mock_nonces\<close>), all in \<open>src/strict.rs\<close>. The lemmas: the changes lead exactly from
  one ledger to the other, and coverage that mirrors a ledger mirrors the changed one.
\<close>

record ledger_value =
  lv_entry :: ledger_entry
  lv_live_until_ledger :: "u32 option"

record state_change =
  sc_key :: ledger_key
  sc_before :: "ledger_value option"
  sc_after :: "ledger_value option"

type_synonym snapshot_values = "(key_id, ledger_key \<times> ledger_value) bmap"

definition strict_key_id :: "externals \<Rightarrow> ledger_key \<Rightarrow> strict_fork_error + key_id" where
  "strict_key_id X key = ok_or StrictXdr (key_to_xdr X key)"

definition snapshot_map :: "externals \<Rightarrow> ledger_snapshot \<Rightarrow> strict_fork_error + snapshot_values" where
  "snapshot_map X snapshot =
     and_then (try_map (\<lambda>(key, entry, live_until).
         and_then (strict_key_id X key) (\<lambda>i.
           Inr (i, (key, \<lparr> lv_entry = entry, lv_live_until_ledger = live_until \<rparr>))))
       (sn_ledger_entries snapshot)) (\<lambda>kvs. Inr (bm_of_list kvs))"

definition change_at ::
  "snapshot_values \<Rightarrow> snapshot_values \<Rightarrow> key_id \<Rightarrow> strict_fork_error + state_change list" where
  "change_at before after i =
     (let before_value = bm_get before i; after_value = bm_get after i in
      if map_option snd before_value = map_option snd after_value then Inr []
      else
        and_then (ok_or StrictHostInspection
            (case map_option fst before_value of Some key \<Rightarrow> Some key | None \<Rightarrow> map_option fst after_value))
          (\<lambda>key. Inr [\<lparr> sc_key = key, sc_before = map_option snd before_value,
             sc_after = map_option snd after_value \<rparr>]))"

definition all_ids :: "snapshot_values \<Rightarrow> snapshot_values \<Rightarrow> key_id list" where
  "all_ids before after = map fst (bm_of_list (map (\<lambda>i. (i, ())) (map fst before @ map fst after)))"

definition state_diff ::
  "externals \<Rightarrow> ledger_snapshot \<Rightarrow> ledger_snapshot \<Rightarrow> strict_fork_error + state_change list" where
  "state_diff X before after =
     and_then (snapshot_map X before) (\<lambda>b.
     and_then (snapshot_map X after) (\<lambda>a.
     and_then (try_map (change_at b a) (all_ids b a)) (\<lambda>changes. Inr (concat changes))))"

text \<open>The coverage is updated in place, change by change, also when a later key does not encode.\<close>

primrec update_coverage ::
  "externals \<Rightarrow> state_change list \<Rightarrow> (coverage, strict_fork_error, unit) act" where
  "update_coverage X [] coverage = (Inr (), coverage)"
| "update_coverage X (change # changes) coverage =
     (case strict_key_id X (sc_key change) of
        Inl e \<Rightarrow> (Inl e, coverage)
      | Inr i \<Rightarrow>
          update_coverage X changes (bm_insert i
            (case sc_after change of
               None \<Rightarrow> Absent
             | Some v \<Rightarrow> Present (lv_entry v) (lv_live_until_ledger v)) coverage))"

definition is_nonce_key :: "ledger_key \<Rightarrow> bool" where
  "is_nonce_key key = (case key of Key_ContractData d \<Rightarrow> is_nonce_data d | _ \<Rightarrow> False)"

definition strip_new_mock_nonces ::
  "externals \<Rightarrow> ledger_snapshot \<Rightarrow> ledger_snapshot \<Rightarrow> strict_fork_error + ledger_snapshot" where
  "strip_new_mock_nonces X before after =
     and_then (try_map (strict_key_id X)
         (filter is_nonce_key (map fst (sn_ledger_entries before)))) (\<lambda>before_nonces.
     and_then (try_map (\<lambda>entry.
         if is_nonce_key (fst entry)
         then and_then (strict_key_id X (fst entry)) (\<lambda>i.
           Inr (if i \<in> set before_nonces then [entry] else []))
         else Inr [entry]) (sn_ledger_entries after)) (\<lambda>kept.
       Inr (after\<lparr>sn_ledger_entries := concat kept\<rparr>)))"

subsection \<open>Snapshots as maps\<close>

text \<open>What a snapshot holds under a key, and what coverage says is there.\<close>

definition value_at :: "snapshot_values \<Rightarrow> key_id \<Rightarrow> ledger_value option" where
  "value_at m i = map_option snd (bm_get m i)"

definition covered_at :: "coverage \<Rightarrow> key_id \<Rightarrow> ledger_value option" where
  "covered_at cov i =
     (case bm_get cov i of
        Some (Present e l) \<Rightarrow> Some \<lparr> lv_entry = e, lv_live_until_ledger = l \<rparr>
      | _ \<Rightarrow> None)"

definition mirrors :: "externals \<Rightarrow> coverage \<Rightarrow> ledger_snapshot \<Rightarrow> bool" where
  "mirrors X cov snapshot \<longleftrightarrow> bm_ok cov \<and>
     (\<exists>m. snapshot_map X snapshot = Inr m \<and> covered_at cov = value_at m)"

lemma strict_key_id_Inr [simp]: "strict_key_id X key = Inr i \<longleftrightarrow> key_to_xdr X key = Some i"
  by (simp add: strict_key_id_def)

definition keyed_value :: "externals \<Rightarrow> snapshot_entry \<Rightarrow> key_id \<times> ledger_key \<times> ledger_value" where
  "keyed_value X = (\<lambda>(key, entry, live_until).
     (the (key_to_xdr X key), (key, \<lparr> lv_entry = entry, lv_live_until_ledger = live_until \<rparr>)))"

lemma snapshot_map_Inr:
  "snapshot_map X s = Inr m \<longleftrightarrow>
     (\<forall>(key, v)\<in>set (sn_ledger_entries s). key_to_xdr X key \<noteq> None) \<and>
     m = bm_of_list (map (keyed_value X) (sn_ledger_entries s))"
proof -
  have "try_map (\<lambda>(key, entry, live_until). and_then (strict_key_id X key) (\<lambda>i.
      Inr (i, (key, \<lparr> lv_entry = entry, lv_live_until_ledger = live_until \<rparr>)))) es = Inr kvs \<longleftrightarrow>
    (\<forall>(key, v)\<in>set es. key_to_xdr X key \<noteq> None) \<and> kvs = map (keyed_value X) es" for es kvs
    by (induction es arbitrary: kvs) (auto simp: keyed_value_def)
  then show ?thesis by (auto simp: snapshot_map_def)
qed

lemma snapshot_map_ok: "snapshot_map X s = Inr m \<Longrightarrow> bm_ok m"
  by (simp add: snapshot_map_Inr)

lemma snapshot_map_key:
  assumes "snapshot_map X s = Inr m" and "bm_get m i = Some (key, v)"
  shows "key_to_xdr X key = Some i"
proof -
  have "map_of (rev (map (keyed_value X) (sn_ledger_entries s))) i = Some (key, v)"
    using assms by (simp add: snapshot_map_Inr bm_of_list_get)
  then have "(i, key, v) \<in> set (map (keyed_value X) (sn_ledger_entries s))"
    by (metis map_of_SomeD set_rev)
  then obtain e where e: "e \<in> set (sn_ledger_entries s)" "keyed_value X e = (i, key, v)" by auto
  obtain k entry live where "e = (k, entry, live)" by (rule prod_cases3)
  then have "k = key" "key_to_xdr X k \<noteq> None" "i = the (key_to_xdr X k)"
    using e assms(1) by (auto simp: keyed_value_def snapshot_map_Inr)
  then show ?thesis by auto
qed

text \<open>A snapshot the digest accepts is a map whatever the order of its entries.\<close>

lemma snapshot_map_permutation:
  assumes "canonical_ledger_digest X s = Inr d" and "mset es = mset (sn_ledger_entries s)"
  shows "snapshot_map X (s\<lparr>sn_ledger_entries := es\<rparr>) = snapshot_map X s \<and>
    (\<exists>m. snapshot_map X s = Inr m)"
proof -
  let ?kvs = "\<lambda>es. map (keyed_value X) es" and ?s = "sn_ledger_entries s"
  obtain xs where xs: "sorted_entries X s = Inr xs"
    using assms(1) by (auto simp: canonical_ledger_digest_def)
  have same: "set es = set ?s" using assms(2) by (rule mset_eq_setD)
  have names: "map fst (?kvs ?s) = map fst (map (encoded X) ?s)"
    by (simp add: keyed_value_def encoded_def split_beta)
  have "bm_ok (sort_key fst (map (encoded X) ?s))" using xs unfolding sorted_entries_Inr by blast
  then have ds: "distinct (map fst (?kvs ?s))" unfolding bm_ok_sort_key names .
  have "mset (map fst (?kvs es)) = mset (map fst (?kvs ?s))"
    using assms(2) unfolding mset_map by simp
  then have de: "distinct (map fst (?kvs es))" using ds by (rule mset_eq_imp_distinct_iff [THEN iffD2])
  have "map_of (?kvs es) = map_of (?kvs ?s)"
    by (rule map_of_inject_set [OF de ds, THEN iffD2]) (simp add: same)
  then have eq: "bm_of_list (?kvs es) = bm_of_list (?kvs ?s)"
    by (intro bm_ext) (simp_all only: bm_of_list_get_distinct [OF de] bm_of_list_get_distinct [OF ds] bm_of_list_ok)
  have "\<forall>(key, v)\<in>set ?s. key_to_xdr X key \<noteq> None"
    using xs by (auto simp: sorted_entries_Inr list_all_iff entry_ok_def)
  then have "snapshot_map X s = Inr (bm_of_list (?kvs ?s))"
      "snapshot_map X (s\<lparr>sn_ledger_entries := es\<rparr>) = Inr (bm_of_list (?kvs es))"
    unfolding snapshot_map_Inr by (simp_all add: same)
  then show ?thesis by (simp add: eq)
qed

subsection \<open>The difference\<close>

lemma sorted_all_ids: "sorted_wrt (<) (all_ids b a)"
  using bm_of_list_ok unfolding all_ids_def bm_ok_def by blast

lemma bm_of_list_keys: "bm_keys (bm_of_list kvs) = fst ` set kvs"
  by (simp add: set_eq_iff bm_keys_get bm_of_list_get map_of_eq_None_iff)

lemma set_all_ids: "set (all_ids b a) = bm_keys b \<union> bm_keys a"
proof -
  have "set (all_ids b a) = bm_keys (bm_of_list (map (\<lambda>i. (i, ())) (map fst b @ map fst a)))"
    by (simp add: all_ids_def bm_keys_def)
  then show ?thesis unfolding bm_of_list_keys by (simp add: bm_keys_def image_Un image_image)
qed

lemma change_at_simps:
  "value_at b i = value_at a i \<Longrightarrow> change_at b a i = Inr []"
  "value_at b i \<noteq> value_at a i \<Longrightarrow> \<exists>key. change_at b a i =
     Inr [\<lparr> sc_key = key, sc_before = value_at b i, sc_after = value_at a i \<rparr>] \<and>
     ((\<exists>v. bm_get b i = Some (key, v)) \<or> (\<exists>v. bm_get a i = Some (key, v)))"
  by (cases "bm_get b i"; cases "bm_get a i"; auto simp: change_at_def value_at_def Let_def)+

text \<open>
  The changes between two snapshots: one for each key whose value differs, in key order, with
  the value before and after.
\<close>

definition changes_between ::
  "externals \<Rightarrow> snapshot_values \<Rightarrow> snapshot_values \<Rightarrow> key_id list \<Rightarrow> state_change list \<Rightarrow> bool" where
  "changes_between X b a ids changes \<longleftrightarrow>
     list_all2 (\<lambda>i c. key_to_xdr X (sc_key c) = Some i \<and> sc_before c = value_at b i \<and>
       sc_after c = value_at a i) (filter (\<lambda>i. value_at b i \<noteq> value_at a i) ids) changes"

lemma change_parts:
  assumes "snapshot_map X before = Inr b" and "snapshot_map X after = Inr a"
  shows "\<exists>parts. try_map (change_at b a) ids = Inr parts \<and> changes_between X b a ids (concat parts)"
proof (induction ids)
  case Nil
  show ?case by (simp add: changes_between_def)
next
  case (Cons i ids)
  then obtain parts where parts: "try_map (change_at b a) ids = Inr parts"
    "changes_between X b a ids (concat parts)" by blast
  show ?case
  proof (cases "value_at b i = value_at a i")
    case True
    then show ?thesis using parts by (auto simp: change_at_simps(1) changes_between_def)
  next
    case False
    obtain key where key: "change_at b a i =
        Inr [\<lparr> sc_key = key, sc_before = value_at b i, sc_after = value_at a i \<rparr>]"
      "(\<exists>v. bm_get b i = Some (key, v)) \<or> (\<exists>v. bm_get a i = Some (key, v))"
      using change_at_simps(2) [OF False] by blast
    then have "key_to_xdr X key = Some i" using snapshot_map_key assms by blast
    then show ?thesis using parts key(1) False by (auto simp: changes_between_def)
  qed
qed

lemma state_diff_Inr:
  assumes "state_diff X before after = Inr changes"
  obtains b a where "snapshot_map X before = Inr b" "snapshot_map X after = Inr a"
    "changes_between X b a (all_ids b a) changes"
proof -
  obtain b a parts where "snapshot_map X before = Inr b" "snapshot_map X after = Inr a"
    "try_map (change_at b a) (all_ids b a) = Inr parts" "changes = concat parts"
    using assms by (auto simp: state_diff_def)
  then show thesis using that change_parts [of X before b after a "all_ids b a"] by simp
qed

lemma unlisted_unchanged: "i \<notin> set (all_ids b a) \<Longrightarrow> value_at b i = value_at a i"
  by (cases "bm_get b i"; cases "bm_get a i") (auto simp: set_all_ids bm_keys_get value_at_def)

subsection \<open>Following the changes\<close>

definition change_id :: "externals \<Rightarrow> state_change \<Rightarrow> key_id" where
  "change_id X c = the (key_to_xdr X (sc_key c))"

definition apply_changes ::
  "externals \<Rightarrow> state_change list \<Rightarrow> (key_id \<Rightarrow> ledger_value option) \<Rightarrow> key_id \<Rightarrow> ledger_value option" where
  "apply_changes X changes m = fold (\<lambda>c m. m(change_id X c := sc_after c)) changes m"

lemma apply_changes_between:
  assumes "changes_between X b a ids changes" and "\<And>i. i \<notin> set ids \<Longrightarrow> m i = value_at a i"
    and "\<And>i. i \<in> set ids \<Longrightarrow> value_at b i = value_at a i \<Longrightarrow> m i = value_at a i"
  shows "apply_changes X changes m = value_at a"
  using assms
proof (induction ids arbitrary: changes m)
  case Nil
  then show ?case by (auto simp: changes_between_def apply_changes_def fun_eq_iff)
next
  case (Cons i ids)
  show ?case
  proof (cases "value_at b i = value_at a i")
    case True
    then have "changes_between X b a ids changes" using Cons.prems(1) by (simp add: changes_between_def)
    then show ?thesis using Cons.IH Cons.prems(2,3) True by (metis list.set_intros set_ConsD)
  next
    case False
    then obtain c rest where c: "changes = c # rest" "change_id X c = i" "sc_after c = value_at a i"
        "changes_between X b a ids rest"
      using Cons.prems(1) by (auto simp: changes_between_def list_all2_Cons1 change_id_def)
    have "apply_changes X rest (m(i := value_at a i)) = value_at a"
      using Cons.prems(2,3) by (intro Cons.IH [OF c(4)]) auto
    then show ?thesis by (simp add: c apply_changes_def)
  qed
qed

lemma update_coverage_runs:
  assumes "list_all (\<lambda>c. key_to_xdr X (sc_key c) \<noteq> None) changes" and "bm_ok cov"
  shows "\<exists>cov'. update_coverage X changes cov = (Inr (), cov') \<and> bm_ok cov' \<and>
    covered_at cov' = apply_changes X changes (covered_at cov) \<and>
    bm_keys cov' = bm_keys cov \<union> change_id X ` set changes"
  using assms
proof (induction changes arbitrary: cov)
  case Nil
  then show ?case by (simp add: apply_changes_def)
next
  case (Cons c changes)
  then obtain i where i: "key_to_xdr X (sc_key c) = Some i" by auto
  let ?state = "case sc_after c of None \<Rightarrow> Absent | Some v \<Rightarrow> Present (lv_entry v) (lv_live_until_ledger v)"
  let ?cov = "bm_insert i ?state cov"
  have ok: "bm_ok ?cov" using Cons.prems(2) by (rule bm_ok_insert)
  have view: "covered_at ?cov = (covered_at cov)(i := sc_after c)"
    using Cons.prems(2)
    by (auto simp: covered_at_def bm_get_insert fun_eq_iff split: option.split)
  obtain cov' where "update_coverage X changes ?cov = (Inr (), cov')" "bm_ok cov'"
    "covered_at cov' = apply_changes X changes (covered_at ?cov)"
    "bm_keys cov' = bm_keys ?cov \<union> change_id X ` set changes"
    using Cons.IH [OF _ ok] Cons.prems(1) by auto
  moreover have "update_coverage X (c # changes) cov = update_coverage X changes ?cov" "change_id X c = i"
    using i by (simp_all add: strict_key_id_def change_id_def)
  ultimately show ?case by (auto simp: view apply_changes_def simp del: update_coverage.simps)
qed

text \<open>Coverage that mirrors the ledger before mirrors the ledger after.\<close>

lemma mirrors_update:
  assumes "mirrors X cov before" and "state_diff X before after = Inr changes"
  shows "\<exists>cov'. update_coverage X changes cov = (Inr (), cov') \<and> mirrors X cov' after \<and>
    bm_keys cov \<subseteq> bm_keys cov'"
proof -
  obtain b a where b: "snapshot_map X before = Inr b" and a: "snapshot_map X after = Inr a"
    and ch: "changes_between X b a (all_ids b a) changes"
    using assms(2) by (rule state_diff_Inr)
  have cov: "bm_ok cov" "covered_at cov = value_at b" using assms(1) b by (auto simp: mirrors_def)
  have "list_all (\<lambda>c. key_to_xdr X (sc_key c) \<noteq> None) changes"
    using ch by (auto simp: changes_between_def list_all2_conv_all_nth list_all_length)
  then obtain cov' where cov': "update_coverage X changes cov = (Inr (), cov')" "bm_ok cov'"
      "covered_at cov' = apply_changes X changes (covered_at cov)" "bm_keys cov \<subseteq> bm_keys cov'"
    using update_coverage_runs [OF _ cov(1)] by blast
  have "apply_changes X changes (value_at b) = value_at a"
    by (rule apply_changes_between [OF ch unlisted_unchanged]) auto
  then show ?thesis using cov' a cov(2) by (auto simp: mirrors_def)
qed

lemma mirrors_permutation:
  assumes "mirrors X cov s" and "canonical_ledger_digest X s = Inr d"
    and "mset es = mset (sn_ledger_entries s)" and "sn_ledger_entries t = es"
  shows "mirrors X cov t"
proof -
  have "snapshot_map X t = snapshot_map X (s\<lparr>sn_ledger_entries := es\<rparr>)"
    using assms(4) by (simp add: snapshot_map_def)
  then show ?thesis
    using assms(1) snapshot_map_permutation [OF assms(2,3)] by (auto simp: mirrors_def)
qed

subsection \<open>Stripping nonces\<close>

definition nonce_ids :: "externals \<Rightarrow> ledger_snapshot \<Rightarrow> key_id option set" where
  "nonce_ids X s = key_to_xdr X ` set (filter is_nonce_key (map fst (sn_ledger_entries s)))"

lemma try_map_key_ids: "try_map (strict_key_id X) keys = Inr ids \<longleftrightarrow> map (key_to_xdr X) keys = map Some ids"
  by (induction keys arbitrary: ids) (auto simp: Cons_eq_map_conv map_eq_Cons_conv)

lemma strip_new_mock_nonces_Inr:
  assumes "strip_new_mock_nonces X before after = Inr s"
  shows "s = after\<lparr>sn_ledger_entries := filter (\<lambda>(key, v). is_nonce_key key \<longrightarrow>
    key_to_xdr X key \<in> nonce_ids X before) (sn_ledger_entries after)\<rparr>"
proof -
  obtain ids kept where ids: "map (key_to_xdr X) (filter is_nonce_key (map fst (sn_ledger_entries before))) = map Some ids"
    and kept: "try_map (\<lambda>entry. if is_nonce_key (fst entry)
         then and_then (strict_key_id X (fst entry)) (\<lambda>i. Inr (if i \<in> set ids then [entry] else []))
         else Inr [entry]) (sn_ledger_entries after) = Inr kept"
    and s: "s = after\<lparr>sn_ledger_entries := concat kept\<rparr>"
    using assms by (auto simp: strip_new_mock_nonces_def try_map_key_ids)
  have set: "nonce_ids X before = Some ` set ids"
    unfolding nonce_ids_def set_map [symmetric] ids by simp
  have "concat kept = filter (\<lambda>(key, v). is_nonce_key key \<longrightarrow> key_to_xdr X key \<in> Some ` set ids) es"
    if "try_map (\<lambda>entry. if is_nonce_key (fst entry)
         then and_then (strict_key_id X (fst entry)) (\<lambda>i. Inr (if i \<in> set ids then [entry] else []))
         else Inr [entry]) es = Inr kept" for es
    using that by (induction es arbitrary: kept) (auto split: if_splits)
  then show ?thesis using kept by (simp add: s set)
qed

end
