(* ===== verification/Strict_Fork.thy ===== *)
theory Strict_Fork
  imports Ledger_Diff Capture_Bundle Runtime
begin

text \<open>
  The strict fork of \<open>src/strict.rs\<close>: a mutable ledger executed offline over captured coverage.
  The Host is the parameter \<open>H\<close>: the functions the program calls on an environment, where a call
  that executes contract code is a script of ledger reads against the fork's \<open>StrictSource\<close>.
  A child environment is made for every operation; the fork changes only when it is promoted.
\<close>

subsection \<open>Requests and evidence\<close>

datatype auth_mode = Record_Auth | Mock_Exact "auth_tree list" | Enforce "bytes list"

datatype applied_auth_mode = Applied_Record | Applied_Mock_Exact | Applied_Enforce

datatype execution_mode = Preview | Apply

record invoke_request =
  rq_contract :: sc_address
  rq_function :: string
  rq_args :: "sc_val list"

datatype invoke_error_kind = Kind_Abort | Kind_Contract u32 | Kind_Result_Conversion

datatype sc_error = Sc_Error_Contract u32 | Sc_Error_Other bytes

record invocation_failure =
  if_error :: "sc_error option"
  if_kind :: invoke_error_kind

datatype invoke_outcome = Success sc_val | Failure "sc_error option" invoke_error_kind

datatype receipt_disposition = Previewed | Committed | Rejected

record receipt =
  rc_request :: invoke_request
  rc_outcome :: invoke_outcome
  rc_auth_mode :: applied_auth_mode
  rc_authorization :: "auth_tree list"
  rc_events :: "detached_event list"
  rc_diagnostics :: "detached_event list"
  rc_state_changes :: "state_change list"
  rc_before_digest :: bytes
  rc_after_digest :: bytes
  rc_disposition :: receipt_disposition
  rc_upstream_reads :: u64

datatype candidate_install_mode = Local_Injection

record candidate_registration =
  cd_address :: sc_address
  cd_wasm_sha256 :: bytes
  cd_mode :: candidate_install_mode
  cd_state_changes :: "state_change list"
  cd_before_digest :: bytes
  cd_after_digest :: bytes
  cd_upstream_reads :: u64

definition is_success :: "invoke_outcome \<Rightarrow> bool" where
  "is_success out = (case out of Success v \<Rightarrow> True | Failure e k \<Rightarrow> False)"

subsection \<open>The Host\<close>

text \<open>
  \<open>env.try_invoke_contract\<close> caught by \<open>catch_unwind\<close>: it panics, returns a value that converts
  or not, or one of the errors of the SDK. An \<open>Error\<close> value is seen through
  \<open>ScError::try_from\<close>, \<open>is_type(Contract)\<close> and \<open>get_code\<close>.
\<close>

record sdk_error =
  er_sc_error :: "sc_error option"
  er_is_contract :: bool
  er_code :: u32

datatype 'v sdk_call =
    Call_Panicked
  | Call_Value 'v
  | Call_Conversion_Failed
  | Call_Error sdk_error
  | Call_Abort
  | Call_Contract u32

record 'env host =
  h_sdk :: "'env sdk"
  h_address_ok :: "'env \<Rightarrow> sc_address \<Rightarrow> bool"
  h_symbol_ok :: "'env \<Rightarrow> string \<Rightarrow> bool"
  h_val_ok :: "'env \<Rightarrow> sc_val \<Rightarrow> bool"
  h_mock_all_auths :: "'env \<Rightarrow> 'env"
  h_set_authorization_entries :: "'env \<Rightarrow> bytes list \<Rightarrow> 'env option"
  h_try_invoke :: "'env \<Rightarrow> sc_address \<Rightarrow> string \<Rightarrow> sc_val list \<Rightarrow> (sc_val sdk_call \<times> 'env) script"
  h_register_at :: "'env \<Rightarrow> sc_address \<Rightarrow> bytes \<Rightarrow> sc_val list \<Rightarrow> (sc_address option \<times> 'env) script"
  h_stored_entries :: "'env \<Rightarrow> ledger_key list option"
  h_diagnostic_events :: "'env \<Rightarrow> (bool \<times> detached_event) list option"

definition run_strict :: "externals \<Rightarrow> 'o script \<Rightarrow> strict_source \<Rightarrow> 'o \<times> strict_source" where
  "run_strict X = run_script (strict_get X) (\<lambda>m s. s) (\<lambda>s. (0, ss_unknown s))"

definition invocation_values ::
  "'env host \<Rightarrow> 'env \<Rightarrow> invoke_request \<Rightarrow> strict_fork_error + (sc_address \<times> string \<times> sc_val list)" where
  "invocation_values H env request =
     (if \<not> h_address_ok H env (rq_contract request) then Inl InvalidInvocationXdr
      else if \<not> h_symbol_ok H env (rq_function request) then Inl InvalidInvocationXdr
      else if \<not> list_all (h_val_ok H env) (rq_args request) then Inl InvalidInvocationXdr
      else Inr (rq_contract request, rq_function request, rq_args request))"

definition invocation_result :: "'v sdk_call \<Rightarrow> invocation_failure + 'v" where
  "invocation_result call =
     (case call of
        Call_Panicked \<Rightarrow> Inl \<lparr> if_error = None, if_kind = Kind_Abort \<rparr>
      | Call_Abort \<Rightarrow> Inl \<lparr> if_error = None, if_kind = Kind_Abort \<rparr>
      | Call_Value v \<Rightarrow> Inr v
      | Call_Conversion_Failed \<Rightarrow> Inl \<lparr> if_error = None, if_kind = Kind_Result_Conversion \<rparr>
      | Call_Error e \<Rightarrow> Inl \<lparr> if_error = er_sc_error e,
          if_kind = (if er_is_contract e then Kind_Contract (er_code e) else Kind_Abort) \<rparr>
      | Call_Contract code \<Rightarrow>
          Inl \<lparr> if_error = Some (Sc_Error_Contract code), if_kind = Kind_Contract code \<rparr>)"

definition invoke_once ::
  "'env host \<Rightarrow> 'env \<Rightarrow> sc_address \<Rightarrow> string \<Rightarrow> sc_val list
    \<Rightarrow> ((invocation_failure + sc_val) \<times> 'env) script" where
  "invoke_once H env contract function args =
     map_script (map_prod invocation_result id) (h_try_invoke H env contract function args)"

definition invoke_outcome_of ::
  "'env host \<Rightarrow> 'env \<Rightarrow> sc_address \<Rightarrow> string \<Rightarrow> sc_val list \<Rightarrow> (invoke_outcome \<times> 'env) script" where
  "invoke_outcome_of H env contract function args =
     map_script (map_prod (\<lambda>r. case r of
         Inr v \<Rightarrow> Success v
       | Inl failure \<Rightarrow> Failure (if_error failure) (if_kind failure)) id)
       (invoke_once H env contract function args)"

definition detached_snapshot_evidence ::
  "'env sdk \<Rightarrow> 'env \<Rightarrow> auth_tree list \<times> detached_event list" where
  "detached_snapshot_evidence S env =
     (let snapshot = sdk_to_snapshot S env in
      (if sk_auth snapshot = [] then [] else last (sk_auth snapshot), sk_events snapshot))"

definition detached_diagnostics :: "'env host \<Rightarrow> 'env \<Rightarrow> strict_fork_error + detached_event list" where
  "detached_diagnostics H env =
     and_then (ok_or StrictHostInspection (h_diagnostic_events H env)) (\<lambda>events.
       Inr (map snd (filter fst events)))"

subsection \<open>The fork\<close>

record 'env strict_fork =
  sf_id :: u64
  sf_env :: 'env
  sf_network_protocol_version :: u32
  sf_coverage :: coverage
  sf_local_contracts :: "sc_address set"
  sf_local_code_hashes :: "hash set"
  sf_receipts :: "receipt list"

record strict_checkpoint =
  sp_fork_id :: u64
  sp_snapshot :: ledger_snapshot
  sp_coverage :: coverage
  sp_local_contracts :: "sc_address set"
  sp_local_code_hashes :: "hash set"

definition strict_env ::
  "externals \<Rightarrow> 'env sdk \<Rightarrow> ledger_snapshot \<Rightarrow> coverage \<Rightarrow> sc_address set \<Rightarrow> hash set \<Rightarrow> bool
    \<Rightarrow> 'env \<times> strict_source" where
  "strict_env X S snapshot coverage local_contracts local_code_hashes allow_mock_nonces =
     (fork_env X S (Seed_Ledger (Some (snapshot_ledger_info X snapshot)) (Some snapshot)),
      \<lparr> ss_coverage = coverage, ss_local_contracts = local_contracts,
        ss_local_code_hashes = local_code_hashes, ss_allow_mock_nonces = allow_mock_nonces,
        ss_unknown = {} \<rparr>)"

definition strict_from_captured ::
  "externals \<Rightarrow> 'env sdk \<Rightarrow> ledger_snapshot \<Rightarrow> coverage \<Rightarrow> u64 \<Rightarrow> 'env strict_fork option \<times> u64" where
  "strict_from_captured X S snapshot coverage counter =
     (case next_id counter of
        (None, counter') \<Rightarrow> (None, counter')
      | (Some i, counter') \<Rightarrow>
          (Some \<lparr> sf_id = i, sf_env = fst (strict_env X S snapshot coverage {} {} False),
             sf_network_protocol_version = sn_protocol_version snapshot, sf_coverage = coverage,
             sf_local_contracts = {}, sf_local_code_hashes = {}, sf_receipts = [] \<rparr>, counter'))"

definition captured_fork ::
  "externals \<Rightarrow> 'env sdk \<Rightarrow> captured_fixture \<Rightarrow> u64 \<Rightarrow> 'env strict_fork option \<times> u64" where
  "captured_fork X S f = strict_from_captured X S (ff_snapshot (cf_fixture f)) (cf_coverage f)"

definition strict_executed_protocol_version :: "externals \<Rightarrow> 'env strict_fork \<Rightarrow> u32" where
  "strict_executed_protocol_version X f = executed_protocol_version X (sf_network_protocol_version f)"

definition strict_ledger_snapshot :: "externals \<Rightarrow> 'env sdk \<Rightarrow> 'env strict_fork \<Rightarrow> ledger_snapshot" where
  "strict_ledger_snapshot X S f = network_ledger_snapshot X S (sf_env f) (sf_network_protocol_version f)"

definition strict_ledger_digest :: "externals \<Rightarrow> 'env sdk \<Rightarrow> 'env strict_fork \<Rightarrow> fixture_error + bytes" where
  "strict_ledger_digest X S f = canonical_ledger_digest X (strict_ledger_snapshot X S f)"

definition strict_fork_checkpoint :: "externals \<Rightarrow> 'env sdk \<Rightarrow> 'env strict_fork \<Rightarrow> strict_checkpoint" where
  "strict_fork_checkpoint X S f =
     \<lparr> sp_fork_id = sf_id f, sp_snapshot = strict_ledger_snapshot X S f, sp_coverage = sf_coverage f,
       sp_local_contracts = sf_local_contracts f, sp_local_code_hashes = sf_local_code_hashes f \<rparr>"

definition strict_revert ::
  "externals \<Rightarrow> 'env sdk \<Rightarrow> strict_checkpoint \<Rightarrow> 'env strict_fork \<Rightarrow> strict_fork_error + 'env strict_fork" where
  "strict_revert X S c f =
     (if sp_fork_id c \<noteq> sf_id f then Inl StrictCheckpointMismatch
      else Inr (f\<lparr>sf_env := fst (strict_env X S (sp_snapshot c) (sp_coverage c) (sp_local_contracts c)
                    (sp_local_code_hashes c) False),
                sf_coverage := sp_coverage c, sf_local_contracts := sp_local_contracts c,
                sf_local_code_hashes := sp_local_code_hashes c, sf_receipts := []\<rparr>))"

definition unknown_keys ::
  "externals \<Rightarrow> 'env host \<Rightarrow> 'env \<Rightarrow> strict_source \<Rightarrow> coverage \<Rightarrow> sc_address set \<Rightarrow> hash set \<Rightarrow> bool
    \<Rightarrow> strict_fork_error + key_id set" where
  "unknown_keys X H env source coverage local_contracts local_code_hashes allow_mock_nonces =
     and_then (ok_or StrictHostInspection (h_stored_entries H env)) (\<lambda>stored.
       try_fold (\<lambda>unknown key. and_then (strict_key_id X key) (\<lambda>i.
           Inr (if bm_get coverage i = None \<and>
                  \<not> is_local_key key local_contracts local_code_hashes allow_mock_nonces
                then insert i unknown else unknown)))
         (ss_unknown source) stored)"

definition refuse_unknown :: "strict_fork_error + key_id set \<Rightarrow> strict_fork_error + unit" where
  "refuse_unknown r =
     and_then r (\<lambda>unknown.
       if unknown = {} then Inr ()
       else Inl (StrictUnknownLedgerKeys (card unknown) (sorted_list_of_set unknown)))"

subsection \<open>Invocations\<close>

definition apply_auth ::
  "'env host \<Rightarrow> auth_mode \<Rightarrow> 'env
    \<Rightarrow> strict_fork_error + ('env \<times> applied_auth_mode \<times> auth_tree list option)" where
  "apply_auth H auth child =
     (case auth of
        Record_Auth \<Rightarrow> Inr (h_mock_all_auths H child, Applied_Record, None)
      | Mock_Exact expected \<Rightarrow> Inr (h_mock_all_auths H child, Applied_Mock_Exact, Some expected)
      | Enforce entries \<Rightarrow>
          and_then (ok_or InvalidAuthorizationEntries (h_set_authorization_entries H child entries))
            (\<lambda>child'. Inr (child', Applied_Enforce, None)))"

definition disposition :: "execution_mode \<Rightarrow> bool \<Rightarrow> receipt_disposition" where
  "disposition execution commit =
     (case (execution, commit) of
        (Preview, _) \<Rightarrow> Previewed
      | (Apply, True) \<Rightarrow> Committed
      | (Apply, False) \<Rightarrow> Rejected)"

definition allows_mock_nonces :: "auth_mode \<Rightarrow> bool" where
  "allows_mock_nonces auth = (case auth of Enforce entries \<Rightarrow> False | _ \<Rightarrow> True)"

text \<open>The part of \<open>invoke\<close> that only reads the fork: the receipt and the ledger after the call.\<close>

definition invoke_child ::
  "externals \<Rightarrow> 'env host \<Rightarrow> invoke_request \<Rightarrow> execution_mode \<Rightarrow> auth_mode \<Rightarrow> 'env strict_fork
    \<Rightarrow> strict_fork_error + receipt \<times> ledger_snapshot" where
  "invoke_child X H request execution auth f =
     (let S = h_sdk H; before = strict_ledger_snapshot X S f;
          allow_mock_nonces = allows_mock_nonces auth in
      and_then (map_err StrictFixture (canonical_ledger_digest X before)) (\<lambda>before_digest.
      case strict_env X S before (sf_coverage f) (sf_local_contracts f) (sf_local_code_hashes f)
          allow_mock_nonces of
        (child, source) \<Rightarrow>
      and_then (invocation_values H child request) (\<lambda>(contract, function, args).
      and_then (apply_auth H auth child) (\<lambda>(child1, applied_auth, expected_auth).
      case run_strict X (invoke_outcome_of H child1 contract function args) source of
        ((outcome, child2), source2) \<Rightarrow>
      and_then (refuse_unknown (unknown_keys X H child2 source2 (sf_coverage f) (sf_local_contracts f)
          (sf_local_code_hashes f) allow_mock_nonces)) (\<lambda>_.
      case detached_snapshot_evidence S child2 of
        (authorization, events) \<Rightarrow>
      if (case expected_auth of None \<Rightarrow> False | Some expected \<Rightarrow> expected \<noteq> authorization)
      then Inl AuthTreeMismatch
      else
        let raw = network_ledger_snapshot X S child2 (sf_network_protocol_version f) in
        and_then (if allow_mock_nonces then strip_new_mock_nonces X before raw else Inr raw) (\<lambda>after.
        and_then (map_err StrictFixture (canonical_ledger_digest X after)) (\<lambda>after_digest.
        and_then (state_diff X before after) (\<lambda>state_changes.
        and_then (detached_diagnostics H child2) (\<lambda>diagnostics.
          Inr (\<lparr> rc_request = request, rc_outcome = outcome, rc_auth_mode = applied_auth,
                 rc_authorization = authorization, rc_events = events, rc_diagnostics = diagnostics,
                 rc_state_changes = state_changes, rc_before_digest = before_digest,
                 rc_after_digest = after_digest,
                 rc_disposition = disposition execution (execution = Apply \<and> is_success outcome),
                 rc_upstream_reads = 0 \<rparr>, after))))))))))"

definition strict_invoke ::
  "externals \<Rightarrow> 'env host \<Rightarrow> invoke_request \<Rightarrow> execution_mode \<Rightarrow> auth_mode
    \<Rightarrow> ('env strict_fork, strict_fork_error, receipt) act" where
  "strict_invoke X H request execution auth f =
     (case invoke_child X H request execution auth f of
        Inl e \<Rightarrow> (Inl e, f)
      | Inr (receipt, after) \<Rightarrow>
          (if execution = Apply \<and> is_success (rc_outcome receipt) then
             (case update_coverage X (rc_state_changes receipt) (sf_coverage f) of
                (Inl e, coverage) \<Rightarrow> (Inl e, f)
              | (Inr _, coverage) \<Rightarrow>
                  (Inr receipt, f\<lparr>sf_coverage := coverage,
                     sf_env := fst (strict_env X (h_sdk H) after coverage (sf_local_contracts f)
                       (sf_local_code_hashes f) False),
                     sf_receipts := sf_receipts f @ [receipt]\<rparr>))
           else (Inr receipt, f\<lparr>sf_receipts := sf_receipts f @ [receipt]\<rparr>)))"

subsection \<open>Candidates\<close>

definition is_contract :: "sc_address \<Rightarrow> bool" where
  "is_contract address = (case address of ScAddress_Contract h \<Rightarrow> True | _ \<Rightarrow> False)"

text \<open>The checks before a candidate is installed, and the installation in a child environment.\<close>

definition candidate_checks ::
  "externals \<Rightarrow> sc_address \<Rightarrow> bytes \<Rightarrow> bytes \<Rightarrow> 'env strict_fork \<Rightarrow> strict_fork_error + unit" where
  "candidate_checks X address wasm expected_sha256 f =
     (if \<not> is_contract address then Inl CandidateAddressNotContract
      else if sha256 X wasm \<noteq> expected_sha256
      then Inl (StrictWasmHashMismatch expected_sha256 (sha256 X wasm))
      else
        and_then (strict_key_id X (contract_instance_key address)) (\<lambda>i.
          case bm_get (sf_coverage f) i of
            Some (Present e l) \<Rightarrow> Inl CandidateAddressOccupied
          | _ \<Rightarrow> Inr ()))"

definition register_child ::
  "externals \<Rightarrow> 'env host \<Rightarrow> sc_address \<Rightarrow> bytes \<Rightarrow> sc_val list \<Rightarrow> 'env strict_fork
    \<Rightarrow> strict_fork_error + (state_change list \<times> bytes \<times> bytes \<times> 'env)" where
  "register_child X H address wasm constructor_args f =
     (let S = h_sdk H; before = strict_ledger_snapshot X S f;
          local_contracts = insert address (sf_local_contracts f);
          local_code_hashes = insert (sha256 X wasm) (sf_local_code_hashes f) in
      and_then (map_err StrictFixture (canonical_ledger_digest X before)) (\<lambda>before_digest.
      case strict_env X S before (sf_coverage f) local_contracts local_code_hashes False of
        (child, source) \<Rightarrow>
      if \<not> h_address_ok H child address then Inl InvalidInvocationXdr
      else if \<not> list_all (h_val_ok H child) constructor_args then Inl InvalidInvocationXdr
      else
        case run_strict X (h_register_at H child address wasm constructor_args) source of
          ((installed, child2), source2) \<Rightarrow>
        and_then (refuse_unknown (unknown_keys X H child2 source2 (sf_coverage f) local_contracts
            local_code_hashes False)) (\<lambda>_.
        if installed \<noteq> Some address then Inl CandidateRegistrationFailed
        else
          let after = network_ledger_snapshot X S child2 (sf_network_protocol_version f) in
          and_then (map_err StrictFixture (canonical_ledger_digest X after)) (\<lambda>after_digest.
          and_then (state_diff X before after) (\<lambda>state_changes.
            Inr (state_changes, before_digest, after_digest, child2))))))"

definition register_candidate ::
  "externals \<Rightarrow> 'env host \<Rightarrow> sc_address \<Rightarrow> bytes \<Rightarrow> bytes \<Rightarrow> sc_val list
    \<Rightarrow> ('env strict_fork, strict_fork_error, candidate_registration) act" where
  "register_candidate X H address wasm expected_sha256 constructor_args f =
     (case and_then (candidate_checks X address wasm expected_sha256 f) (\<lambda>_.
         register_child X H address wasm constructor_args f) of
        Inl e \<Rightarrow> (Inl e, f)
      | Inr (state_changes, before_digest, after_digest, child) \<Rightarrow>
          (case update_coverage X state_changes (sf_coverage f) of
             (Inl e, coverage) \<Rightarrow> (Inl e, f\<lparr>sf_coverage := coverage\<rparr>)
           | (Inr _, coverage) \<Rightarrow>
               (Inr \<lparr> cd_address = address, cd_wasm_sha256 = sha256 X wasm, cd_mode = Local_Injection,
                  cd_state_changes = state_changes, cd_before_digest = before_digest,
                  cd_after_digest = after_digest, cd_upstream_reads = 0 \<rparr>,
                f\<lparr>sf_coverage := coverage,
                  sf_local_contracts := insert address (sf_local_contracts f),
                  sf_local_code_hashes := insert (sha256 X wasm) (sf_local_code_hashes f),
                  sf_env := child\<rparr>)))"

subsection \<open>The strict source is a snapshot source\<close>

type_synonym strict_view = "coverage \<times> sc_address set \<times> hash set \<times> bool"

definition strict_calm :: "strict_source \<Rightarrow> bool" where
  "strict_calm s \<longleftrightarrow> ss_unknown s = {}"

definition strict_view_of :: "strict_source \<Rightarrow> strict_view" where
  "strict_view_of s =
     (ss_coverage s, ss_local_contracts s, ss_local_code_hashes s, ss_allow_mock_nonces s)"

text \<open>A key is known when it is covered or local; a key that does not encode is answered with an error.\<close>

definition strict_serve :: "externals \<Rightarrow> strict_view \<Rightarrow> ledger_key \<Rightarrow> answer option" where
  "strict_serve X = (\<lambda>(cov, contracts, hashes, nonces) key.
     case key_to_xdr X key of
       None \<Rightarrow> Some (Inl Host_Storage_Internal)
     | Some i \<Rightarrow>
         (case bm_get cov i of
            Some state \<Rightarrow> Some (Inr (present_of state))
          | None \<Rightarrow> if is_local_key key contracts hashes nonces then Some (Inr None) else None))"

interpretation strict: snapshot_source "strict_get X" "\<lambda>m s. s" "\<lambda>s. (0, ss_unknown s)"
  strict_calm strict_view_of "strict_serve X" "\<lambda>m v. v"
  for X :: externals
proof unfold_locales
  fix s :: strict_source and key answer
  assume "strict_calm s" "strict_serve X (strict_view_of s) key = Some answer"
  then show "\<exists>s'. strict_get X key s = (answer, s') \<and> strict_calm s' \<and> strict_view_of s' = strict_view_of s"
    by (auto simp: strict_serve_def strict_view_of_def strict_get_def split: option.splits if_splits)
next
  fix s s' :: strict_source and key answer
  assume "strict_serve X (strict_view_of s) key = None" "strict_get X key s = (answer, s')"
  then show "\<not> strict_calm s'"
    by (auto simp: strict_serve_def strict_view_of_def strict_get_def strict_calm_def split: option.splits if_splits)
next
  fix s s' :: strict_source and key answer
  assume "\<not> strict_calm s" "strict_get X key s = (answer, s')"
  then show "\<not> strict_calm s'"
    by (auto simp: strict_get_def strict_calm_def split: option.splits if_splits)
qed (auto simp: strict_calm_def)

lemma refuse_unknown_Inr:
  assumes "refuse_unknown (unknown_keys X H env source cov contracts hashes nonces) = Inr u"
  obtains stored where "h_stored_entries H env = Some stored" "ss_unknown source = {}"
    "list_all (\<lambda>key. \<exists>i. key_to_xdr X key = Some i \<and>
       (i \<in> bm_keys cov \<or> is_local_key key contracts hashes nonces)) stored"
proof -
  let ?step = "\<lambda>unknown key. and_then (strict_key_id X key) (\<lambda>i.
      Inr (if bm_get cov i = None \<and> \<not> is_local_key key contracts hashes nonces
        then insert i unknown else unknown))"
  have fold: "try_fold ?step u stored = Inr {} \<Longrightarrow> u = {} \<and>
      list_all (\<lambda>key. \<exists>i. key_to_xdr X key = Some i \<and>
        (i \<in> bm_keys cov \<or> is_local_key key contracts hashes nonces)) stored" for u stored
    by (induction stored arbitrary: u) (auto simp: bm_keys_get split: if_splits)
  show thesis
    using assms that fold
    by (auto simp: refuse_unknown_def unknown_keys_def split: if_splits)
qed

lemma follow_still: "follow serve (\<lambda>m v. v) p v = Some (x, v') \<Longrightarrow> v' = v"
  by (induction p arbitrary: v) (auto split: option.splits)

text \<open>Everything a receipt rests on.\<close>

definition auth_child :: "'env host \<Rightarrow> auth_mode \<Rightarrow> 'env \<Rightarrow> 'env \<Rightarrow> bool" where
  "auth_child H auth child child1 \<longleftrightarrow>
     (case auth of
        Enforce entries \<Rightarrow> h_set_authorization_entries H child entries = Some child1
      | _ \<Rightarrow> child1 = h_mock_all_auths H child)"

definition fork_view :: "'env strict_fork \<Rightarrow> bool \<Rightarrow> strict_view" where
  "fork_view f nonces = (sf_coverage f, sf_local_contracts f, sf_local_code_hashes f, nonces)"

lemma strict_env_source:
  "strict_calm (snd (strict_env X S s cov contracts hashes nonces))"
  "strict_view_of (snd (strict_env X S s cov contracts hashes nonces)) = (cov, contracts, hashes, nonces)"
  by (simp_all add: strict_env_def strict_calm_def strict_view_of_def)

lemma run_strict_follow:
  assumes "run_strict X script source = ((outcome, child), source')" and "ss_unknown source' = {}"
  shows "follow (strict_serve X) (\<lambda>m v. v) script (strict_view_of source) =
    Some ((outcome, child), strict_view_of source)"
proof -
  have "run_script (strict_get X) (\<lambda>m s. s) (\<lambda>s. (0, ss_unknown s)) script source = ((outcome, child), source')"
    using assms(1) by (simp add: run_strict_def)
  from strict.calm_run [OF this] have "follow (strict_serve X) (\<lambda>m v. v) script (strict_view_of source) =
      Some ((outcome, child), strict_view_of source')"
    using assms(2) by (simp add: strict_calm_def)
  moreover from this have "strict_view_of source' = strict_view_of source" by (rule follow_still)
  ultimately show ?thesis by simp
qed

lemma apply_auth_child:
  assumes "apply_auth H auth child = Inr (child1, applied, expected)"
  shows "auth_child H auth child child1" "\<forall>e. auth = Mock_Exact e \<longrightarrow> expected = Some e"
  using assms by (auto simp: apply_auth_def auth_child_def split: auth_mode.splits)

lemma invoke_child_Inr:
  assumes "invoke_child X H request execution auth f = Inr (r, after)"
  obtains child1 child2 stored raw where
    "auth_child H auth (fst (strict_env X (h_sdk H) (strict_ledger_snapshot X (h_sdk H) f) (sf_coverage f)
       (sf_local_contracts f) (sf_local_code_hashes f) (allows_mock_nonces auth))) child1"
    "follow (strict_serve X) (\<lambda>m v. v)
       (invoke_outcome_of H child1 (rq_contract request) (rq_function request) (rq_args request))
       (fork_view f (allows_mock_nonces auth)) =
     Some ((rc_outcome r, child2), fork_view f (allows_mock_nonces auth))"
    "h_stored_entries H child2 = Some stored"
    "list_all (\<lambda>key. \<exists>i. key_to_xdr X key = Some i \<and> (i \<in> bm_keys (sf_coverage f) \<or>
       is_local_key key (sf_local_contracts f) (sf_local_code_hashes f) (allows_mock_nonces auth))) stored"
    "rc_authorization r = fst (detached_snapshot_evidence (h_sdk H) child2)"
    "\<forall>expected. auth = Mock_Exact expected \<longrightarrow> rc_authorization r = expected"
    "raw = network_ledger_snapshot X (h_sdk H) child2 (sf_network_protocol_version f)"
    "if allows_mock_nonces auth
     then strip_new_mock_nonces X (strict_ledger_snapshot X (h_sdk H) f) raw = Inr after else after = raw"
    "strict_ledger_digest X (h_sdk H) f = Inr (rc_before_digest r)"
    "canonical_ledger_digest X after = Inr (rc_after_digest r)"
    "state_diff X (strict_ledger_snapshot X (h_sdk H) f) after = Inr (rc_state_changes r)"
    "rc_disposition r = disposition execution (execution = Apply \<and> is_success (rc_outcome r))"
    "rc_request r = request" "rc_upstream_reads r = 0"
proof -
  let ?S = "h_sdk H" and ?n = "allows_mock_nonces auth"
  let ?before = "strict_ledger_snapshot X ?S f"
  let ?made = "strict_env X ?S ?before (sf_coverage f) (sf_local_contracts f) (sf_local_code_hashes f) ?n"
  let ?script = "\<lambda>child1. invoke_outcome_of H child1 (rq_contract request) (rq_function request) (rq_args request)"
  obtain child source where made: "?made = (child, source)" by fastforce
  obtain child1 applied expected where auth: "apply_auth H auth child = Inr (child1, applied, expected)"
    using assms by (auto simp: invoke_child_def Let_def made)
  obtain outcome child2 source2 where run: "run_strict X (?script child1) source = ((outcome, child2), source2)"
    by (metis prod.exhaust)
  let ?raw = "network_ledger_snapshot X ?S child2 (sf_network_protocol_version f)"
  obtain v where "invocation_values H child request = Inr v"
    using assms by (auto simp: invoke_child_def Let_def made)
  then have vals: "invocation_values H child request =
      Inr (rq_contract request, rq_function request, rq_args request)"
    by (simp add: invocation_values_def split: if_splits)
  obtain authorization events where ev: "detached_snapshot_evidence ?S child2 = (authorization, events)"
    by fastforce
  have refuse: "refuse_unknown (unknown_keys X H child2 source2 (sf_coverage f) (sf_local_contracts f)
      (sf_local_code_hashes f) ?n) = Inr ()"
    and digest: "canonical_ledger_digest X ?before = Inr (rc_before_digest r)"
    and exact: "case expected of None \<Rightarrow> True | Some e \<Rightarrow> e = rc_authorization r"
    and evidence: "rc_authorization r = fst (detached_snapshot_evidence ?S child2)"
    and strip: "(if ?n then strip_new_mock_nonces X ?before ?raw else Inr ?raw) = Inr after"
    and rest: "canonical_ledger_digest X after = Inr (rc_after_digest r)"
      "state_diff X ?before after = Inr (rc_state_changes r)" "rc_outcome r = outcome"
      "rc_disposition r = disposition execution (execution = Apply \<and> is_success (rc_outcome r))"
      "rc_request r = request" "rc_upstream_reads r = 0"
    using assms
    by (auto simp: invoke_child_def Let_def made vals auth run ev split: if_splits option.splits)
  obtain stored where stored: "h_stored_entries H child2 = Some stored" "ss_unknown source2 = {}"
    "list_all (\<lambda>key. \<exists>i. key_to_xdr X key = Some i \<and> (i \<in> bm_keys (sf_coverage f) \<or>
       is_local_key key (sf_local_contracts f) (sf_local_code_hashes f) ?n)) stored"
    using refuse by (rule refuse_unknown_Inr)
  have view: "strict_view_of source = fork_view f ?n"
    using strict_env_source(2) made by (metis fork_view_def snd_conv)
  have "follow (strict_serve X) (\<lambda>m v. v) (?script child1) (fork_view f ?n) =
      Some ((outcome, child2), fork_view f ?n)"
    using run_strict_follow [OF run stored(2)] view by simp
  moreover note apply_auth_child [OF auth]
  moreover have "\<forall>e. auth = Mock_Exact e \<longrightarrow> rc_authorization r = e"
    using exact apply_auth_child(2) [OF auth] by auto
  ultimately show thesis
    using that [of child1 child2 stored ?raw] stored(1,3) evidence strip rest digest made
    by (simp add: strict_ledger_digest_def split: if_splits)
qed

end
