(* ===== verification/Strict_Invariant.thy ===== *)
theory Strict_Invariant
  imports Strict_Fork
begin

text \<open>
  What every history of a strict fork keeps: its coverage mirrors its ledger, so that the next
  operation starts from exactly the state the last one left; and what each operation of
  \<open>src/strict.rs\<close> does to the ledger. The Host's only promise used here is that executing does
  not change the ledger protocol of an environment.
\<close>

definition env_protocol :: "'env host \<Rightarrow> 'env \<Rightarrow> u32" where
  "env_protocol H env = sn_protocol_version (sdk_to_ledger_snapshot (h_sdk H) env)"

definition host_laws :: "'env host \<Rightarrow> bool" where
  "host_laws H \<longleftrightarrow>
     (\<forall>env. env_protocol H (h_mock_all_auths H env) = env_protocol H env) \<and>
     (\<forall>env entries env'. h_set_authorization_entries H env entries = Some env' \<longrightarrow>
        env_protocol H env' = env_protocol H env) \<and>
     (\<forall>env contract function args. \<forall>out\<in>set_script (h_try_invoke H env contract function args).
        env_protocol H (snd out) = env_protocol H env) \<and>
     (\<forall>env address wasm args. \<forall>out\<in>set_script (h_register_at H env address wasm args).
        env_protocol H (snd out) = env_protocol H env)"

lemma follow_outcome: "follow serve mark p v = Some (x, v') \<Longrightarrow> x \<in> set_script p"
proof (induction p arbitrary: v)
  case (Get key k)
  then obtain answer where "follow serve mark (k answer) v = Some (x, v')" by (auto split: option.splits)
  then have "x \<in> set_script (k answer)" by (intro Get.IH) simp_all
  then show ?case by auto
next
  case (Ask k)
  have "x \<in> set_script (k (0, {}))" by (rule Ask.IH) (use Ask.prems in simp_all)
  then show ?case by auto
qed auto

subsection \<open>Installing a candidate\<close>

lemma register_child_Inr:
  assumes "register_child X H address wasm args f = Inr (changes, before_digest, after_digest, child2)"
  obtains child stored after where
    "child = fst (strict_env X (h_sdk H) (strict_ledger_snapshot X (h_sdk H) f) (sf_coverage f)
       (insert address (sf_local_contracts f)) (insert (sha256 X wasm) (sf_local_code_hashes f)) False)"
    "follow (strict_serve X) (\<lambda>m v. v) (h_register_at H child address wasm args)
       (sf_coverage f, insert address (sf_local_contracts f), insert (sha256 X wasm) (sf_local_code_hashes f), False) =
     Some ((Some address, child2),
       (sf_coverage f, insert address (sf_local_contracts f), insert (sha256 X wasm) (sf_local_code_hashes f), False))"
    "h_stored_entries H child2 = Some stored"
    "list_all (\<lambda>key. \<exists>i. key_to_xdr X key = Some i \<and> (i \<in> bm_keys (sf_coverage f) \<or>
       is_local_key key (insert address (sf_local_contracts f))
         (insert (sha256 X wasm) (sf_local_code_hashes f)) False)) stored"
    "after = network_ledger_snapshot X (h_sdk H) child2 (sf_network_protocol_version f)"
    "strict_ledger_digest X (h_sdk H) f = Inr before_digest"
    "canonical_ledger_digest X after = Inr after_digest"
    "state_diff X (strict_ledger_snapshot X (h_sdk H) f) after = Inr changes"
proof -
  let ?S = "h_sdk H" and ?before = "strict_ledger_snapshot X (h_sdk H) f"
  let ?lc = "insert address (sf_local_contracts f)" and ?lh = "insert (sha256 X wasm) (sf_local_code_hashes f)"
  let ?view = "(sf_coverage f, ?lc, ?lh, False)"
  obtain child source where made: "strict_env X ?S ?before (sf_coverage f) ?lc ?lh False = (child, source)"
    by fastforce
  obtain installed child3 source2 where
    run: "run_strict X (h_register_at H child address wasm args) source = ((installed, child3), source2)"
    by (metis prod.exhaust)
  let ?after = "network_ledger_snapshot X ?S child3 (sf_network_protocol_version f)"
  have refuse: "refuse_unknown (unknown_keys X H child3 source2 (sf_coverage f) ?lc ?lh False) = Inr ()"
    and rest: "canonical_ledger_digest X ?before = Inr before_digest" "installed = Some address"
      "child2 = child3" "canonical_ledger_digest X ?after = Inr after_digest"
      "state_diff X ?before ?after = Inr changes"
    using assms by (auto simp: register_child_def Let_def made run split: if_splits)
  obtain stored where stored: "h_stored_entries H child3 = Some stored" "ss_unknown source2 = {}"
    "list_all (\<lambda>key. \<exists>i. key_to_xdr X key = Some i \<and>
       (i \<in> bm_keys (sf_coverage f) \<or> is_local_key key ?lc ?lh False)) stored"
    using refuse by (rule refuse_unknown_Inr)
  have view: "strict_view_of source = ?view"
    using strict_env_source(2) made by (metis snd_conv)
  have "run_script (strict_get X) (\<lambda>m s. s) (\<lambda>s. (0, ss_unknown s)) (h_register_at H child address wasm args)
      source = ((installed, child3), source2)"
    using run by (simp add: run_strict_def)
  from strict.calm_run [OF this]
  have spec: "follow (strict_serve X) (\<lambda>m v. v) (h_register_at H child address wasm args) ?view =
      Some ((installed, child3), strict_view_of source2)"
    using stored(2) by (simp add: view strict_calm_def)
  then have "strict_view_of source2 = ?view" by (rule follow_still)
  then show thesis
    using that [of child stored ?after] spec stored(1,3) rest made by (simp add: strict_ledger_digest_def)
qed

subsection \<open>The invariant\<close>

definition ledger_ok_for :: "externals \<Rightarrow> u32 \<Rightarrow> coverage \<Rightarrow> ledger_snapshot \<Rightarrow> bool" where
  "ledger_ok_for X network cov s \<longleftrightarrow> mirrors X cov s \<and> (\<exists>d. canonical_ledger_digest X s = Inr d) \<and>
     sn_protocol_version s = network"

definition fork_ok :: "externals \<Rightarrow> 'env sdk \<Rightarrow> 'env strict_fork \<Rightarrow> bool" where
  "fork_ok X S f \<longleftrightarrow>
     ledger_ok_for X (sf_network_protocol_version f) (sf_coverage f) (strict_ledger_snapshot X S f)"

definition checkpoint_ok :: "externals \<Rightarrow> u64 \<Rightarrow> u32 \<Rightarrow> strict_checkpoint \<Rightarrow> bool" where
  "checkpoint_ok X i network c \<longleftrightarrow> sp_fork_id c = i \<and> ledger_ok_for X network (sp_coverage c) (sp_snapshot c)"

lemma strict_env_reports:
  assumes "sdk_laws X S" and "ledger_info_laws X"
  obtains es where "mset es = mset (sn_ledger_entries s)"
    "network_ledger_snapshot X S (fst (strict_env X S s cov lc lh n)) (sn_protocol_version s) =
       s\<lparr>sn_ledger_entries := es\<rparr>"
    "sn_protocol_version (sdk_to_ledger_snapshot S (fst (strict_env X S s cov lc lh n))) =
       executed_protocol_version X (sn_protocol_version s)"
  by (rule fork_env_reports [OF assms, of s]) (simp add: that strict_env_def)

text \<open>An environment made from a good ledger reports that ledger, up to the order of its entries.\<close>

lemma promoted_ok:
  assumes "sdk_laws X S" and "ledger_info_laws X" and "ledger_ok_for X network cov s"
  shows "ledger_ok_for X network cov
      (network_ledger_snapshot X S (fst (strict_env X S s cov' lc lh n)) network)"
    and "canonical_ledger_digest X (network_ledger_snapshot X S (fst (strict_env X S s cov' lc lh n)) network) =
      canonical_ledger_digest X s"
    and "\<exists>es. mset es = mset (sn_ledger_entries s) \<and>
      network_ledger_snapshot X S (fst (strict_env X S s cov' lc lh n)) network = s\<lparr>sn_ledger_entries := es\<rparr>"
proof -
  have p: "sn_protocol_version s = network" using assms(3) by (simp add: ledger_ok_for_def)
  obtain es where es: "mset es = mset (sn_ledger_entries s)"
    "network_ledger_snapshot X S (fst (strict_env X S s cov' lc lh n)) network = s\<lparr>sn_ledger_entries := es\<rparr>"
    by (rule strict_env_reports [OF assms(1,2), of s cov' lc lh n]) (rule that, simp_all add: p)
  obtain d where d: "canonical_ledger_digest X s = Inr d" using assms(3) by (auto simp: ledger_ok_for_def)
  have digest: "canonical_ledger_digest X (s\<lparr>sn_ledger_entries := es\<rparr>) = Inr d"
    using canonical_digest_same [OF d es(1)] .
  show "canonical_ledger_digest X (network_ledger_snapshot X S (fst (strict_env X S s cov' lc lh n)) network) =
      canonical_ledger_digest X s"
    unfolding es(2) digest d ..
  have "mirrors X cov s" using assms(3) by (simp add: ledger_ok_for_def)
  then have "mirrors X cov (s\<lparr>sn_ledger_entries := es\<rparr>)"
    by (rule mirrors_permutation [OF _ d es(1)]) simp
  then show "ledger_ok_for X network cov
      (network_ledger_snapshot X S (fst (strict_env X S s cov' lc lh n)) network)"
    using assms(3) digest unfolding ledger_ok_for_def es(2) by simp
  show "\<exists>es. mset es = mset (sn_ledger_entries s) \<and>
      network_ledger_snapshot X S (fst (strict_env X S s cov' lc lh n)) network = s\<lparr>sn_ledger_entries := es\<rparr>"
    using es by blast
qed

subsection \<open>What the Host leaves alone\<close>

lemma strict_env_protocol:
  assumes "sdk_laws X (h_sdk H)" and "ledger_info_laws X"
  shows "env_protocol H (fst (strict_env X (h_sdk H) s cov lc lh n)) =
    executed_protocol_version X (sn_protocol_version s)"
  by (rule strict_env_reports [OF assms, of s cov lc lh n]) (simp add: env_protocol_def)

lemma network_protocol:
  "env_protocol H env = executed_protocol_version X network \<Longrightarrow>
     sn_protocol_version (network_ledger_snapshot X (h_sdk H) env network) = network"
  by (simp add: network_ledger_snapshot_def Let_def env_protocol_def)

lemma auth_child_protocol:
  "host_laws H \<Longrightarrow> auth_child H auth child child1 \<Longrightarrow> env_protocol H child1 = env_protocol H child"
  unfolding host_laws_def auth_child_def by (cases auth) auto

lemma invoke_protocol:
  assumes "host_laws H" and "follow serve mark (invoke_outcome_of H env contract function args) v = Some ((out, env'), v')"
  shows "env_protocol H env' = env_protocol H env"
proof -
  have "(out, env') \<in> set_script (invoke_outcome_of H env contract function args)"
    using assms(2) by (rule follow_outcome)
  then obtain call where "(call, env') \<in> set_script (h_try_invoke H env contract function args)"
    by (auto simp: invoke_outcome_of_def invoke_once_def script.set_map)
  then show ?thesis using assms(1) unfolding host_laws_def by fastforce
qed

lemma register_protocol:
  assumes "host_laws H" and "follow serve mark (h_register_at H env address wasm args) v = Some ((out, env'), v')"
  shows "env_protocol H env' = env_protocol H env"
  using follow_outcome [OF assms(2)] assms(1) unfolding host_laws_def by fastforce

lemma strip_protocol:
  "strip_new_mock_nonces X before raw = Inr after \<Longrightarrow> sn_protocol_version after = sn_protocol_version raw"
  by (auto simp: strip_new_mock_nonces_def)

text \<open>The ledger of a receipt: in the network's protocol, valid, and what the changes lead to.\<close>

lemma invoke_child_ledger:
  assumes "sdk_laws X (h_sdk H)" and "ledger_info_laws X" and "host_laws H" and "fork_ok X (h_sdk H) f"
    and child: "invoke_child X H request execution auth f = Inr (r, after)"
  obtains cov where "update_coverage X (rc_state_changes r) (sf_coverage f) = (Inr (), cov)"
    "ledger_ok_for X (sf_network_protocol_version f) cov after" "bm_keys (sf_coverage f) \<subseteq> bm_keys cov"
    "canonical_ledger_digest X after = Inr (rc_after_digest r)"
    "strict_ledger_digest X (h_sdk H) f = Inr (rc_before_digest r)"
  using child
proof (rule invoke_child_Inr)
  let ?S = "h_sdk H" and ?net = "sf_network_protocol_version f"
  let ?before = "strict_ledger_snapshot X ?S f"
  fix child1 child2 stored raw
  assume ac: "auth_child H auth (fst (strict_env X ?S ?before (sf_coverage f)
       (sf_local_contracts f) (sf_local_code_hashes f) (allows_mock_nonces auth))) child1"
    and run: "follow (strict_serve X) (\<lambda>m v. v)
       (invoke_outcome_of H child1 (rq_contract request) (rq_function request) (rq_args request))
       (fork_view f (allows_mock_nonces auth)) =
       Some ((rc_outcome r, child2), fork_view f (allows_mock_nonces auth))"
    and raw: "raw = network_ledger_snapshot X ?S child2 ?net"
    and strip: "if allows_mock_nonces auth then strip_new_mock_nonces X ?before raw = Inr after else after = raw"
    and digests: "strict_ledger_digest X ?S f = Inr (rc_before_digest r)"
      "canonical_ledger_digest X after = Inr (rc_after_digest r)"
    and diff: "state_diff X ?before after = Inr (rc_state_changes r)"
  have ok: "mirrors X (sf_coverage f) ?before" "sn_protocol_version ?before = ?net"
    using assms(4) by (simp_all add: fork_ok_def ledger_ok_for_def)
  have "env_protocol H child2 = executed_protocol_version X ?net"
    using invoke_protocol [OF assms(3) run] auth_child_protocol [OF assms(3) ac]
      strict_env_protocol [OF assms(1,2)] ok(2) by simp
  then have "sn_protocol_version after = ?net"
    using strip network_protocol strip_protocol raw by (metis (full_types))
  moreover obtain cov where "update_coverage X (rc_state_changes r) (sf_coverage f) = (Inr (), cov)"
      "mirrors X cov after" "bm_keys (sf_coverage f) \<subseteq> bm_keys cov"
    using mirrors_update [OF ok(1) diff] by blast
  ultimately show thesis using that [of cov] digests by (auto simp: ledger_ok_for_def)
qed

subsection \<open>Every operation keeps the invariant\<close>

lemma disposition_Committed [simp]:
  "disposition execution (execution = Apply \<and> b) = Committed \<longleftrightarrow> execution = Apply \<and> b"
  by (cases execution; cases b) (simp_all add: disposition_def)

lemma strict_invoke_keeps:
  assumes laws: "sdk_laws X (h_sdk H)" "ledger_info_laws X" "host_laws H" and ok: "fork_ok X (h_sdk H) f"
    and run: "strict_invoke X H request execution auth f = (r, f')"
  shows "(fork_ok X (h_sdk H) f' \<and> sf_id f' = sf_id f \<and>
      sf_network_protocol_version f' = sf_network_protocol_version f \<and>
      bm_keys (sf_coverage f) \<subseteq> bm_keys (sf_coverage f')) \<and>
    (case r of Inl e \<Rightarrow> f' = f
      | Inr rc \<Rightarrow> sf_receipts f' = sf_receipts f @ [rc] \<and>
          strict_ledger_digest X (h_sdk H) f = Inr (rc_before_digest rc) \<and>
          (if rc_disposition rc = Committed then strict_ledger_digest X (h_sdk H) f' = Inr (rc_after_digest rc)
           else f' = f\<lparr>sf_receipts := sf_receipts f @ [rc]\<rparr>))"
proof (cases "invoke_child X H request execution auth f")
  case (Inl e)
  then show ?thesis using run ok by (auto simp: strict_invoke_def)
next
  case (Inr p)
  obtain rc after where p: "invoke_child X H request execution auth f = Inr (rc, after)"
    using Inr by (cases p) simp
  obtain cov where cov: "update_coverage X (rc_state_changes rc) (sf_coverage f) = (Inr (), cov)"
    "ledger_ok_for X (sf_network_protocol_version f) cov after" "bm_keys (sf_coverage f) \<subseteq> bm_keys cov"
    and digests: "canonical_ledger_digest X after = Inr (rc_after_digest rc)"
    "strict_ledger_digest X (h_sdk H) f = Inr (rc_before_digest rc)"
    using invoke_child_ledger [OF laws ok p] by blast
  have disp: "rc_disposition rc = Committed \<longleftrightarrow> execution = Apply \<and> is_success (rc_outcome rc)"
    using p by (rule invoke_child_Inr) simp
  show ?thesis
  proof (cases "execution = Apply \<and> is_success (rc_outcome rc)")
    case True
    let ?env = "fst (strict_env X (h_sdk H) after cov (sf_local_contracts f) (sf_local_code_hashes f) False)"
    have "r = Inr rc" and f': "f' = f\<lparr>sf_coverage := cov, sf_env := ?env, sf_receipts := sf_receipts f @ [rc]\<rparr>"
      using run True unfolding strict_invoke_def p by (simp_all add: cov(1))
    moreover have "fork_ok X (h_sdk H) f'" "strict_ledger_digest X (h_sdk H) f' = Inr (rc_after_digest rc)"
      using promoted_ok(1,2) [OF laws(1,2) cov(2)] digests(1)
      by (simp_all add: f' fork_ok_def strict_ledger_digest_def strict_ledger_snapshot_def)
    ultimately show ?thesis using cov(3) digests(2) disp True by simp
  next
    case False
    then have "r = Inr rc" "f' = f\<lparr>sf_receipts := sf_receipts f @ [rc]\<rparr>"
      using run unfolding strict_invoke_def p by auto
    then show ?thesis using ok digests(2) disp False by (simp add: fork_ok_def strict_ledger_snapshot_def)
  qed
qed

lemma register_candidate_keeps:
  assumes laws: "sdk_laws X (h_sdk H)" "ledger_info_laws X" "host_laws H" and ok: "fork_ok X (h_sdk H) f"
    and run: "register_candidate X H address wasm expected args f = (r, f')"
  shows "case r of Inl e \<Rightarrow> f' = f
      | Inr c \<Rightarrow> fork_ok X (h_sdk H) f' \<and> sf_id f' = sf_id f \<and>
          sf_network_protocol_version f' = sf_network_protocol_version f \<and>
          bm_keys (sf_coverage f) \<subseteq> bm_keys (sf_coverage f') \<and> sf_receipts f' = sf_receipts f \<and>
          strict_ledger_digest X (h_sdk H) f = Inr (cd_before_digest c) \<and>
          strict_ledger_digest X (h_sdk H) f' = Inr (cd_after_digest c)"
proof (cases "and_then (candidate_checks X address wasm expected f) (\<lambda>_.
    register_child X H address wasm args f)")
  case (Inl e)
  then show ?thesis using run by (auto simp: register_candidate_def)
next
  case (Inr p)
  let ?S = "h_sdk H" and ?net = "sf_network_protocol_version f"
  obtain changes bd ad child2 where p: "p = (changes, bd, ad, child2)" by (metis prod_cases4)
  have child: "register_child X H address wasm args f = Inr (changes, bd, ad, child2)"
    using Inr by (simp add: p)
  obtain child after where made: "child = fst (strict_env X ?S (strict_ledger_snapshot X ?S f) (sf_coverage f)
       (insert address (sf_local_contracts f)) (insert (sha256 X wasm) (sf_local_code_hashes f)) False)"
    and spec: "follow (strict_serve X) (\<lambda>m v. v) (h_register_at H child address wasm args)
       (sf_coverage f, insert address (sf_local_contracts f), insert (sha256 X wasm) (sf_local_code_hashes f), False) =
     Some ((Some address, child2),
       (sf_coverage f, insert address (sf_local_contracts f), insert (sha256 X wasm) (sf_local_code_hashes f), False))"
    and after: "after = network_ledger_snapshot X ?S child2 ?net"
    and digests: "strict_ledger_digest X ?S f = Inr bd" "canonical_ledger_digest X after = Inr ad"
    and diff: "state_diff X (strict_ledger_snapshot X ?S f) after = Inr changes"
    using child by (rule register_child_Inr)
  have before: "mirrors X (sf_coverage f) (strict_ledger_snapshot X ?S f)"
      "sn_protocol_version (strict_ledger_snapshot X ?S f) = ?net"
    using ok by (simp_all add: fork_ok_def ledger_ok_for_def)
  obtain cov where cov: "update_coverage X changes (sf_coverage f) = (Inr (), cov)"
      "mirrors X cov after" "bm_keys (sf_coverage f) \<subseteq> bm_keys cov"
    using mirrors_update [OF before(1) diff] by blast
  have "env_protocol H child2 = executed_protocol_version X ?net"
    using register_protocol [OF laws(3) spec] strict_env_protocol [OF laws(1,2)] made before(2) by simp
  then have "sn_protocol_version after = ?net" by (simp add: after network_protocol)
  then show ?thesis
    using run cov digests after
    by (auto simp: register_candidate_def Inr [unfolded p] fork_ok_def ledger_ok_for_def
        strict_ledger_snapshot_def strict_ledger_digest_def)
qed

lemma checkpoint_is_ok:
  "fork_ok X S f \<Longrightarrow> checkpoint_ok X (sf_id f) (sf_network_protocol_version f) (strict_fork_checkpoint X S f)"
  by (simp add: checkpoint_ok_def fork_ok_def strict_fork_checkpoint_def)

lemma strict_revert_keeps:
  assumes "sdk_laws X S" and "ledger_info_laws X"
    and "checkpoint_ok X (sf_id f) (sf_network_protocol_version f) c" and "strict_revert X S c f = Inr f'"
  shows "fork_ok X S f' \<and> sf_id f' = sf_id f \<and>
    sf_network_protocol_version f' = sf_network_protocol_version f \<and> sf_coverage f' = sp_coverage c \<and>
    (\<exists>es. mset es = mset (sn_ledger_entries (sp_snapshot c)) \<and>
      strict_ledger_snapshot X S f' = (sp_snapshot c)\<lparr>sn_ledger_entries := es\<rparr>)"
proof -
  have c: "ledger_ok_for X (sf_network_protocol_version f) (sp_coverage c) (sp_snapshot c)"
    using assms(3) by (simp add: checkpoint_ok_def)
  show ?thesis
    using promoted_ok(1,3) [OF assms(1,2) c] assms(4)
    by (auto simp: strict_revert_def fork_ok_def strict_ledger_snapshot_def split: if_splits)
qed

end
