(* ===== verification/Strict_History.thy ===== *)
theory Strict_History
  imports Strict_Invariant
begin

text \<open>
  Histories of a strict fork that was made from a capture: any sequence of invocations,
  installed candidates, checkpoints and reverts, failed ones included. The interpretation
  \<open>strict_fork\<close> gives it the checkpoint contract of the plain fork. The properties: coverage and
  ledger never drift apart, receipts say what happened, unknown keys fail closed.
\<close>

subsection \<open>The start\<close>

lemma keyed_entries:
  assumes "list_all (covered_entry X) cov" and "bm_ok cov"
  shows "(\<forall>(key, v)\<in>set (entries_of X cov). key_to_xdr X key \<noteq> None) \<and>
    distinct (map fst (map (keyed_value X) (entries_of X cov))) \<and>
    fst ` set (map (keyed_value X) (entries_of X cov)) \<subseteq> bm_keys cov \<and>
    (\<forall>i. map_option snd (map_of (map (keyed_value X) (entries_of X cov)) i) = covered_at cov i)"
  using assms
proof (induction cov)
  case Nil
  then show ?case by (simp add: covered_at_def fun_eq_iff)
next
  case (Cons b cov)
  obtain i state where b: "b = (i, state)" by (cases b)
  have i: "i \<notin> bm_keys cov" using Cons.prems(2) by (auto simp: b)
  have IH: "(\<forall>(key, v)\<in>set (entries_of X cov). key_to_xdr X key \<noteq> None)"
    "distinct (map fst (map (keyed_value X) (entries_of X cov)))"
    "fst ` set (map (keyed_value X) (entries_of X cov)) \<subseteq> bm_keys cov"
    "\<And>i. map_option snd (map_of (map (keyed_value X) (entries_of X cov)) i) = covered_at cov i"
    using Cons.IH Cons.prems by (simp_all add: b)
  show ?case
  proof (cases state)
    case (Present e l)
    have key: "key_to_xdr X (to_key X e) = Some i" using Cons.prems(1) by (simp add: b Present covered_entry_def)
    let ?kvs = "map (keyed_value X) (entries_of X cov)"
    have kv: "keyed_value X (to_key X e, e, l) = (i, to_key X e, \<lparr> lv_entry = e, lv_live_until_ledger = l \<rparr>)"
      by (simp add: keyed_value_def key)
    have entries: "entries_of X (b # cov) = (to_key X e, e, l) # entries_of X cov"
      by (simp add: b Present)
    have "i \<notin> fst ` set ?kvs" using IH(3) i by blast
    then have "distinct (map fst (map (keyed_value X) (entries_of X (b # cov))))"
      using IH(2) unfolding entries by (simp add: kv del: map_map)
    moreover have "map_option snd (map_of (map (keyed_value X) (entries_of X (b # cov))) j) = covered_at (b # cov) j" for j
      using IH(4) [of j] unfolding entries by (simp add: kv b Present covered_at_def)
    moreover have "fst ` set (map (keyed_value X) (entries_of X (b # cov))) \<subseteq> bm_keys (b # cov)"
      using IH(3) unfolding entries by (auto simp: kv b simp del: set_map)
    ultimately show ?thesis using IH(1) key unfolding entries by auto
  next
    case Absent
    have "bm_get cov i = None" using i by (simp add: bm_keys_get)
    then have "covered_at (b # cov) = covered_at cov" by (auto simp: b Absent covered_at_def fun_eq_iff)
    then show ?thesis using IH by (auto simp: b Absent)
  qed
qed

lemma mirrors_snapshot_of:
  assumes "list_all (covered_entry X) cov" and "bm_ok cov"
  shows "mirrors X cov (snapshot_of X info cov)"
proof -
  let ?kvs = "map (keyed_value X) (entries_of X cov)"
  have entries: "sn_ledger_entries (snapshot_of X info cov) = entries_of X cov" by (simp add: snapshot_of_def)
  note k = keyed_entries [OF assms]
  have "snapshot_map X (snapshot_of X info cov) = Inr (bm_of_list ?kvs)"
    using k unfolding snapshot_map_Inr entries by simp
  moreover have "value_at (bm_of_list ?kvs) = covered_at cov"
    using k by (auto simp: value_at_def bm_of_list_get_distinct fun_eq_iff)
  ultimately show ?thesis using assms(2) by (simp add: mirrors_def)
qed

text \<open>A fork of a fixture whose coverage mirrors its ledger.\<close>

lemma mirrored_fork_ok:
  assumes laws: "sdk_laws X S" "ledger_info_laws X"
    and digest: "canonical_ledger_digest X (ff_snapshot (cf_fixture c)) = Inr d"
    and mirrors: "mirrors X (cf_coverage c) (ff_snapshot (cf_fixture c))"
    and made: "captured_fork X S c counter = (Some f, counter')"
  shows "fork_ok X S f \<and> strict_ledger_digest X S f = Inr d \<and>
    sf_coverage f = cf_coverage c \<and> sf_local_contracts f = {} \<and> sf_local_code_hashes f = {}"
proof -
  let ?s = "ff_snapshot (cf_fixture c)"
  have start: "ledger_ok_for X (sn_protocol_version ?s) (cf_coverage c) ?s"
    using digest mirrors by (simp add: ledger_ok_for_def)
  have f: "sf_env f = fst (strict_env X S ?s (cf_coverage c) {} {} False)"
      "sf_network_protocol_version f = sn_protocol_version ?s" "sf_coverage f = cf_coverage c"
      "sf_local_contracts f = {}" "sf_local_code_hashes f = {}"
    using made by (auto simp: captured_fork_def strict_from_captured_def split: prod.splits option.splits)
  show ?thesis
    using promoted_ok(1,2) [OF laws start, of "cf_coverage c" "{}" "{}" False] digest
    by (simp add: fork_ok_def strict_ledger_digest_def strict_ledger_snapshot_def f)
qed

lemma captured_fork_ok:
  assumes laws: "sdk_laws X S" "ledger_info_laws X"
    and cap: "captured_ok X c passphrase policy info"
    and made: "captured_fork X S c counter = (Some f, counter')"
  shows "fork_ok X S f \<and> strict_ledger_digest X S f = Inr (ff_ledger_digest (cf_fixture c)) \<and>
    sf_coverage f = cf_coverage c \<and> sf_local_contracts f = {} \<and> sf_local_code_hashes f = {}"
proof -
  have s: "ff_snapshot (cf_fixture c) = snapshot_of X info (cf_coverage c)"
      "list_all (covered_entry X) (cf_coverage c)" "bm_ok (cf_coverage c)"
    and accepted: "from_snapshot_with_policy X (ff_snapshot (cf_fixture c)) passphrase policy = Inr (cf_fixture c)"
    using cap unfolding captured_ok_def by blast+
  show ?thesis
    using mirrored_fork_ok [OF laws accepted_snapshot(2) [OF accepted] _ made] mirrors_snapshot_of [OF s(2,3), of info] s(1)
    by simp
qed

subsection \<open>Histories\<close>

inductive strict_history ::
  "externals \<Rightarrow> 'env host \<Rightarrow> 'env strict_fork \<Rightarrow> 'env strict_fork \<Rightarrow> strict_checkpoint list \<Rightarrow> bool"
  for X H f0 where
  start: "strict_history X H f0 f0 []"
| invoked: "strict_history X H f0 f cs \<Longrightarrow> strict_invoke X H request execution auth f = (r, f') \<Longrightarrow>
    strict_history X H f0 f' cs"
| installed: "strict_history X H f0 f cs \<Longrightarrow>
    register_candidate X H address wasm expected args f = (r, f') \<Longrightarrow> strict_history X H f0 f' cs"
| saved: "strict_history X H f0 f cs \<Longrightarrow>
    strict_history X H f0 f (strict_fork_checkpoint X (h_sdk H) f # cs)"
| reverted: "strict_history X H f0 f cs \<Longrightarrow> c \<in> set cs \<Longrightarrow>
    strict_revert X (h_sdk H) c f = Inr f' \<Longrightarrow> strict_history X H f0 f' cs"

inductive_cases strict_historyE: "strict_history X H f0 f cs"

lemma strict_history_keeps:
  assumes "strict_history X H f0 f cs"
    and laws: "sdk_laws X (h_sdk H)" "ledger_info_laws X" "host_laws H" and "fork_ok X (h_sdk H) f0"
  shows "fork_ok X (h_sdk H) f \<and> sf_id f = sf_id f0 \<and>
    sf_network_protocol_version f = sf_network_protocol_version f0 \<and>
    list_all (checkpoint_ok X (sf_id f0) (sf_network_protocol_version f0)) cs"
  using assms(1,5)
proof (induction rule: strict_history.induct)
  case start
  then show ?case by simp
next
  case (invoked f cs request execution auth r f')
  then have f: "fork_ok X (h_sdk H) f" by simp
  from strict_invoke_keeps [OF laws f invoked.hyps(2)] invoked.IH [OF invoked.prems] show ?case by simp
next
  case (installed f cs address wasm expected args r f')
  then have f: "fork_ok X (h_sdk H) f" by simp
  from register_candidate_keeps [OF laws f installed.hyps(2)] installed.IH [OF installed.prems] show ?case
    by (cases r) simp_all
next
  case (saved f cs)
  then have f: "fork_ok X (h_sdk H) f" by simp
  from checkpoint_is_ok [OF f] saved.IH [OF saved.prems] show ?case by simp
next
  case (reverted f cs c f')
  then have "checkpoint_ok X (sf_id f) (sf_network_protocol_version f) c" by (auto simp: list_all_iff)
  from strict_revert_keeps [OF laws(1,2) this reverted.hyps(3)] reverted.IH [OF reverted.prems]
  show ?case by simp
qed

end
