(* ===== verification/Strict_Properties.thy ===== *)
theory Strict_Properties
  imports Strict_History Sample_Replay
begin

text \<open>
  What the strict fork promises, as properties over \<open>strict_invoke\<close>, \<open>register_candidate\<close> and
  \<open>strict_revert\<close>; checkpoints meet the contract \<open>checkpointable\<close> of the plain fork. The
  witnesses run on a sample Host in \<open>Sample_Strict\<close>.
\<close>

subsection \<open>The checkpoint contract\<close>

text \<open>What a strict fork shows: its ledger up to the order of the entries, and what it knows.\<close>

definition strict_observe :: "externals \<Rightarrow> 'env sdk \<Rightarrow> 'env strict_fork \<Rightarrow>
    ledger_snapshot \<times> snapshot_entry multiset \<times> coverage \<times> sc_address set \<times> hash set" where
  "strict_observe X S f =
     (let s = strict_ledger_snapshot X S f in
      (s\<lparr>sn_ledger_entries := []\<rparr>, mset (sn_ledger_entries s), sf_coverage f, sf_local_contracts f,
        sf_local_code_hashes f))"

definition strict_compatible :: "externals \<Rightarrow> 'env sdk \<Rightarrow> 'env strict_fork \<Rightarrow> 'env strict_fork \<Rightarrow> bool" where
  "strict_compatible X S f g \<longleftrightarrow> sdk_laws X S \<and> ledger_info_laws X \<and> fork_ok X S f \<and>
     sf_network_protocol_version g = sf_network_protocol_version f"

lemma strict_checkpoint_parts [simp]:
  "sp_fork_id (strict_fork_checkpoint X S f) = sf_id f"
  "sp_snapshot (strict_fork_checkpoint X S f) = strict_ledger_snapshot X S f"
  "sp_coverage (strict_fork_checkpoint X S f) = sf_coverage f"
  by (simp_all add: strict_fork_checkpoint_def)

interpretation strict_fork: checkpointable sf_id sp_fork_id "strict_fork_checkpoint X S"
    "strict_revert X S" "strict_observe X S" "strict_compatible X S" StrictCheckpointMismatch
  for X :: externals and S :: "'env sdk"
proof unfold_locales
  fix f g :: "'env strict_fork"
  assume c: "strict_compatible X S f g" and i: "sf_id g = sf_id f"
  let ?c = "strict_fork_checkpoint X S f"
  obtain h where h: "strict_revert X S ?c g = Inr h" and parts: "sf_local_contracts h = sf_local_contracts f"
      "sf_local_code_hashes h = sf_local_code_hashes f"
    using i by (simp add: strict_revert_def strict_fork_checkpoint_def)
  have laws: "sdk_laws X S" "ledger_info_laws X" and ok: "fork_ok X S f"
    and net: "sf_network_protocol_version g = sf_network_protocol_version f"
    using c by (simp_all add: strict_compatible_def)
  have "checkpoint_ok X (sf_id g) (sf_network_protocol_version g) ?c"
    using checkpoint_is_ok [OF ok] by (simp add: i net)
  from strict_revert_keeps [OF laws this h]
  obtain es where k: "sf_id h = sf_id g" "sf_network_protocol_version h = sf_network_protocol_version g"
      "sf_coverage h = sf_coverage f" "mset es = mset (sn_ledger_entries (strict_ledger_snapshot X S f))"
      "strict_ledger_snapshot X S h = (strict_ledger_snapshot X S f)\<lparr>sn_ledger_entries := es\<rparr>"
    by auto
  have "strict_observe X S h = strict_observe X S f"
    by (simp add: strict_observe_def Let_def k parts)
  moreover have "strict_compatible X S f h" using c k(2) net by (simp add: strict_compatible_def)
  ultimately show "\<exists>h. strict_revert X S ?c g = Inr h \<and> sf_id h = sf_id f \<and>
      strict_compatible X S f h \<and> strict_observe X S h = strict_observe X S f"
    using h k(1) i by auto
qed (simp_all add: strict_revert_def)

lemma strict_observe_digest:
  assumes "strict_observe X S h = strict_observe X S f" and "strict_ledger_digest X S f = Inr d"
  shows "strict_ledger_digest X S h = Inr d"
proof -
  let ?s = "strict_ledger_snapshot X S f" and ?t = "strict_ledger_snapshot X S h"
  have "?t\<lparr>sn_ledger_entries := []\<rparr> = ?s\<lparr>sn_ledger_entries := []\<rparr>" and m: "mset (sn_ledger_entries ?t) = mset (sn_ledger_entries ?s)"
    using assms(1) by (simp_all add: strict_observe_def Let_def)
  then have "?t = ?s\<lparr>sn_ledger_entries := sn_ledger_entries ?t\<rparr>" by (cases "?t"; cases "?s") simp
  then show ?thesis
    using canonical_digest_same [OF assms(2) [unfolded strict_ledger_digest_def] m]
    by (simp add: strict_ledger_digest_def)
qed

text \<open>
  C10. Reverting a strict fork: a checkpoint of the same fork brings back the coverage, the local
  contracts and the ledger it was taken from, with the same digest, whatever happened in between
  and also after a first revert; a checkpoint of another fork is refused and changes nothing.
\<close>

theorem strict_revert_restores:
  assumes "sdk_laws X S" and "ledger_info_laws X" and "fork_ok X S f"
    and "sf_network_protocol_version g = sf_network_protocol_version f"
  shows "if sf_id g = sf_id f
    then \<exists>h k. strict_revert X S (strict_fork_checkpoint X S f) g = Inr h \<and>
      strict_revert X S (strict_fork_checkpoint X S f) h = Inr k \<and>
      strict_observe X S h = strict_observe X S f \<and> strict_observe X S k = strict_observe X S f \<and>
      strict_ledger_digest X S h = strict_ledger_digest X S f
    else strict_revert X S (strict_fork_checkpoint X S f) g = Inl StrictCheckpointMismatch"
proof (cases "sf_id g = sf_id f")
  case True
  have c: "strict_compatible X S f g" using assms by (simp add: strict_compatible_def)
  obtain h k where hk: "strict_revert X S (strict_fork_checkpoint X S f) g = Inr h"
      "strict_revert X S (strict_fork_checkpoint X S f) h = Inr k" "strict_observe X S k = strict_observe X S f"
    using strict_fork.restore_twice [OF c True] by blast
  moreover have "strict_observe X S h = strict_observe X S f"
    using strict_fork.own [OF c True] hk(1) by auto
  moreover obtain d where "strict_ledger_digest X S f = Inr d"
    using assms(3) by (auto simp: fork_ok_def ledger_ok_for_def strict_ledger_digest_def)
  ultimately show ?thesis using True strict_observe_digest [of X S h f d] by auto
next
  case False
  then have "sp_fork_id (strict_fork_checkpoint X S f) \<noteq> sf_id g" by simp
  then show ?thesis using False by (simp add: strict_fork.foreign)
qed

subsection \<open>Coverage and ledger\<close>

text \<open>
  C3. A fork made from a capture starts with the captured ledger, and after any sequence of
  invocations, candidate installations, checkpoints and reverts, failed ones included, its
  coverage still holds exactly the entries of its ledger, which has a digest and keeps the
  network's protocol version: reads and writes of the next call never meet a stale state.
\<close>

theorem strict_history_mirrors:
  assumes "sdk_laws X (h_sdk H)" and "ledger_info_laws X" and "host_laws H"
    and "capture_ref_from_keys X S B scenario keys w = (Inr c, w')" and "bm_ok keys" and "keyed X keys"
    and "captured_fork X (h_sdk H) c counter = (Some f0, counter')"
    and "strict_history X H f0 f checkpoints"
  shows "strict_ledger_digest X (h_sdk H) f0 = Inr (ff_ledger_digest (cf_fixture c)) \<and>
    mirrors X (sf_coverage f) (strict_ledger_snapshot X (h_sdk H) f) \<and>
    (\<exists>d. strict_ledger_digest X (h_sdk H) f = Inr d) \<and>
    sn_protocol_version (strict_ledger_snapshot X (h_sdk H) f) = sn_protocol_version (ff_snapshot (cf_fixture c))"
proof -
  obtain info where "captured_ok X c (cb_network_passphrase B) (cb_protocol_policy B) info"
    using capture_gives_ok [OF assms(4-6)] by blast
  from captured_fork_ok [OF assms(1,2) this assms(7)]
  have f0: "fork_ok X (h_sdk H) f0" "strict_ledger_digest X (h_sdk H) f0 = Inr (ff_ledger_digest (cf_fixture c))"
    by blast+
  moreover have "sf_network_protocol_version f0 = sn_protocol_version (ff_snapshot (cf_fixture c))"
    using assms(7) by (auto simp: captured_fork_def strict_from_captured_def split: prod.splits option.splits)
  ultimately show ?thesis
    using strict_history_keeps [OF assms(8,1-3) f0(1)]
    by (simp add: fork_ok_def ledger_ok_for_def strict_ledger_digest_def)
qed

subsection \<open>Invocations\<close>

lemma strict_invoke_Inr:
  assumes "strict_invoke X H request execution auth f = (Inr rc, f')"
  obtains after where "invoke_child X H request execution auth f = Inr (rc, after)"
  using assms that by (auto simp: strict_invoke_def split: sum.splits prod.splits if_splits)

lemma invoke_child_disposition:
  assumes "invoke_child X H request execution auth f = Inr (rc, after)"
  shows "rc_disposition rc = disposition execution (execution = Apply \<and> is_success (rc_outcome rc))"
  using assms by (rule invoke_child_Inr)

text \<open>
  C4. An invocation is atomic: an error leaves the fork as it was; a receipt is appended, its
  before digest is that of the fork, and the fork's ledger moves, to exactly the receipt's after
  digest, only when the call was applied and succeeded. A preview or a rejected call changes
  nothing else.
\<close>

theorem strict_invoke_atomic:
  assumes "sdk_laws X (h_sdk H)" and "ledger_info_laws X" and "host_laws H" and "fork_ok X (h_sdk H) f"
    and "strict_invoke X H request execution auth f = (r, f')"
  shows "case r of Inl e \<Rightarrow> f' = f
      | Inr rc \<Rightarrow> sf_receipts f' = sf_receipts f @ [rc] \<and>
          strict_ledger_digest X (h_sdk H) f = Inr (rc_before_digest rc) \<and>
          (rc_disposition rc = Committed \<longleftrightarrow> execution = Apply \<and> is_success (rc_outcome rc)) \<and>
          (if rc_disposition rc = Committed then strict_ledger_digest X (h_sdk H) f' = Inr (rc_after_digest rc)
           else f' = f\<lparr>sf_receipts := sf_receipts f @ [rc]\<rparr>)"
proof (cases r)
  case (Inr rc)
  obtain after where "invoke_child X H request execution auth f = Inr (rc, after)"
    using assms(5) strict_invoke_Inr unfolding Inr by metis
  from invoke_child_disposition [OF this]
  have "rc_disposition rc = Committed \<longleftrightarrow> execution = Apply \<and> is_success (rc_outcome rc)" by simp
  then show ?thesis using strict_invoke_keeps [OF assms] Inr by simp
qed (use strict_invoke_keeps [OF assms] in simp)

text \<open>
  C5. An invocation fails closed: a receipt exists only when the whole call, from a child
  environment made from the fork's ledger, ran on reads answered by the fork's coverage or by
  its local contracts, code and mock nonces, and every entry it stored is among those; then the
  receipt's outcome is the call's and it counts no upstream reads.
\<close>

theorem strict_invoke_fails_closed:
  assumes "strict_invoke X H request execution auth f = (Inr rc, f')"
  shows "\<exists>child child2 stored.
    auth_child H auth (fst (strict_env X (h_sdk H) (strict_ledger_snapshot X (h_sdk H) f) (sf_coverage f)
      (sf_local_contracts f) (sf_local_code_hashes f) (allows_mock_nonces auth))) child \<and>
    follow (strict_serve X) (\<lambda>m v. v)
      (invoke_outcome_of H child (rq_contract request) (rq_function request) (rq_args request))
      (fork_view f (allows_mock_nonces auth)) =
      Some ((rc_outcome rc, child2), fork_view f (allows_mock_nonces auth)) \<and>
    h_stored_entries H child2 = Some stored \<and>
    (\<forall>key\<in>set stored. \<exists>i. key_to_xdr X key = Some i \<and> (i \<in> bm_keys (sf_coverage f) \<or>
      is_local_key key (sf_local_contracts f) (sf_local_code_hashes f) (allows_mock_nonces auth))) \<and>
    rc_upstream_reads rc = 0"
proof -
  obtain after where "invoke_child X H request execution auth f = Inr (rc, after)"
    using assms by (rule strict_invoke_Inr)
  then show ?thesis by (rule invoke_child_Inr) (auto simp: list_all_iff)
qed

subsection \<open>Modes compared\<close>

lemma invoke_child_execution:
  "invoke_child X H request Apply auth f =
     map_sum id (\<lambda>(rc, after). (rc\<lparr>rc_disposition := disposition Apply (is_success (rc_outcome rc))\<rparr>, after))
       (invoke_child X H request Preview auth f)"
  by (simp add: invoke_child_def Let_def and_then_def disposition_def split: sum.split prod.split)

text \<open>
  C6. A preview predicts the application: the applied call fails with the same error, or returns
  the same receipt but for its disposition, committed when the outcome is a success and rejected
  otherwise; committing it leads to the ledger digest the preview announced.
\<close>

theorem preview_predicts_apply:
  assumes "sdk_laws X (h_sdk H)" and "ledger_info_laws X" and "host_laws H" and "fork_ok X (h_sdk H) f"
  shows "case strict_invoke X H request Preview auth f of
      (Inl e, f1) \<Rightarrow> f1 = f \<and> strict_invoke X H request Apply auth f = (Inl e, f)
    | (Inr rc, f1) \<Rightarrow> f1 = f\<lparr>sf_receipts := sf_receipts f @ [rc]\<rparr> \<and>
        (\<exists>f2. strict_invoke X H request Apply auth f =
            (Inr (rc\<lparr>rc_disposition := if is_success (rc_outcome rc) then Committed else Rejected\<rparr>), f2) \<and>
          strict_ledger_digest X (h_sdk H) f2 =
            Inr (if is_success (rc_outcome rc) then rc_after_digest rc else rc_before_digest rc))"
proof (cases "invoke_child X H request Preview auth f")
  case (Inl e)
  then show ?thesis by (simp add: strict_invoke_def invoke_child_execution)
next
  case (Inr p)
  obtain rc after where child: "invoke_child X H request Preview auth f = Inr (rc, after)"
    using Inr by (cases p) simp
  let ?rc = "rc\<lparr>rc_disposition := disposition Apply (is_success (rc_outcome rc))\<rparr>"
  have applied: "invoke_child X H request Apply auth f = Inr (?rc, after)"
    by (simp add: invoke_child_execution child)
  obtain cov where "update_coverage X (rc_state_changes ?rc) (sf_coverage f) = (Inr (), cov)"
    using invoke_child_ledger [OF assms applied] by blast
  then obtain f2 where f2: "strict_invoke X H request Apply auth f = (Inr ?rc, f2)"
    unfolding strict_invoke_def applied by (cases "is_success (rc_outcome rc)") auto
  from strict_invoke_keeps [OF assms f2]
  have "strict_ledger_digest X (h_sdk H) f2 =
      Inr (if is_success (rc_outcome rc) then rc_after_digest rc else rc_before_digest rc)"
    by (cases "is_success (rc_outcome rc)")
      (auto simp: disposition_def strict_ledger_digest_def strict_ledger_snapshot_def)
  then show ?thesis
    using f2 by (simp add: strict_invoke_def [of X H request Preview] child disposition_def split: if_splits)
qed

lemma invoke_child_mock:
  assumes "invoke_child X H request execution Record_Auth f = Inr (rc, after)"
  shows "invoke_child X H request execution (Mock_Exact expected) f =
    (if rc_authorization rc = expected then Inr (rc\<lparr>rc_auth_mode := Applied_Mock_Exact\<rparr>, after)
     else Inl AuthTreeMismatch)"
  using assms
  by (auto simp: invoke_child_def Let_def and_then_def apply_auth_def allows_mock_nonces_def
      split: sum.splits prod.splits if_splits)

text \<open>
  C7. \<open>MockExact\<close> is \<open>Record\<close> with an exact comparison: it yields the same receipt but for the
  recorded mode, and the same fork, when the authorization trees are the expected ones; otherwise
  it is refused and the fork does not change.
\<close>

theorem mock_exact_is_checked_record:
  assumes "strict_invoke X H request execution Record_Auth f = (Inr rc, f')"
  shows "strict_invoke X H request execution (Mock_Exact expected) f =
    (if rc_authorization rc = expected
     then (Inr (rc\<lparr>rc_auth_mode := Applied_Mock_Exact\<rparr>),
       f'\<lparr>sf_receipts := sf_receipts f @ [rc\<lparr>rc_auth_mode := Applied_Mock_Exact\<rparr>]\<rparr>)
     else (Inl AuthTreeMismatch, f))"
proof -
  obtain after where child: "invoke_child X H request execution Record_Auth f = Inr (rc, after)"
    using assms by (rule strict_invoke_Inr)
  then show ?thesis
    using assms
    by (auto simp: strict_invoke_def child invoke_child_mock [OF child] split: sum.splits prod.splits if_splits)
qed

subsection \<open>What a receipt says\<close>

text \<open>
  C8. The state changes of a committed receipt are exact: between the ledger before and the
  ledger after there is one change for each key whose value differs, in key order, with both
  values, and replaying the changes on the old ledger gives the new one.
\<close>

theorem committed_changes_exact:
  assumes "sdk_laws X (h_sdk H)" and "ledger_info_laws X" and "host_laws H" and "fork_ok X (h_sdk H) f"
    and "strict_invoke X H request Apply auth f = (Inr rc, f')" and "is_success (rc_outcome rc)"
  shows "\<exists>b a. snapshot_map X (strict_ledger_snapshot X (h_sdk H) f) = Inr b \<and>
    snapshot_map X (strict_ledger_snapshot X (h_sdk H) f') = Inr a \<and>
    changes_between X b a (all_ids b a) (rc_state_changes rc) \<and>
    apply_changes X (rc_state_changes rc) (value_at b) = value_at a"
proof -
  let ?S = "h_sdk H"
  obtain after where child: "invoke_child X H request Apply auth f = Inr (rc, after)"
    using assms(5) by (rule strict_invoke_Inr)
  obtain cov where cov: "update_coverage X (rc_state_changes rc) (sf_coverage f) = (Inr (), cov)"
      "ledger_ok_for X (sf_network_protocol_version f) cov after"
      "canonical_ledger_digest X after = Inr (rc_after_digest rc)"
    using invoke_child_ledger [OF assms(1-4) child] by blast
  have "state_diff X (strict_ledger_snapshot X ?S f) after = Inr (rc_state_changes rc)"
    using child by (rule invoke_child_Inr)
  then obtain b a where maps: "snapshot_map X (strict_ledger_snapshot X ?S f) = Inr b"
      "snapshot_map X after = Inr a" and changes: "changes_between X b a (all_ids b a) (rc_state_changes rc)"
    by (rule state_diff_Inr)
  have f': "strict_ledger_snapshot X ?S f' = network_ledger_snapshot X ?S
      (fst (strict_env X ?S after cov (sf_local_contracts f) (sf_local_code_hashes f) False))
      (sf_network_protocol_version f)"
    using assms(5,6) by (auto simp: strict_invoke_def child cov(1) strict_ledger_snapshot_def)
  obtain es where "mset es = mset (sn_ledger_entries after)"
      "strict_ledger_snapshot X ?S f' = after\<lparr>sn_ledger_entries := es\<rparr>"
    using promoted_ok(3) [OF assms(1,2) cov(2)] unfolding f' by blast
  then have "snapshot_map X (strict_ledger_snapshot X ?S f') = Inr a"
    using snapshot_map_permutation [OF cov(3)] maps(2) by simp
  moreover have "apply_changes X (rc_state_changes rc) (value_at b) = value_at a"
    by (rule apply_changes_between [OF changes unlisted_unchanged]) auto
  ultimately show ?thesis using maps(1) changes by blast
qed

lemma candidate_checks_Inr:
  "candidate_checks X address wasm expected f = Inr () \<longleftrightarrow> is_contract address \<and> sha256 X wasm = expected \<and>
     (\<exists>i. key_to_xdr X (contract_instance_key address) = Some i \<and> covered_at (sf_coverage f) i = None)"
proof (cases "key_to_xdr X (contract_instance_key address)")
  case (Some i)
  then have "strict_key_id X (contract_instance_key address) = Inr i" by simp
  then show ?thesis
    by (cases "bm_get (sf_coverage f) i"; cases "the (bm_get (sf_coverage f) i)")
      (simp_all add: candidate_checks_def covered_at_def Some)
qed (simp add: candidate_checks_def strict_key_id_def)

text \<open>
  C9. Installing a candidate is atomic: on any error the fork is unchanged; a registration
  means that the address is a contract that the captured ledger does not occupy and that the
  WASM has the expected SHA-256, the address and the code are local from then on, and the fork's
  digest moves from the registration's before digest to its after digest.
\<close>

theorem register_candidate_atomic:
  assumes "sdk_laws X (h_sdk H)" and "ledger_info_laws X" and "host_laws H" and "fork_ok X (h_sdk H) f"
    and "register_candidate X H address wasm expected args f = (r, f')"
  shows "case r of Inl e \<Rightarrow> f' = f
      | Inr c \<Rightarrow> is_contract address \<and> sha256 X wasm = expected \<and>
          (\<exists>i. key_to_xdr X (contract_instance_key address) = Some i \<and> covered_at (sf_coverage f) i = None) \<and>
          address \<in> sf_local_contracts f' \<and> sha256 X wasm \<in> sf_local_code_hashes f' \<and>
          fork_ok X (h_sdk H) f' \<and> sf_receipts f' = sf_receipts f \<and>
          strict_ledger_digest X (h_sdk H) f = Inr (cd_before_digest c) \<and>
          strict_ledger_digest X (h_sdk H) f' = Inr (cd_after_digest c)"
proof (cases r)
  case (Inr c)
  then have "candidate_checks X address wasm expected f = Inr ()"
    and local: "address \<in> sf_local_contracts f'" "sha256 X wasm \<in> sf_local_code_hashes f'"
    using assms(5) by (auto simp: register_candidate_def split: sum.splits prod.splits)
  note checks = this(1) [unfolded candidate_checks_Inr]
  show ?thesis using register_candidate_keeps [OF assms] local checks by (simp add: Inr)
qed (use register_candidate_keeps [OF assms] in simp)

text \<open>
  Removing the nonces of recording authorization: exactly the temporary nonce entries whose
  key the ledger before did not hold go; every other entry stays, in its order and unchanged,
  and so does the rest of the snapshot.
\<close>

theorem strip_removes_new_nonces:
  assumes "strip_new_mock_nonces X before after = Inr s"
  shows "s = after\<lparr>sn_ledger_entries := filter (\<lambda>(key, v). \<not> is_nonce_key key \<or>
      key_to_xdr X key \<in> nonce_ids X before) (sn_ledger_entries after)\<rparr>"
  using strip_new_mock_nonces_Inr [OF assms] unfolding imp_conv_disj .

end
