(* ===== verification/Sample_Strict.thy ===== *)
theory Sample_Strict
  imports Strict_Properties
begin

text \<open>
  A strict fork of the sample capture on a small Host: a call reads the contract's instance and
  panics without one; \<open>touch\<close> marks the instance as modified, any other function is refused with
  a contract error; installing a candidate stores its code. The witnesses of the properties of
  \<open>Strict_Properties\<close> are evaluated here.
\<close>

definition sample_touch :: "sdk_snapshot \<Rightarrow> sdk_snapshot" where
  "sample_touch env = env\<lparr>sk_ledger := (sk_ledger env)\<lparr>sn_ledger_entries :=
     map (\<lambda>(key, entry, live). (key, if entry = sample_instance_entry
       then entry\<lparr>le_last_modified := 6\<rparr> else entry, live)) (sn_ledger_entries (sk_ledger env))\<rparr>\<rparr>"

definition sample_install :: "sdk_snapshot \<Rightarrow> sdk_snapshot" where
  "sample_install env = env\<lparr>sk_ledger := (sk_ledger env)\<lparr>sn_ledger_entries :=
     sn_ledger_entries (sk_ledger env) @ [(Key_ContractCode (sample_sha256 [2]), sample_code_entry 2, Some 30)]\<rparr>\<rparr>"

definition sample_host :: "sdk_snapshot host" where
  "sample_host = \<lparr> h_sdk = sample_sdk, h_address_ok = (\<lambda>env a. True), h_symbol_ok = (\<lambda>env s. length s \<le> 32),
     h_val_ok = (\<lambda>env v. True), h_mock_all_auths = (\<lambda>env. env),
     h_set_authorization_entries = (\<lambda>env entries. if entries = [] then Some env else None),
     h_try_invoke = (\<lambda>env contract function args. Get (contract_instance_key contract) (\<lambda>answer.
        Done (case answer of
            Inr (Some p) \<Rightarrow> if function = ''touch'' then (Call_Value (ScVal_Bytes [1]), sample_touch env)
              else (Call_Contract 3, env)
          | _ \<Rightarrow> (Call_Panicked, env)))),
     h_register_at = (\<lambda>env address wasm args. Done (Some address, sample_install env)),
     h_stored_entries = (\<lambda>env. Some (map fst (sn_ledger_entries (sk_ledger env)))),
     h_diagnostic_events = (\<lambda>env. Some []) \<rparr>"

lemma sample_host_simps [simp]:
  "h_sdk sample_host = sample_sdk" "h_address_ok sample_host env a" "h_val_ok sample_host env v"
  "h_symbol_ok sample_host env s \<longleftrightarrow> length s \<le> 32" "h_mock_all_auths sample_host env = env"
  "h_register_at sample_host env address wasm args = Done (Some address, sample_install env)"
  "h_stored_entries sample_host env = Some (map fst (sn_ledger_entries (sk_ledger env)))"
  "h_diagnostic_events sample_host env = Some []"
  by (simp_all add: sample_host_def)

lemma sample_host_laws: "host_laws sample_host"
  by (simp add: host_laws_def env_protocol_def sample_host_def sample_sdk_def sample_touch_def
      sample_install_def split: sum.split option.split)

definition sample_strict :: "sdk_snapshot strict_fork" where
  "sample_strict = the (fst (captured_fork sample_X sample_sdk sample_captured 7))"

lemma sample_strict_created: "captured_fork sample_X sample_sdk sample_captured 7 = (Some sample_strict, 8)"
  by (simp add: sample_strict_def captured_fork_def strict_from_captured_def next_id_def)

lemma sample_strict_ok: "fork_ok sample_X sample_sdk sample_strict"
  using capture_gives_ok [OF sample_captured_run sample_keyed]
    captured_fork_ok [OF sample_sdk_laws sample_ledger_info_laws _ sample_strict_created] by blast

theorem strict_revert_restores_witness:
  "\<exists>h. strict_revert sample_X sample_sdk (strict_fork_checkpoint sample_X sample_sdk sample_strict) sample_strict = Inr h \<and>
     strict_ledger_digest sample_X sample_sdk h = strict_ledger_digest sample_X sample_sdk sample_strict"
  using strict_revert_restores [OF sample_sdk_laws sample_ledger_info_laws sample_strict_ok refl] by auto

subsection \<open>The sample ledger\<close>

definition sample_base :: ledger_snapshot where
  "sample_base = snapshot_of sample_X (ledger_info_of sample_X ''net'' sample_anchor sample_settings) sample_all_coverage"

lemma sample_base_entries [simp]:
  "sn_ledger_entries sample_base =
     [(contract_instance_key sample_contract, sample_instance_entry, Some 20),
      (Key_ContractCode (sample_sha256 [1]), sample_code_entry 1, Some 12)]"
  "sn_protocol_version sample_base = 29"
  by (simp_all add: sample_base_def snapshot_of_def sample_all_coverage_def ledger_info_of_def sample_anchor_def)

definition sample_env :: "ledger_snapshot \<Rightarrow> sdk_snapshot" where
  "sample_env s = \<lparr> sk_ledger = s, sk_auth = [], sk_events = [], sk_rest = [] \<rparr>"

lemma sample_env_simps [simp]:
  "sk_ledger (sample_env s) = s" "sk_auth (sample_env s) = []" "sk_events (sample_env s) = []"
  by (simp_all add: sample_env_def)

lemma sample_strict_env:
  assumes "sn_protocol_version s = 29"
  shows "strict_env sample_X sample_sdk s cov lc lh n = (sample_env s,
    \<lparr> ss_coverage = cov, ss_local_contracts = lc, ss_local_code_hashes = lh, ss_allow_mock_nonces = n,
      ss_unknown = {} \<rparr>)"
  using assms
  by (cases s) (simp add: strict_env_def fork_env_def sample_sdk_def sample_of_info_def sample_env_def
      execute_info_def executed_protocol_version_def sample_X_def)

lemma sample_network_snapshot:
  "sn_protocol_version (sk_ledger env) = 29 \<Longrightarrow> network_ledger_snapshot sample_X sample_sdk env 29 = sk_ledger env"
  by (cases "sk_ledger env") (simp add: network_ledger_snapshot_def Let_def sample_sdk_def
      restore_network_protocol_def executed_protocol_version_def)

lemma sample_strict_parts:
  "sf_coverage sample_strict = sample_all_coverage" "sf_local_contracts sample_strict = {}"
  "sf_local_code_hashes sample_strict = {}" "sf_network_protocol_version sample_strict = 29"
  "strict_ledger_snapshot sample_X sample_sdk sample_strict = sample_base"
proof -
  have base: "ff_snapshot (cf_fixture sample_captured) = sample_base"
    using finish_capture_Inr [OF sample_captured_finish] by (simp add: sample_base_def sample_info)
  have f: "sample_strict = \<lparr> sf_id = 7, sf_env = sample_env sample_base, sf_network_protocol_version = 29,
      sf_coverage = sample_all_coverage, sf_local_contracts = {}, sf_local_code_hashes = {}, sf_receipts = [] \<rparr>"
    by (simp add: sample_strict_def captured_fork_def strict_from_captured_def next_id_def base
        sample_strict_env sample_captured_fields)
  show "sf_coverage sample_strict = sample_all_coverage" "sf_local_contracts sample_strict = {}"
    "sf_local_code_hashes sample_strict = {}" "sf_network_protocol_version sample_strict = 29"
    by (simp_all add: f)
  show "strict_ledger_snapshot sample_X sample_sdk sample_strict = sample_base"
    by (simp add: strict_ledger_snapshot_def f sample_network_snapshot)
qed

lemma sample_state_diff:
  assumes "list_all (entry_ok sample_X) (sn_ledger_entries s)" and "list_all (entry_ok sample_X) (sn_ledger_entries t)"
  shows "\<exists>changes. state_diff sample_X s t = Inr changes"
proof -
  have "\<exists>m. snapshot_map sample_X u = Inr m" if "list_all (entry_ok sample_X) (sn_ledger_entries u)" for u
    using that by (auto simp: snapshot_map_Inr list_all_iff entry_ok_def)
  then obtain b a where m: "snapshot_map sample_X s = Inr b" "snapshot_map sample_X t = Inr a"
    using assms by blast
  from change_parts [OF this, of "all_ids b a"] show ?thesis by (auto simp: state_diff_def m)
qed

lemma sample_digest:
  assumes "list_all (entry_ok sample_X) (sn_ledger_entries s)"
    and "distinct (map fst (map (encoded sample_X) (sn_ledger_entries s)))"
  shows "\<exists>d. canonical_ledger_digest sample_X s = Inr d"
  using assms by (simp add: canonical_ledger_digest_def sorted_entries_Inr bm_ok_sort_key)

lemma sample_base_ok:
  "list_all (entry_ok sample_X) (sn_ledger_entries sample_base)"
  "\<exists>d. canonical_ledger_digest sample_X sample_base = Inr d"
proof -
  obtain b where b: "sample_entry_to_xdr sample_instance_entry = Some b" using sample_entry_bytes ..
  show ok: "list_all (entry_ok sample_X) (sn_ledger_entries sample_base)" by (simp add: entry_ok_def b)
  show "\<exists>d. canonical_ledger_digest sample_X sample_base = Inr d"
    by (rule sample_digest [OF ok]) (simp add: encoded_def b)
qed

subsection \<open>A committed call\<close>

definition sample_request :: invoke_request where
  "sample_request = \<lparr> rq_contract = sample_contract, rq_function = ''touch'', rq_args = [] \<rparr>"

definition sample_touched :: ledger_snapshot where
  "sample_touched = sk_ledger (sample_touch (sample_env sample_base))"

lemma sample_touched_entries [simp]:
  "sn_ledger_entries sample_touched =
     [(contract_instance_key sample_contract, sample_instance_entry\<lparr>le_last_modified := 6\<rparr>, Some 20),
      (Key_ContractCode (sample_sha256 [1]), sample_code_entry 1, Some 12)]"
  "sn_protocol_version sample_touched = 29"
  by (simp_all add: sample_touched_def sample_touch_def)
    (simp add: sample_code_entry_def sample_instance_entry_def)

lemma sample_touched_ok:
  "list_all (entry_ok sample_X) (sn_ledger_entries sample_touched)"
  "\<exists>d. canonical_ledger_digest sample_X sample_touched = Inr d"
proof -
  have k: "sample_to_key (sample_instance_entry\<lparr>le_last_modified := 6\<rparr>) = contract_instance_key sample_contract"
    by (simp add: sample_to_key_def sample_instance_entry_def contract_instance_key_def)
  then obtain b where b: "sample_entry_to_xdr (sample_instance_entry\<lparr>le_last_modified := 6\<rparr>) = Some b"
    by (simp add: sample_entry_to_xdr_def sample_instance_entry_def sample_contract_def
        contract_instance_key_def sample_key_to_xdr_def)
  show ok: "list_all (entry_ok sample_X) (sn_ledger_entries sample_touched)" by (simp add: entry_ok_def b k)
  show "\<exists>d. canonical_ledger_digest sample_X sample_touched = Inr d"
    by (rule sample_digest [OF ok]) (simp add: encoded_def b)
qed

lemma sample_invoke_script:
  "invoke_outcome_of sample_host env sample_contract ''touch'' [] =
     Get (contract_instance_key sample_contract) (\<lambda>answer. Done (case answer of
       Inr (Some p) \<Rightarrow> (Success (ScVal_Bytes [1]), sample_touch env)
     | _ \<Rightarrow> (Failure None Kind_Abort, env)))"
  by (simp add: invoke_outcome_of_def invoke_once_def sample_host_def invocation_result_def o_def fun_eq_iff
      split: sum.split option.split)

lemma sample_nonce_free: "\<not> is_nonce_key (contract_instance_key c)" "\<not> is_nonce_key (Key_ContractCode h)"
  by (simp_all add: is_nonce_key_def contract_instance_key_def is_nonce_data_def)

lemma sample_strip: "strip_new_mock_nonces sample_X sample_base sample_touched = Inr sample_touched"
  by (simp add: strip_new_mock_nonces_def sample_nonce_free)

lemma sample_invoked:
  "\<exists>rc f'. strict_invoke sample_X sample_host sample_request Apply Record_Auth sample_strict = (Inr rc, f') \<and>
     rc_outcome rc = Success (ScVal_Bytes [1]) \<and> rc_authorization rc = []"
proof -
  let ?source = "\<lparr> ss_coverage = sample_all_coverage, ss_local_contracts = {}, ss_local_code_hashes = {},
      ss_allow_mock_nonces = True, ss_unknown = {} \<rparr>"
  obtain d where d: "canonical_ledger_digest sample_X sample_base = Inr d" using sample_base_ok(2) ..
  obtain e where e: "canonical_ledger_digest sample_X sample_touched = Inr e" using sample_touched_ok(2) ..
  obtain changes where diff: "state_diff sample_X sample_base sample_touched = Inr changes"
    using sample_state_diff sample_base_ok(1) sample_touched_ok(1) by blast
  have run: "run_strict sample_X (invoke_outcome_of sample_host (sample_env sample_base) sample_contract ''touch'' [])
      ?source = ((Success (ScVal_Bytes [1]), sample_touch (sample_env sample_base)), ?source)"
    by (simp add: run_strict_def sample_invoke_script strict_get_def sample_all_coverage_def present_of_def)
  have known: "unknown_keys sample_X sample_host (sample_touch (sample_env sample_base)) ?source sample_all_coverage
      {} {} True = Inr {}"
    by (simp add: unknown_keys_def sample_touched_def [symmetric] strict_key_id_def sample_all_coverage_def)
  have net: "network_ledger_snapshot sample_X sample_sdk (sample_touch (sample_env sample_base)) 29 = sample_touched"
    using sample_touched_entries(2) unfolding sample_touched_def by (rule sample_network_snapshot)
  have evidence: "detached_snapshot_evidence sample_sdk (sample_touch (sample_env sample_base)) = ([], [])"
    by (simp add: detached_snapshot_evidence_def sample_sdk_def sample_touch_def)
  have auth: "apply_auth sample_host Record_Auth env = Inr (env, Applied_Record, None)" "allows_mock_nonces Record_Auth"
    for env
    by (simp_all add: apply_auth_def allows_mock_nonces_def)
  obtain rc where rc: "invoke_child sample_X sample_host sample_request Apply Record_Auth sample_strict =
      Inr (rc, sample_touched)" "rc_outcome rc = Success (ScVal_Bytes [1])" "rc_authorization rc = []"
    by (simp add: invoke_child_def Let_def sample_strict_parts d sample_strict_env invocation_values_def
        sample_request_def auth run known refuse_unknown_def evidence net sample_strip e diff detached_diagnostics_def)
  obtain cov where "update_coverage sample_X (rc_state_changes rc) (sf_coverage sample_strict) = (Inr (), cov)"
    using invoke_child_ledger [OF _ sample_ledger_info_laws sample_host_laws _ rc(1)] sample_sdk_laws sample_strict_ok
    by auto
  then show ?thesis using rc(2) by (simp add: strict_invoke_def rc is_success_def)
qed

text \<open>The premises of the properties of \<open>Strict_Properties\<close> on the sample.\<close>

lemmas sample_strict_laws = sample_sdk_laws [folded sample_host_simps(1)] sample_ledger_info_laws
  sample_host_laws sample_strict_ok [folded sample_host_simps(1)]

theorem strict_invoke_atomic_witness:
  "\<exists>rc f'. strict_invoke sample_X sample_host sample_request Apply Record_Auth sample_strict = (Inr rc, f') \<and>
     rc_disposition rc = Committed \<and> strict_ledger_digest sample_X sample_sdk f' = Inr (rc_after_digest rc)"
proof -
  obtain rc f' where run: "strict_invoke sample_X sample_host sample_request Apply Record_Auth sample_strict = (Inr rc, f')"
    "rc_outcome rc = Success (ScVal_Bytes [1])"
    using sample_invoked by blast
  from strict_invoke_atomic [OF sample_strict_laws run(1)] run show ?thesis
    by (auto simp: is_success_def)
qed

theorem strict_history_mirrors_witness:
  "\<exists>f. strict_history sample_X sample_host sample_strict f [strict_fork_checkpoint sample_X sample_sdk f] \<and>
     sf_receipts f \<noteq> [] \<and> mirrors sample_X (sf_coverage f) (strict_ledger_snapshot sample_X sample_sdk f)"
proof -
  obtain rc f where run: "strict_invoke sample_X sample_host sample_request Apply Record_Auth sample_strict = (Inr rc, f)"
    using sample_invoked by blast
  have "strict_history sample_X sample_host sample_strict f [strict_fork_checkpoint sample_X (h_sdk sample_host) f]"
    by (intro strict_history.saved strict_history.invoked [OF strict_history.start run])
  from strict_history_mirrors [OF sample_strict_laws(1-3) sample_captured_run sample_keyed _ this]
  have "mirrors sample_X (sf_coverage f) (strict_ledger_snapshot sample_X sample_sdk f)"
    using sample_strict_created by simp
  moreover have "sf_receipts f \<noteq> []" using run by (auto simp: strict_invoke_def split: sum.splits prod.splits if_splits)
  ultimately show ?thesis
    using \<open>strict_history _ _ _ f _\<close> by auto
qed

theorem strict_invoke_fails_closed_witness:
  "\<exists>child stored. h_stored_entries sample_host child = Some stored \<and>
     (\<forall>key\<in>set stored. \<exists>i. sample_key_to_xdr key = Some i \<and> (i \<in> bm_keys sample_all_coverage \<or>
       is_local_key key {} {} True))"
proof -
  obtain rc f' where "strict_invoke sample_X sample_host sample_request Apply Record_Auth sample_strict = (Inr rc, f')"
    using sample_invoked by blast
  from strict_invoke_fails_closed [OF this] show ?thesis
    by (auto simp: sample_strict_parts allows_mock_nonces_def)
qed

theorem preview_predicts_apply_witness:
  "\<exists>rc f1 f2. strict_invoke sample_X sample_host sample_request Preview Record_Auth sample_strict = (Inr rc, f1) \<and>
     strict_invoke sample_X sample_host sample_request Apply Record_Auth sample_strict =
       (Inr (rc\<lparr>rc_disposition := Committed\<rparr>), f2) \<and>
     strict_ledger_digest sample_X sample_sdk f2 = Inr (rc_after_digest rc)"
proof -
  obtain ra f' where run: "strict_invoke sample_X sample_host sample_request Apply Record_Auth sample_strict = (Inr ra, f')"
    "rc_outcome ra = Success (ScVal_Bytes [1])"
    using sample_invoked by blast
  obtain r f1 where pre: "strict_invoke sample_X sample_host sample_request Preview Record_Auth sample_strict = (r, f1)"
    by fastforce
  from preview_predicts_apply [OF sample_strict_laws, of sample_request Record_Auth] show ?thesis
    using run by (cases r) (auto simp: pre is_success_def split: invoke_outcome.splits)
qed

theorem mock_exact_is_checked_record_witness:
  "strict_invoke sample_X sample_host sample_request Apply (Mock_Exact [(sample_contract, [])]) sample_strict =
     (Inl AuthTreeMismatch, sample_strict) \<and>
   (\<exists>rc f'. strict_invoke sample_X sample_host sample_request Apply (Mock_Exact []) sample_strict = (Inr rc, f'))"
proof -
  obtain rc f' where run: "strict_invoke sample_X sample_host sample_request Apply Record_Auth sample_strict = (Inr rc, f')"
    "rc_authorization rc = []"
    using sample_invoked by blast
  show ?thesis
    using mock_exact_is_checked_record [OF run(1), of "[(sample_contract, [])]"]
      mock_exact_is_checked_record [OF run(1), of "[]"] run(2) by simp
qed

theorem committed_changes_exact_witness:
  "\<exists>rc f' a. strict_invoke sample_X sample_host sample_request Apply Record_Auth sample_strict = (Inr rc, f') \<and>
     snapshot_map sample_X (strict_ledger_snapshot sample_X sample_sdk f') = Inr a \<and>
     apply_changes sample_X (rc_state_changes rc) (value_at (projr (snapshot_map sample_X sample_base))) = value_at a"
proof -
  obtain rc f' where run: "strict_invoke sample_X sample_host sample_request Apply Record_Auth sample_strict = (Inr rc, f')"
    "rc_outcome rc = Success (ScVal_Bytes [1])"
    using sample_invoked by blast
  from committed_changes_exact [OF sample_strict_laws run(1)] run show ?thesis
    by (auto simp: is_success_def sample_strict_parts)
qed

subsection \<open>A candidate\<close>

definition sample_candidate :: sc_address where
  "sample_candidate = ScAddress_Contract (replicate 32 9)"

definition sample_installed :: ledger_snapshot where
  "sample_installed = sk_ledger (sample_install (sample_env sample_base))"

lemma sample_installed_simps [simp]:
  "sn_ledger_entries sample_installed = sn_ledger_entries sample_base @
     [(Key_ContractCode (sample_sha256 [2]), sample_code_entry 2, Some 30)]"
  "sn_protocol_version sample_installed = 29"
  by (simp_all add: sample_installed_def sample_install_def)

lemma sample_candidate_key:
  "sample_key_to_xdr (contract_instance_key sample_candidate) = Some (6 # replicate 32 9)"
  "bm_get sample_all_coverage (6 # replicate 32 9) = None"
  by (simp_all add: sample_key_to_xdr_def contract_instance_key_def sample_candidate_def
      sample_all_coverage_def sample_instance_id_def sample_code_id_def del: sample_code_id_fold)

lemma sample_installed_distinct: "distinct (map fst (map (encoded sample_X) (sn_ledger_entries sample_installed)))"
  by (simp add: encoded_def) (simp add: sample_code_id_def sample_instance_id_def del: sample_code_id_fold)

text \<open>Any Host that installs like the sample one, at any free contract address.\<close>

lemma sample_registered:
  assumes H: "h_sdk H = sample_sdk" "\<And>env a w vs. h_register_at H env a w vs = Done (Some a, sample_install env)"
      "\<And>env. h_stored_entries H env = Some (map fst (sn_ledger_entries (sk_ledger env)))"
      "\<And>env a. h_address_ok H env a" "\<And>env v. h_val_ok H env v"
    and address: "is_contract address" "sample_key_to_xdr (contract_instance_key address) = Some i"
      "bm_get sample_all_coverage i = None"
  shows "\<exists>c f'. register_candidate sample_X H address [2] (sample_sha256 [2]) args sample_strict = (Inr c, f') \<and>
    strict_ledger_snapshot sample_X sample_sdk f' = sample_installed"
proof -
  let ?lc = "{address}" and ?lh = "{sample_sha256 [2]}"
  let ?source = "\<lparr> ss_coverage = sample_all_coverage, ss_local_contracts = ?lc, ss_local_code_hashes = ?lh,
      ss_allow_mock_nonces = False, ss_unknown = {} \<rparr>"
  have ok: "list_all (entry_ok sample_X) (sn_ledger_entries sample_installed)"
    using sample_base_ok(1) by (simp add: entry_ok_def)
  obtain d where d: "canonical_ledger_digest sample_X sample_base = Inr d" using sample_base_ok(2) ..
  obtain e where e: "canonical_ledger_digest sample_X sample_installed = Inr e"
    using sample_digest [OF ok sample_installed_distinct] by blast
  obtain changes where diff: "state_diff sample_X sample_base sample_installed = Inr changes"
    using sample_state_diff sample_base_ok(1) ok by blast
  have known: "unknown_keys sample_X H (sample_install (sample_env sample_base)) ?source sample_all_coverage
      ?lc ?lh False = Inr {}"
    by (simp add: unknown_keys_def H sample_installed_def [symmetric] strict_key_id_def sample_all_coverage_def
        is_local_key_def)
  have net: "network_ledger_snapshot sample_X sample_sdk (sample_install (sample_env sample_base)) 29 = sample_installed"
    using sample_installed_simps(2) unfolding sample_installed_def by (rule sample_network_snapshot)
  have "candidate_checks sample_X address [2] (sample_sha256 [2]) sample_strict = Inr ()"
    using address by (simp add: candidate_checks_Inr covered_at_def sample_strict_parts)
  moreover have vals: "list_all (h_val_ok H env) args" for env by (simp add: list_all_iff H)
  moreover have child: "register_child sample_X H address [2] args sample_strict =
      Inr (changes, d, e, sample_install (sample_env sample_base))"
    by (simp add: register_child_def Let_def sample_strict_parts H vals d sample_strict_env run_strict_def known
        refuse_unknown_def net e diff)
  moreover obtain cov where "update_coverage sample_X changes (sf_coverage sample_strict) = (Inr (), cov)"
    using mirrors_update [of sample_X "sf_coverage sample_strict" sample_base sample_installed] diff sample_strict_ok
    by (auto simp: fork_ok_def ledger_ok_for_def sample_strict_parts)
  ultimately show ?thesis
    by (simp add: register_candidate_def strict_ledger_snapshot_def sample_strict_parts net)
qed

theorem register_candidate_atomic_witness:
  "\<exists>c f'. register_candidate sample_X sample_host sample_candidate [2] (sample_sha256 [2]) [] sample_strict = (Inr c, f') \<and>
     sample_candidate \<in> sf_local_contracts f' \<and> strict_ledger_digest sample_X sample_sdk f' = Inr (cd_after_digest c)"
proof -
  obtain c f' where run: "register_candidate sample_X sample_host sample_candidate [2] (sample_sha256 [2]) [] sample_strict =
      (Inr c, f')"
    using sample_registered [OF sample_host_simps(1,6,7,2,3) _ sample_candidate_key, of "[]"]
    by (auto simp: sample_candidate_def is_contract_def)
  from register_candidate_atomic [OF sample_strict_laws run] run show ?thesis by simp
qed

definition sample_nonce :: ledger_key where
  "sample_nonce = Key_ContractData \<lparr> kd_contract = sample_contract, kd_key = ScVal_LedgerKeyNonce 0,
     kd_durability = Temporary \<rparr>"

theorem strip_removes_new_nonces_witness:
  "strip_new_mock_nonces sample_X sample_base
     (sample_base\<lparr>sn_ledger_entries := sn_ledger_entries sample_base @ [(sample_nonce, sample_code_entry 1, None)]\<rparr>) =
   Inr sample_base"
proof -
  let ?after = "sample_base\<lparr>sn_ledger_entries := sn_ledger_entries sample_base @ [(sample_nonce, sample_code_entry 1, None)]\<rparr>"
  have nonce: "is_nonce_key sample_nonce" "\<exists>i. sample_key_to_xdr sample_nonce = Some i"
    by (simp_all add: sample_nonce_def is_nonce_key_def is_nonce_data_def sample_key_to_xdr_def sample_contract_def)
  then obtain s where run: "strip_new_mock_nonces sample_X sample_base ?after = Inr s"
    by (auto simp: strip_new_mock_nonces_def sample_nonce_free strict_key_id_def)
  from strip_removes_new_nonces [OF this] have "s = sample_base"
    using nonce(1) by (simp add: sample_nonce_free nonce_ids_def)
  then show ?thesis using run by simp
qed

end
