(* ===== verification/File_System.thy ===== *)
theory File_System
  imports Effects
begin

text \<open>
  What the program uses of \<open>std::fs\<close>, on a small file system: a file is found by its directory
  and its name, every call may fail, as a schedule of faults says, and a failing write may leave
  any part of its bytes. \<open>dk_images\<close> records every content the disk has had, newest first, so
  that what another process sees at any moment, or after a crash, can be stated.
\<close>

type_synonym file_loc = "string \<times> string"

text \<open>A \<open>Path\<close>: its text, \<open>parent()\<close> and \<open>file_name()\<close>.\<close>

record fs_path =
  fp_text :: string
  fp_parent :: "string option"
  fp_name :: "string option"

datatype io_error = Already_Exists | Other_Io

type_synonym disk_image = "file_loc \<Rightarrow> bytes option"

text \<open>The process has an id and the counter \<open>TEMP_FILE_COUNTER\<close>.\<close>

record disk =
  dk_files :: disk_image
  dk_directories :: "string set"
  dk_images :: "disk_image list"
  dk_faults :: "nat option list"
  dk_process_id :: u32
  dk_temp_counter :: u64

definition next_fault :: "disk \<Rightarrow> nat option \<times> disk" where
  "next_fault d = (case dk_faults d of [] \<Rightarrow> (None, d) | f # fs \<Rightarrow> (f, d\<lparr>dk_faults := fs\<rparr>))"

definition store_files :: "disk_image \<Rightarrow> disk \<Rightarrow> disk" where
  "store_files files d = d\<lparr>dk_files := files, dk_images := files # dk_images d\<rparr>"

definition syscall :: "(nat \<Rightarrow> disk \<Rightarrow> disk) \<Rightarrow> (disk, io_error, 'a) act \<Rightarrow> (disk, io_error, 'a) act" where
  "syscall broken run d =
     (case next_fault d of
        (Some n, d1) \<Rightarrow> (Inl Other_Io, broken n d1)
      | (None, d1) \<Rightarrow> run d1)"

definition fs_create_new :: "file_loc \<Rightarrow> (disk, io_error, unit) act" where
  "fs_create_new loc = syscall (\<lambda>n d. d) (\<lambda>d.
     if fst loc \<notin> dk_directories d then (Inl Other_Io, d)
     else if dk_files d loc \<noteq> None then (Inl Already_Exists, d)
     else (Inr (), store_files ((dk_files d)(loc \<mapsto> [])) d))"

definition fs_write_all :: "file_loc \<Rightarrow> bytes \<Rightarrow> (disk, io_error, unit) act" where
  "fs_write_all loc bs = syscall (\<lambda>n d. store_files ((dk_files d)(loc \<mapsto> take n bs)) d)
     (\<lambda>d. (Inr (), store_files ((dk_files d)(loc \<mapsto> bs)) d))"

definition fs_sync_file :: "file_loc \<Rightarrow> (disk, io_error, unit) act" where
  "fs_sync_file loc = syscall (\<lambda>n d. d) (\<lambda>d. (Inr (), d))"

definition fs_sync_directory :: "string \<Rightarrow> (disk, io_error, unit) act" where
  "fs_sync_directory dir = syscall (\<lambda>n d. d) (\<lambda>d.
     if dir \<in> dk_directories d then (Inr (), d) else (Inl Other_Io, d))"

definition fs_rename :: "file_loc \<Rightarrow> file_loc \<Rightarrow> (disk, io_error, unit) act" where
  "fs_rename source target = syscall (\<lambda>n d. d) (\<lambda>d.
     case dk_files d source of
       None \<Rightarrow> (Inl Other_Io, d)
     | Some bs \<Rightarrow> (Inr (), store_files ((dk_files d)(source := None, target \<mapsto> bs)) d))"

definition fs_remove_file :: "file_loc \<Rightarrow> (disk, io_error, unit) act" where
  "fs_remove_file loc = syscall (\<lambda>n d. d) (\<lambda>d.
     if dk_files d loc = None then (Inl Other_Io, d)
     else (Inr (), store_files ((dk_files d)(loc := None)) d))"

definition fs_read :: "file_loc \<Rightarrow> (disk, io_error, bytes) act" where
  "fs_read loc = syscall (\<lambda>n d. d) (\<lambda>d.
     case dk_files d loc of None \<Rightarrow> (Inl Other_Io, d) | Some bs \<Rightarrow> (Inr bs, d))"

definition fs_create_dir_all :: "string \<Rightarrow> (disk, io_error, unit) act" where
  "fs_create_dir_all dir = syscall (\<lambda>n d. d) (\<lambda>d.
     (Inr (), d\<lparr>dk_directories := insert dir (dk_directories d)\<rparr>))"

text \<open>The directory of a bare file name is the current one; a path may name a directory too.\<close>

definition parent_or_dot :: "fs_path \<Rightarrow> string" where
  "parent_or_dot path =
     (case fp_parent path of Some dir \<Rightarrow> if dir = [] then ''.'' else dir | None \<Rightarrow> ''.'')"

definition path_loc :: "fs_path \<Rightarrow> file_loc option" where
  "path_loc path = map_option (\<lambda>name. (parent_or_dot path, name)) (fp_name path)"

definition fs_exists :: "fs_path \<Rightarrow> disk \<Rightarrow> bool \<times> disk" where
  "fs_exists path d =
     (case next_fault d of
        (Some n, d1) \<Rightarrow> (False, d1)
      | (None, d1) \<Rightarrow>
          (fp_text path \<in> dk_directories d1 \<or>
             (case path_loc path of None \<Rightarrow> False | Some loc \<Rightarrow> dk_files d1 loc \<noteq> None), d1))"

fun decimal :: "nat \<Rightarrow> string" where
  "decimal n = (if n < 10 then [char_of (48 + n)] else decimal (n div 10) @ [char_of (48 + n mod 10)])"

declare decimal.simps [simp del]

subsection \<open>What a call can do\<close>

text \<open>Only the listed effects on files; the schedule of faults only shrinks.\<close>

definition same_place :: "disk \<Rightarrow> disk \<Rightarrow> bool" where
  "same_place d e \<longleftrightarrow> dk_directories e = dk_directories d \<and> dk_process_id e = dk_process_id d"

text \<open>From \<open>d\<close> to \<open>e\<close> the files of \<open>e\<close> and every image in between satisfy \<open>P\<close>.\<close>

definition through :: "(disk_image \<Rightarrow> bool) \<Rightarrow> disk \<Rightarrow> disk \<Rightarrow> bool" where
  "through P d e \<longleftrightarrow> (\<exists>images. dk_images e = images @ dk_images d \<and> (\<forall>image\<in>set images. P image)) \<and>
     P (dk_files e) \<and> same_place d e"

lemma next_fault_files [simp]:
  assumes "next_fault d = (f, d1)"
  shows "dk_files d1 = dk_files d" "dk_directories d1 = dk_directories d" "dk_images d1 = dk_images d"
    "dk_process_id d1 = dk_process_id d" "dk_temp_counter d1 = dk_temp_counter d"
  using assms by (auto simp: next_fault_def split: list.splits)

lemma through_refl: "P (dk_files d) \<Longrightarrow> through P d d"
  by (simp add: through_def same_place_def)

lemma through_trans: "through P d e \<Longrightarrow> through P e f \<Longrightarrow> through P d f"
  by (auto simp: through_def same_place_def)

lemma through_files: "through P d e \<Longrightarrow> P (dk_files e)"
  by (simp add: through_def)

lemma through_same: 
  "dk_files e = dk_files d \<Longrightarrow> dk_images e = dk_images d \<Longrightarrow> dk_directories e = dk_directories d \<Longrightarrow>
     dk_process_id e = dk_process_id d \<Longrightarrow> P (dk_files d) \<Longrightarrow> through P d e"
  by (simp add: through_def same_place_def)

lemma through_store:
  "dk_files e = files \<Longrightarrow> dk_images e = files # dk_images d \<Longrightarrow> dk_directories e = dk_directories d \<Longrightarrow>
     dk_process_id e = dk_process_id d \<Longrightarrow> P files \<Longrightarrow> through P d e"
  by (simp add: through_def same_place_def)

lemma store_files_simps [simp]:
  "dk_files (store_files files d) = files" "dk_images (store_files files d) = files # dk_images d"
  "dk_directories (store_files files d) = dk_directories d" "dk_process_id (store_files files d) = dk_process_id d"
  "dk_temp_counter (store_files files d) = dk_temp_counter d" "dk_faults (store_files files d) = dk_faults d"
  by (simp_all add: store_files_def)

lemmas syscall_simps = syscall_def fs_create_new_def fs_write_all_def fs_sync_file_def fs_sync_directory_def
  fs_rename_def fs_remove_file_def fs_read_def fs_create_dir_all_def

text \<open>Each call either leaves the files alone or makes one listed change.\<close>

lemma fs_create_new_cases:
  assumes "fs_create_new loc d = (r, e)" and "P (dk_files d)"
    and "dk_files d loc = None \<Longrightarrow> P ((dk_files d)(loc \<mapsto> []))"
  shows "through P d e \<and>
    (case r of Inr u \<Rightarrow> dk_files d loc = None \<and> dk_files e = (dk_files d)(loc \<mapsto> []) | Inl x \<Rightarrow> dk_files e = dk_files d) \<and>
    dk_temp_counter e = dk_temp_counter d"
  using assms
  by (auto simp: syscall_simps intro: through_same through_store split: prod.splits option.splits if_splits)

lemma fs_write_all_cases:
  assumes "fs_write_all loc bs d = (r, e)" and "\<And>n. P ((dk_files d)(loc \<mapsto> take n bs))"
  shows "through P d e \<and> (\<exists>n. dk_files e = (dk_files d)(loc \<mapsto> take n bs)) \<and>
    (r = Inr () \<longrightarrow> dk_files e = (dk_files d)(loc \<mapsto> bs))"
proof -
  have "P ((dk_files d)(loc \<mapsto> bs))" using assms(2) [of "length bs"] by simp
  then show ?thesis
    using assms
    by (auto simp: syscall_simps intro: through_store exI [of _ "length bs"] split: prod.splits option.splits)
qed

lemma fs_sync_file_cases: "fs_sync_file loc d = (r, e) \<Longrightarrow> P (dk_files d) \<Longrightarrow> through P d e \<and> dk_files e = dk_files d"
  by (auto simp: syscall_simps intro: through_same split: prod.splits option.splits)

lemma fs_sync_directory_cases:
  "fs_sync_directory dir d = (r, e) \<Longrightarrow> P (dk_files d) \<Longrightarrow> through P d e \<and> dk_files e = dk_files d"
  by (auto simp: syscall_simps intro: through_same split: prod.splits option.splits if_splits)

lemma fs_rename_cases:
  assumes "fs_rename source target d = (r, e)" and "dk_files d source = Some bs" and "P (dk_files d)"
    and "P ((dk_files d)(source := None, target \<mapsto> bs))"
  shows "through P d e \<and>
    (case r of Inr u \<Rightarrow> dk_files e = (dk_files d)(source := None, target \<mapsto> bs) | Inl x \<Rightarrow> dk_files e = dk_files d)"
  using assms
  by (auto simp: syscall_simps intro: through_same through_store split: prod.splits option.splits)

lemma fs_remove_file_cases:
  assumes "fs_remove_file loc d = (r, e)" and "P (dk_files d)" and "P ((dk_files d)(loc := None))"
  shows "through P d e \<and> (dk_files e = dk_files d \<or> dk_files e = (dk_files d)(loc := None))"
  using assms
  by (auto simp: syscall_simps intro: through_same through_store split: prod.splits option.splits if_splits)

end
