(* ===== verification/Bundle_File.thy ===== *)
theory Bundle_File
  imports File_System Capture_Bundle
begin

text \<open>
  Capture bundles on disk: \<open>write_file\<close>, \<open>from_file\<close>, \<open>atomic_write\<close> and
  \<open>create_temporary_file\<close> of \<open>src/capture.rs\<close>. Writing refines an atomic register: at every
  moment, and after every failure, the destination holds the old or the complete new contents.
\<close>

definition temporary_name :: "u32 \<Rightarrow> u64 \<Rightarrow> string \<Rightarrow> string" where
  "temporary_name process sequence file_name =
     file_name @ ''.tmp-'' @ decimal (unat process) @ ''-'' @ decimal (unat sequence)"

primrec create_attempts :: "nat \<Rightarrow> string \<Rightarrow> string \<Rightarrow> (disk, capture_error, file_loc) act" where
  "create_attempts 0 parent file_name d = (Inl (CaptureBundleIo ''create temporary file''), d)"
| "create_attempts (Suc left) parent file_name d =
     (let sequence = dk_temp_counter d;
          temporary_path = (parent, temporary_name (dk_process_id d) sequence file_name) in
      case fs_create_new temporary_path (d\<lparr>dk_temp_counter := sequence + 1\<rparr>) of
        (Inr _, d1) \<Rightarrow> (Inr temporary_path, d1)
      | (Inl Already_Exists, d1) \<Rightarrow> create_attempts left parent file_name d1
      | (Inl Other_Io, d1) \<Rightarrow> (Inl (CaptureBundleIo ''create temporary file''), d1))"

definition create_temporary_file :: "string \<Rightarrow> string \<Rightarrow> (disk, capture_error, file_loc) act" where
  "create_temporary_file = create_attempts 32"

definition cleanup_temporary_file :: "file_loc \<Rightarrow> disk \<Rightarrow> disk" where
  "cleanup_temporary_file loc d = snd (fs_remove_file loc d)"

text \<open>A failed step removes the temporary file and names the step; a failed removal is ignored.\<close>

definition or_cleanup ::
  "file_loc \<Rightarrow> string \<Rightarrow> (disk, io_error, unit) act \<Rightarrow> (disk, capture_error, unit) act" where
  "or_cleanup temporary operation step d =
     (case step d of
        (Inl source, d1) \<Rightarrow> (Inl (CaptureBundleIo operation), cleanup_temporary_file temporary d1)
      | (Inr u, d1) \<Rightarrow> (Inr u, d1))"

definition atomic_write :: "fs_path \<Rightarrow> bytes \<Rightarrow> (disk, capture_error, unit) act" where
  "atomic_write path bs =
     (case path_loc path of
        None \<Rightarrow> sfail MalformedCaptureBundle
      | Some (parent, file_name) \<Rightarrow>
          sbind (create_temporary_file parent file_name) (\<lambda>temporary.
          sbind (or_cleanup temporary ''write'' (fs_write_all temporary bs)) (\<lambda>_.
          sbind (or_cleanup temporary ''sync temporary file'' (fs_sync_file temporary)) (\<lambda>_.
          sbind (or_cleanup temporary ''rename'' (fs_rename temporary (parent, file_name))) (\<lambda>_.
            smap_err (\<lambda>source. CaptureBundleIo ''sync destination directory'') (fs_sync_directory parent))))))"

definition write_file ::
  "externals \<Rightarrow> json_codec \<Rightarrow> captured_fixture \<Rightarrow> fs_path \<Rightarrow> (disk, capture_error, unit) act" where
  "write_file X J f path =
     sbind (slift (to_bundle X f)) (\<lambda>bundle.
     sbind (slift (ok_or MalformedCaptureBundle (js_print J bundle))) (\<lambda>bs. atomic_write path bs))"

text \<open>A path without a file name cannot be read as a file.\<close>

definition bundle_from_file_with_policy ::
  "externals \<Rightarrow> json_codec \<Rightarrow> fs_path \<Rightarrow> string \<Rightarrow> protocol_policy \<Rightarrow> (disk, capture_error, captured_fixture) act" where
  "bundle_from_file_with_policy X J path passphrase policy =
     sbind (smap_err (\<lambda>source. CaptureBundleIo ''read'')
         (case path_loc path of None \<Rightarrow> sfail Other_Io | Some loc \<Rightarrow> fs_read loc)) (\<lambda>bs.
       slift (from_bundle_bytes X J bs passphrase policy))"

definition bundle_from_file where
  "bundle_from_file X J path passphrase = bundle_from_file_with_policy X J path passphrase Exact"

definition bundle_from_file_allowing_newer_protocol where
  "bundle_from_file_allowing_newer_protocol X J path passphrase =
     bundle_from_file_with_policy X J path passphrase AllowNewer"

subsection \<open>Names\<close>

definition is_temporary :: "u32 \<Rightarrow> file_loc \<Rightarrow> file_loc \<Rightarrow> bool" where
  "is_temporary process dest loc \<longleftrightarrow> (\<exists>sequence. loc = (fst dest, temporary_name process sequence (snd dest)))"

lemma temporary_not_dest: "is_temporary process dest loc \<Longrightarrow> loc \<noteq> dest"
  by (cases dest) (auto simp: is_temporary_def temporary_name_def)

text \<open>
  What an observer may see of a write of \<open>bs\<close> to \<open>dest\<close> over the files \<open>old\<close>: besides
  temporary files that did not exist, only the destination may change, and only to \<open>bs\<close>.
\<close>

definition intact :: "u32 \<Rightarrow> disk_image \<Rightarrow> file_loc \<Rightarrow> bytes \<Rightarrow> disk_image \<Rightarrow> bool" where
  "intact process old dest bs files \<longleftrightarrow> files dest \<in> {old dest, Some bs} \<and>
     (\<forall>loc. loc \<noteq> dest \<longrightarrow> files loc = old loc \<or> old loc = None \<and> is_temporary process dest loc)"

lemma intact_start: "intact process old dest bs old"
  by (simp add: intact_def)

lemma intact_temporary:
  "is_temporary process dest loc \<Longrightarrow> old loc = None \<Longrightarrow> intact process old dest bs files \<Longrightarrow>
     intact process old dest bs (files(loc := content))"
  using temporary_not_dest [of process dest loc] by (simp add: intact_def)

lemma intact_written:
  "is_temporary process dest loc \<Longrightarrow> old loc = None \<Longrightarrow> intact process old dest bs files \<Longrightarrow>
     intact process old dest bs (files(loc := None, dest \<mapsto> bs))"
  using temporary_not_dest [of process dest loc] by (simp add: intact_def)

text \<open>One temporary file may be left over, when it could not be removed.\<close>

definition leftover :: "u32 \<Rightarrow> disk_image \<Rightarrow> file_loc \<Rightarrow> disk_image \<Rightarrow> bool" where
  "leftover process old dest files \<longleftrightarrow> files = old \<or>
     (\<exists>loc content. is_temporary process dest loc \<and> old loc = None \<and> files = old(loc := content))"

subsection \<open>Steps\<close>

lemma create_attempts_cases:
  assumes "create_attempts n (fst dest) (snd dest) d = (r, e)"
    and "intact (dk_process_id d) old dest bs (dk_files d)" and "dk_files d = old"
  shows "through (intact (dk_process_id d) old dest bs) d e \<and>
    (case r of
       Inl err \<Rightarrow> err = CaptureBundleIo ''create temporary file'' \<and> dk_files e = old
     | Inr loc \<Rightarrow> is_temporary (dk_process_id d) dest loc \<and> old loc = None \<and> dk_files e = old(loc \<mapsto> []))"
  using assms
proof (induction n arbitrary: d)
  case 0
  then show ?case by (auto intro: through_refl)
next
  case (Suc n)
  let ?loc = "(fst dest, temporary_name (dk_process_id d) (dk_temp_counter d) (snd dest))"
  let ?d = "d\<lparr>dk_temp_counter := dk_temp_counter d + 1\<rparr>" and ?P = "intact (dk_process_id d) old dest bs"
  have temp: "is_temporary (dk_process_id d) dest ?loc" by (auto simp: is_temporary_def)
  obtain x d1 where run: "fs_create_new ?loc ?d = (x, d1)" by fastforce
  have step: "through ?P ?d d1"
    and effect: "case x of Inr u \<Rightarrow> old ?loc = None \<and> dk_files d1 = old(?loc \<mapsto> []) | Inl y \<Rightarrow> dk_files d1 = old"
    using fs_create_new_cases [OF run, of ?P] Suc.prems(2,3) intact_temporary [OF temp, of old bs old]
    by (auto split: sum.splits)
  have start: "through ?P d ?d" using Suc.prems(2) by (intro through_same) simp_all
  have d1: "through ?P d d1" using start step by (rule through_trans)
  then have pid: "dk_process_id d1 = dk_process_id d" by (simp add: through_def same_place_def)
  show ?case
  proof (cases x)
    case (Inr u)
    then show ?thesis using Suc.prems(1) run effect temp d1 by (auto simp: Let_def)
  next
    case (Inl y)
    then have files: "dk_files d1 = old" using effect by simp
    show ?thesis
    proof (cases y)
      case Already_Exists
      then have "create_attempts n (fst dest) (snd dest) d1 = (r, e)"
        using Suc.prems(1) run Inl by (simp add: Let_def)
      from Suc.IH [OF this] files Suc.prems(2,3) show ?thesis
        using through_trans [OF d1] unfolding pid by auto
    next
      case Other_Io
      then show ?thesis using Suc.prems(1) run Inl d1 files by (auto simp: Let_def)
    qed
  qed
qed

lemma or_cleanup_cases [consumes 2]:
  assumes "or_cleanup loc operation step d = (r, e)"
    and "through P d (snd (step d)) \<and> P ((dk_files (snd (step d)))(loc := None))"
  obtains (passed) "r = Inr ()" "step d = (Inr (), e)"
  | (failed) x d1 where "r = Inl (CaptureBundleIo operation)" "step d = (Inl x, d1)" "through P d e"
      "dk_files e = dk_files d1 \<or> dk_files e = (dk_files d1)(loc := None)"
proof (cases "fst (step d)")
  case (Inl x)
  then obtain d1 where step: "step d = (Inl x, d1)" by (metis prod.collapse)
  obtain y d2 where clean: "fs_remove_file loc d1 = (y, d2)" by fastforce
  have p: "through P d d1" "P ((dk_files d1)(loc := None))" using assms(2) step by auto
  have "through P d1 d2 \<and> (dk_files d2 = dk_files d1 \<or> dk_files d2 = (dk_files d1)(loc := None))"
    by (rule fs_remove_file_cases [OF clean through_files [OF p(1)] p(2)])
  then show thesis
    using failed [of x d1] assms(1) step clean through_trans [OF p(1)]
    by (simp add: or_cleanup_def cleanup_temporary_file_def)
next
  case (Inr u)
  then have "step d = (Inr (), snd (step d))" by (metis prod.collapse old.unit.exhaust)
  then show thesis using assms(1) passed by (simp add: or_cleanup_def split: prod.splits)
qed

text \<open>While the temporary file exists, removing it or changing it is invisible at the destination.\<close>

lemma temporary_files:
  assumes "is_temporary process dest loc" and "old loc = None" and "files = old(loc \<mapsto> content)"
  shows "intact process old dest bs files" and "intact process old dest bs (files(loc := x))"
    and "f = files \<or> f = files(loc := None) \<Longrightarrow> leftover process old dest f"
    and "files(loc := None, dest \<mapsto> bs) = old(dest \<mapsto> bs)"
    and "intact process old dest bs (old(dest \<mapsto> bs))"
proof -
  have old: "old(loc := None) = old" using assms(2) by auto
  show "intact process old dest bs files" "intact process old dest bs (files(loc := x))"
    using intact_temporary [of process dest loc old bs old] assms(1,2) intact_start [of process old dest bs]
    by (simp_all add: assms(3))
  show "f = files \<or> f = files(loc := None) \<Longrightarrow> leftover process old dest f"
    using assms(1,2) unfolding leftover_def assms(3) fun_upd_upd old by blast
  show "files(loc := None, dest \<mapsto> bs) = old(dest \<mapsto> bs)" by (simp add: assms(3) old)
  show "intact process old dest bs (old(dest \<mapsto> bs))" by (simp add: intact_def)
qed

lemma write_step:
  assumes "is_temporary process dest loc" and "old loc = None" and "dk_files d = old(loc \<mapsto> content)"
    and "or_cleanup loc ''write'' (fs_write_all loc bs) d = (r, e)"
  shows "through (intact process old dest bs) d e \<and>
    (case r of Inr u \<Rightarrow> dk_files e = old(loc \<mapsto> bs)
      | Inl err \<Rightarrow> err = CaptureBundleIo ''write'' \<and> leftover process old dest (dk_files e))"
proof -
  have step: "through (intact process old dest bs) d d1 \<and> (\<exists>n. dk_files d1 = old(loc \<mapsto> take n bs)) \<and>
      (r1 = Inr () \<longrightarrow> dk_files d1 = old(loc \<mapsto> bs))" if "fs_write_all loc bs d = (r1, d1)" for r1 d1
    using fs_write_all_cases [OF that, of "intact process old dest bs"] temporary_files(2) [of process dest loc old, OF assms(1-3)]
    by (simp add: assms(3))
  have "through (intact process old dest bs) d (snd (fs_write_all loc bs d)) \<and>
      intact process old dest bs ((dk_files (snd (fs_write_all loc bs d)))(loc := None))"
    using step [OF prod.collapse [symmetric]] temporary_files(2) [of process dest loc old, OF assms(1,2)] by metis
  with assms(4) show ?thesis
  proof (cases rule: or_cleanup_cases)
    case passed
    then show ?thesis using step [of "Inr ()" e] by simp
  next
    case (failed x d1)
    then obtain n where "dk_files d1 = old(loc \<mapsto> take n bs)" using step [of "Inl x" d1] by blast
    then show ?thesis using failed temporary_files(3) [of process dest loc old, OF assms(1,2)] by auto
  qed
qed

lemma sync_step:
  assumes "is_temporary process dest loc" and "old loc = None" and "dk_files d = old(loc \<mapsto> bs)"
    and "or_cleanup loc ''sync temporary file'' (fs_sync_file loc) d = (r, e)"
  shows "through (intact process old dest bs) d e \<and>
    (case r of Inr u \<Rightarrow> dk_files e = old(loc \<mapsto> bs)
      | Inl err \<Rightarrow> err = CaptureBundleIo ''sync temporary file'' \<and> leftover process old dest (dk_files e))"
proof -
  note t = temporary_files [of process dest loc old, OF assms(1-3)]
  have step: "through (intact process old dest bs) d d1 \<and> dk_files d1 = dk_files d" if "fs_sync_file loc d = (r1, d1)" for r1 d1
    using that t(1) by (rule fs_sync_file_cases)
  have "through (intact process old dest bs) d (snd (fs_sync_file loc d)) \<and>
      intact process old dest bs ((dk_files (snd (fs_sync_file loc d)))(loc := None))"
    using step [OF prod.collapse [symmetric]] t(2) by metis
  with assms(4) show ?thesis
  proof (cases rule: or_cleanup_cases)
    case passed
    then show ?thesis using step [of "Inr ()" e] assms(3) by simp
  next
    case (failed x d1)
    then show ?thesis using step [of "Inl x" d1] t(3) by auto
  qed
qed

lemma rename_step:
  assumes "is_temporary process dest loc" and "old loc = None" and "dk_files d = old(loc \<mapsto> bs)"
    and "or_cleanup loc ''rename'' (fs_rename loc dest) d = (r, e)"
  shows "through (intact process old dest bs) d e \<and>
    (case r of Inr u \<Rightarrow> dk_files e = old(dest \<mapsto> bs)
      | Inl err \<Rightarrow> err = CaptureBundleIo ''rename'' \<and> leftover process old dest (dk_files e))"
proof -
  note t = temporary_files [of process dest loc old, OF assms(1-3)]
  have step: "through (intact process old dest bs) d d1 \<and>
      (case r1 of Inr u \<Rightarrow> dk_files d1 = old(dest \<mapsto> bs) | Inl x \<Rightarrow> dk_files d1 = dk_files d)"
    if "fs_rename loc dest d = (r1, d1)" for r1 d1
    using fs_rename_cases [OF that, of bs "intact process old dest bs"] t(1,4,5) assms(3) by (simp split: sum.splits)
  have none: "(old(dest \<mapsto> bs))(loc := None) = old(dest \<mapsto> bs)"
    using assms(2) temporary_not_dest [OF assms(1)] by auto
  have "through (intact process old dest bs) d (snd (fs_rename loc dest d)) \<and>
      intact process old dest bs ((dk_files (snd (fs_rename loc dest d)))(loc := None))"
    using step [OF prod.collapse [symmetric]] t(2,5)
    by (cases "fst (fs_rename loc dest d)") (simp_all add: none)
  with assms(4) show ?thesis
  proof (cases rule: or_cleanup_cases)
    case passed
    then show ?thesis using step [of "Inr ()" e] by simp
  next
    case (failed x d1)
    then show ?thesis using step [of "Inl x" d1] t(3) by auto
  qed
qed

subsection \<open>The whole write\<close>

lemma through_process: "through P d e \<Longrightarrow> dk_process_id e = dk_process_id d"
  by (simp add: through_def same_place_def)

lemma leftover_old: "leftover process old dest old"
  by (simp add: leftover_def)

lemma leftover_dest: "leftover process old dest files \<Longrightarrow> files dest = old dest"
  unfolding leftover_def using temporary_not_dest [of process dest] by fastforce

text \<open>
  The result of a write and the files then: a failure names its step; only an unsynced
  directory is reported after the replacement.
\<close>

definition write_result ::
  "u32 \<Rightarrow> disk_image \<Rightarrow> file_loc \<Rightarrow> bytes \<Rightarrow> capture_error + unit \<Rightarrow> disk_image \<Rightarrow> bool" where
  "write_result process old dest bs r files \<longleftrightarrow>
     (case r of
        Inr u \<Rightarrow> files = old(dest \<mapsto> bs)
      | Inl err \<Rightarrow> \<exists>operation. err = CaptureBundleIo operation \<and>
          (if operation = ''sync destination directory'' then files = old(dest \<mapsto> bs)
           else leftover process old dest files))"

definition wrote :: "u32 \<Rightarrow> disk_image \<Rightarrow> file_loc \<Rightarrow> bytes \<Rightarrow> disk \<Rightarrow> capture_error + unit \<Rightarrow> disk \<Rightarrow> bool" where
  "wrote process old dest bs d r e \<longleftrightarrow>
     through (intact process old dest bs) d e \<and> write_result process old dest bs r (dk_files e)"

lemma wrote_chain:
  assumes "sbind m f d = (r, e)" and "m d = (r1, d1)" and "through (intact process old dest bs) d d1"
    and "\<And>x. r1 = Inl x \<Longrightarrow> write_result process old dest bs (Inl x) (dk_files d1)"
    and "\<And>y. r1 = Inr y \<Longrightarrow> f y d1 = (r, e) \<Longrightarrow> wrote process old dest bs d1 r e"
  shows "wrote process old dest bs d r e"
proof (cases r1)
  case (Inl x)
  then show ?thesis using assms(1-4) by (auto simp: sbind_def wrote_def)
next
  case (Inr y)
  then have "wrote process old dest bs d1 r e" using assms(1,2,5) by (simp add: sbind_run(1))
  then show ?thesis using through_trans [OF assms(3)] by (simp add: wrote_def)
qed

abbreviation sync_tail :: "file_loc \<Rightarrow> (disk, capture_error, unit) act" where
  "sync_tail dest \<equiv> smap_err (\<lambda>source. CaptureBundleIo ''sync destination directory'') (fs_sync_directory (fst dest))"

lemma sync_tail_wrote:
  assumes "dk_files d = old(dest \<mapsto> bs)" and "sync_tail dest d = (r, e)"
  shows "wrote process old dest bs d r e"
proof -
  obtain x where x: "fs_sync_directory (fst dest) d = (x, e)"
      "r = map_err (\<lambda>source. CaptureBundleIo ''sync destination directory'') x"
    using assms(2) by (auto simp: smap_err_def split: prod.splits)
  have "intact process old dest bs (dk_files d)" by (simp add: assms(1) intact_def)
  then show ?thesis
    using fs_sync_directory_cases [OF x(1), of "intact process old dest bs"] assms(1) x(2)
    by (cases x) (simp_all add: wrote_def write_result_def)
qed

lemma rename_wrote:
  assumes "is_temporary process dest loc" and "old loc = None" and "dk_files d = old(loc \<mapsto> bs)"
    and "sbind (or_cleanup loc ''rename'' (fs_rename loc dest)) (\<lambda>_. sync_tail dest) d = (r, e)"
  shows "wrote process old dest bs d r e"
proof -
  obtain r1 d1 where run: "or_cleanup loc ''rename'' (fs_rename loc dest) d = (r1, d1)" by fastforce
  note s = rename_step [OF assms(1-3) run]
  show ?thesis
    by (rule wrote_chain [OF assms(4) run]) (use s in \<open>auto simp: write_result_def intro: sync_tail_wrote\<close>)
qed

lemma sync_wrote:
  assumes "is_temporary process dest loc" and "old loc = None" and "dk_files d = old(loc \<mapsto> bs)"
    and "sbind (or_cleanup loc ''sync temporary file'' (fs_sync_file loc)) (\<lambda>_.
      sbind (or_cleanup loc ''rename'' (fs_rename loc dest)) (\<lambda>_. sync_tail dest)) d = (r, e)"
  shows "wrote process old dest bs d r e"
proof -
  obtain r1 d1 where run: "or_cleanup loc ''sync temporary file'' (fs_sync_file loc) d = (r1, d1)" by fastforce
  note s = sync_step [OF assms(1-3) run]
  show ?thesis
    by (rule wrote_chain [OF assms(4) run])
      (use s in \<open>auto simp: write_result_def intro: rename_wrote [of process dest loc old, OF assms(1,2)]\<close>)
qed

lemma atomic_write_spec:
  assumes "atomic_write path bs d = (r, e)" and "path_loc path = Some dest"
  shows "through (intact (dk_process_id d) (dk_files d) dest bs) d e \<and>
    write_result (dk_process_id d) (dk_files d) dest bs r (dk_files e)"
proof -
  obtain rc d1 where create: "create_attempts 32 (fst dest) (snd dest) d = (rc, d1)" by fastforce
  note c = create_attempts_cases [OF create intact_start refl, of bs]
  have run: "sbind (create_attempts 32 (fst dest) (snd dest)) (\<lambda>loc.
      sbind (or_cleanup loc ''write'' (fs_write_all loc bs)) (\<lambda>_.
      sbind (or_cleanup loc ''sync temporary file'' (fs_sync_file loc)) (\<lambda>_.
      sbind (or_cleanup loc ''rename'' (fs_rename loc dest)) (\<lambda>_. sync_tail dest)))) d = (r, e)"
    using assms by (cases dest) (simp add: atomic_write_def create_temporary_file_def)
  have "wrote (dk_process_id d) (dk_files d) dest bs d r e"
  proof (rule wrote_chain [OF run create])
    show "through (intact (dk_process_id d) (dk_files d) dest bs) d d1" using c by blast
    show "write_result (dk_process_id d) (dk_files d) dest bs (Inl x) (dk_files d1)" if "rc = Inl x" for x
      using c that leftover_old by (simp add: write_result_def)
  next
    fix loc
    assume rc: "rc = Inr loc" and rest: "sbind (or_cleanup loc ''write'' (fs_write_all loc bs)) (\<lambda>_.
      sbind (or_cleanup loc ''sync temporary file'' (fs_sync_file loc)) (\<lambda>_.
      sbind (or_cleanup loc ''rename'' (fs_rename loc dest)) (\<lambda>_. sync_tail dest))) d1 = (r, e)"
    then have t: "is_temporary (dk_process_id d) dest loc" "dk_files d loc = None" "dk_files d1 = (dk_files d)(loc \<mapsto> [])"
      using c by auto
    obtain r1 d2 where w: "or_cleanup loc ''write'' (fs_write_all loc bs) d1 = (r1, d2)" by fastforce
    note s = write_step [of "dk_process_id d" dest loc "dk_files d", OF t w]
    show "wrote (dk_process_id d) (dk_files d) dest bs d1 r e"
      by (rule wrote_chain [OF rest w])
        (use s in \<open>auto simp: write_result_def intro: sync_wrote [of _ dest loc "dk_files d", OF t(1,2)]\<close>)
  qed
  then show ?thesis by (simp add: wrote_def)
qed

text \<open>
  C15. Writing a file atomically refines a register: at every moment, hence also after a crash,
  the destination holds the old or the complete new contents and no other file has changed, but
  for fresh temporary files; success means that exactly the destination was replaced; a failure
  names its step and leaves the old files and at most one temporary, except that a directory
  that cannot be synced is reported after the replacement.
\<close>

theorem atomic_write_refines:
  assumes "atomic_write path bs d = (r, e)" and "path_loc path = Some dest"
  shows "through (intact (dk_process_id d) (dk_files d) dest bs) d e \<and>
    write_result (dk_process_id d) (dk_files d) dest bs r (dk_files e)"
  using assms by (rule atomic_write_spec)

text \<open>Without faults, in an existing directory and with a fresh name, writing succeeds.\<close>

lemma atomic_write_succeeds:
  assumes "path_loc path = Some dest" and "dk_faults d = []" and "fst dest \<in> dk_directories d"
    and "dk_files d (fst dest, temporary_name (dk_process_id d) (dk_temp_counter d) (snd dest)) = None"
  shows "\<exists>e. atomic_write path bs d = (Inr (), e) \<and> dk_faults e = []"
  using assms
  by (cases dest)
    (simp add: atomic_write_def create_temporary_file_def numeral_eq_Suc Let_def sbind_def syscall_simps next_fault_def
      or_cleanup_def smap_err_def)

subsection \<open>Bundles\<close>

lemma write_file_runs:
  assumes "write_file X J f path d = (r, e)"
  shows "(\<exists>b bs. to_bundle X f = Inr b \<and> js_print J b = Some bs \<and> atomic_write path bs d = (r, e)) \<or>
    e = d \<and> (\<exists>err. r = Inl err)"
  using assms
  by (auto simp: write_file_def sbind_def slift_def ok_or_def split: sum.splits option.splits prod.splits)

lemma read_bundle:
  assumes "path_loc path = Some dest" and "dk_files d dest = Some bs" and "dk_faults d = []"
  shows "bundle_from_file_with_policy X J path passphrase policy d =
    (from_bundle_bytes X J bs passphrase policy, d)"
  using assms
  by (simp add: bundle_from_file_with_policy_def sbind_def smap_err_def syscall_simps next_fault_def slift_def)

text \<open>
  C16. The cache file is never damaged: a capture that was written is read back as the same
  fixture; when writing fails, except for an unsynced directory, reading the path gives what
  reading it before the write gave.
\<close>

theorem bundle_file_roundtrip:
  assumes "capture_ref_from_keys X S B scenario keys w = (Inr f, w')" and "bm_ok keys" and "keyed X keys"
    and "xdr_laws X" and "sha_laws X" and "base64_laws X" and "json_laws J"
    and "cb_max_discovery_rounds B \<le> max_discovery_rounds"
    and "redact_rpc_origin rpc_url = Inr (cb_rpc_origin B)"
    and "pv_ledger_hash (cf_provenance f) \<noteq> []" and "fits_usize (cf_coverage f)"
    and "path_loc path = Some dest" and "write_file X J f path d = (r, e)"
  shows "case r of
      Inr u \<Rightarrow> fst (bundle_from_file_with_policy X J path (cb_network_passphrase B) (cb_protocol_policy B)
        (e\<lparr>dk_faults := []\<rparr>)) = Inr f
    | Inl err \<Rightarrow> err \<noteq> CaptureBundleIo ''sync destination directory'' \<longrightarrow>
        (\<forall>passphrase policy. fst (bundle_from_file_with_policy X J path passphrase policy (e\<lparr>dk_faults := []\<rparr>)) =
          fst (bundle_from_file_with_policy X J path passphrase policy (d\<lparr>dk_faults := []\<rparr>)))"
proof -
  have read: "fst (bundle_from_file_with_policy X J path p q (a\<lparr>dk_faults := []\<rparr>)) =
      fst (bundle_from_file_with_policy X J path p q (b\<lparr>dk_faults := []\<rparr>))"
    if "dk_files a dest = dk_files b dest" for a b p q
    using that assms(12)
    by (cases "dk_files b dest")
      (simp_all add: bundle_from_file_with_policy_def sbind_def smap_err_def syscall_simps next_fault_def slift_def)
  from write_file_runs [OF assms(13)] show ?thesis
  proof (elim disjE exE conjE)
    fix b bs
    assume b: "to_bundle X f = Inr b" "js_print J b = Some bs" and run: "atomic_write path bs d = (r, e)"
    note w = atomic_write_spec [OF run assms(12)]
    show ?thesis
    proof (cases r)
      case (Inr u)
      then have "dk_files (e\<lparr>dk_faults := []\<rparr>) dest = Some bs" using w by (simp add: write_result_def)
      from read_bundle [OF assms(12) this] show ?thesis
        using Inr b written_capture_reads [OF assms(1-11)] by simp
    next
      case (Inl err)
      then show ?thesis using w read [of e d] by (auto simp: write_result_def leftover_dest split: if_splits)
    qed
  next
    fix err
    assume "e = d" "r = Inl err"
    then show ?thesis by simp
  qed
qed

subsection \<open>A sample write\<close>

definition sample_path :: fs_path where
  "sample_path = \<lparr> fp_text = ''d/a.json'', fp_parent = Some ''d'', fp_name = Some ''a.json'' \<rparr>"

definition sample_disk :: disk where
  "sample_disk = \<lparr> dk_files = [(''d'', ''a.json'') \<mapsto> [9]], dk_directories = {''d''}, dk_images = [],
     dk_faults = [], dk_process_id = 3, dk_temp_counter = 0 \<rparr>"

lemma sample_path_loc: "path_loc sample_path = Some (''d'', ''a.json'')"
  by (simp add: path_loc_def sample_path_def parent_or_dot_def)

lemma sample_write: "\<exists>e. atomic_write sample_path bs sample_disk = (Inr (), e) \<and> dk_faults e = []"
  by (rule atomic_write_succeeds [OF sample_path_loc]) (simp_all add: sample_disk_def temporary_name_def)

theorem atomic_write_refines_witness:
  "\<exists>e. atomic_write sample_path [1] sample_disk = (Inr (), e) \<and> dk_files e = [(''d'', ''a.json'') \<mapsto> [1]] \<and>
     (\<forall>files\<in>set (dk_images e). files (''d'', ''a.json'') \<in> {Some [9], Some [1]})"
proof -
  obtain e where run: "atomic_write sample_path [1] sample_disk = (Inr (), e)" using sample_write by blast
  from atomic_write_refines [OF run sample_path_loc] show ?thesis
    using run by (auto simp: write_result_def through_def intact_def sample_disk_def)
qed

theorem bundle_file_roundtrip_witness:
  "\<exists>e. write_file sample_X sample_json sample_captured sample_path sample_disk = (Inr (), e) \<and>
     fst (bundle_from_file_with_policy sample_X sample_json sample_path ''net'' Exact (e\<lparr>dk_faults := []\<rparr>)) =
       Inr sample_captured"
proof -
  note facts = sample_captured_run sample_keyed sample_xdr_laws sample_sha_laws sample_base64_laws sample_json_laws
    sample_bundle_premises
  obtain b where "to_bundle sample_X sample_captured = Inr b"
    using written_capture_reads [OF facts] by blast
  then obtain e where run: "write_file sample_X sample_json sample_captured sample_path sample_disk = (Inr (), e)"
    using sample_write [of "[1]"] by (auto simp: write_file_def sbind_def slift_def sample_json_def ok_or_def)
  from bundle_file_roundtrip [OF facts sample_path_loc run] run show ?thesis by auto
qed

end
