(* ===== verification/Auto_Runner.thy ===== *)
theory Auto_Runner
  imports Bundle_File
begin

text \<open>
  One-scenario automatic capture and replay: \<open>AutoRunner\<close> of \<open>src/auto.rs\<close>. A run works on the
  disk and on the network side (limiter, RPC server and clock); an offline run has only the
  disk. The test-only capture source is left out: the source is the RPC URL.
\<close>

datatype auto_run_error = Auto_Capture capture_error | Offline_Cache_Missing fs_path

datatype cache_status = Cache_Disabled | Cache_Hit | Cache_Created | Cache_Refreshed

record auto_run =
  rn_fixture :: captured_fixture
  rn_cache_status :: cache_status

record auto_runner =
  ar_rpc_url :: string
  ar_network_passphrase :: string
  ar_rpc_rate_limit :: u32
  ar_protocol_policy :: protocol_policy
  ar_cache :: "fs_path option"
  ar_offline :: bool
  ar_refresh :: bool

definition with_rpc_url :: "string \<Rightarrow> string \<Rightarrow> auto_runner" where
  "with_rpc_url rpc_url network_passphrase =
     \<lparr> ar_rpc_url = rpc_url, ar_network_passphrase = network_passphrase, ar_rpc_rate_limit = 0,
       ar_protocol_policy = Exact, ar_cache = None, ar_offline = False, ar_refresh = False \<rparr>"

definition runner_rpc_url :: "string \<Rightarrow> auto_runner \<Rightarrow> auto_runner" where
  "runner_rpc_url url R = R\<lparr>ar_rpc_url := url\<rparr>"

definition runner_rpc_rate_limit :: "u32 \<Rightarrow> auto_runner \<Rightarrow> auto_runner" where
  "runner_rpc_rate_limit max_requests_per_second R = R\<lparr>ar_rpc_rate_limit := max_requests_per_second\<rparr>"

definition runner_allow_newer_protocol :: "auto_runner \<Rightarrow> auto_runner" where
  "runner_allow_newer_protocol R = R\<lparr>ar_protocol_policy := AllowNewer\<rparr>"

definition runner_cache :: "fs_path \<Rightarrow> auto_runner \<Rightarrow> auto_runner" where
  "runner_cache path R = R\<lparr>ar_cache := Some path\<rparr>"

definition runner_offline :: "auto_runner \<Rightarrow> auto_runner" where
  "runner_offline R = R\<lparr>ar_offline := True\<rparr>"

definition runner_refresh :: "auto_runner \<Rightarrow> auto_runner" where
  "runner_refresh R = R\<lparr>ar_refresh := True\<rparr>"

text \<open>The parts of the state an operation works on.\<close>

definition on_disk :: "(disk, 'e, 'a) act \<Rightarrow> (disk \<times> 'n, 'e, 'a) act" where
  "on_disk m = (\<lambda>(d, n). case m d of (r, d') \<Rightarrow> (r, (d', n)))"

definition on_network :: "('n, 'e, 'a) act \<Rightarrow> (disk \<times> 'n, 'e, 'a) act" where
  "on_network m = (\<lambda>(d, n). case m n of (r, n') \<Rightarrow> (r, (d, n')))"

definition auto_error :: "capture_error \<Rightarrow> auto_run_error fault" where
  "auto_error e = Error (Auto_Capture e)"

type_synonym 'env scenario = "'env \<Rightarrow> unit outcome script"

definition replay_cached ::
  "externals \<Rightarrow> 'env sdk \<Rightarrow> captured_fixture \<Rightarrow> 'env scenario \<Rightarrow> capture_error fault + unit" where
  "replay_cached X S f scenario = replay_with_local X S f scenario"

definition path_exists :: "fs_path option \<Rightarrow> (disk, 'e, bool) act" where
  "path_exists path d =
     (case path of None \<Rightarrow> (Inr False, d) | Some p \<Rightarrow> (case fs_exists p d of (b, d1) \<Rightarrow> (Inr b, d1)))"

subsection \<open>Offline runs\<close>

definition run_offline ::
  "externals \<Rightarrow> 'env sdk \<Rightarrow> json_codec \<Rightarrow> auto_runner \<Rightarrow> 'env scenario
    \<Rightarrow> (disk, auto_run_error fault, auto_run) act" where
  "run_offline X S J R scenario =
     (case if ar_refresh R then None else ar_cache R of
        Some path \<Rightarrow>
          sbind (path_exists (Some path)) (\<lambda>present.
            if present then
              sbind (smap_err auto_error
                (bundle_from_file_with_policy X J path (ar_network_passphrase R) (ar_protocol_policy R))) (\<lambda>cached.
              sbind (smap_err (map_fault Auto_Capture) (slift (replay_cached X S cached scenario))) (\<lambda>_.
                sret \<lparr> rn_fixture = cached, rn_cache_status = Cache_Hit \<rparr>))
            else sfail (Error (Offline_Cache_Missing path)))
      | None \<Rightarrow> sfail (Error (Offline_Cache_Missing (case ar_cache R of
          Some path \<Rightarrow> path | None \<Rightarrow> \<lparr> fp_text = [], fp_parent = None, fp_name = None \<rparr>))))"

subsection \<open>Online runs\<close>

text \<open>What \<open>run_online\<close> has before the final replay: a cached fixture that was replayed already, or a capture.\<close>

datatype obtained = Replayed captured_fixture | Captured captured_fixture

definition capture_cold ::
  "externals \<Rightarrow> 'env sdk \<Rightarrow> 'n capture_builder \<Rightarrow> 'env scenario \<Rightarrow> (disk \<times> 'n, auto_run_error fault, obtained) act" where
  "capture_cold X S B scenario =
     sbind (on_network (smap_err (map_fault Auto_Capture) (capture X S B scenario))) (\<lambda>f. sret (Captured f))"

definition capture_again ::
  "externals \<Rightarrow> 'env sdk \<Rightarrow> 'n capture_builder \<Rightarrow> captured_fixture \<Rightarrow> 'env scenario
    \<Rightarrow> (disk \<times> 'n, auto_run_error fault, obtained) act" where
  "capture_again X S B cached scenario =
     sbind (on_network (smap_err (map_fault Auto_Capture) (capture_with_inventory X S B cached scenario)))
       (\<lambda>f. sret (Captured f))"

definition is_unknown_keys :: "capture_error fault \<Rightarrow> bool" where
  "is_unknown_keys e = (case e of Error (UnknownLedgerKeys n) \<Rightarrow> True | _ \<Rightarrow> False)"

definition capture_warm ::
  "externals \<Rightarrow> 'env sdk \<Rightarrow> json_codec \<Rightarrow> auto_runner \<Rightarrow> 'n capture_builder \<Rightarrow> 'env scenario \<Rightarrow> fs_path
    \<Rightarrow> (disk \<times> 'n, auto_run_error fault, obtained) act" where
  "capture_warm X S J R B scenario path =
     sbind (on_disk (smap_err auto_error
       (bundle_from_file_with_policy X J path (ar_network_passphrase R) (ar_protocol_policy R)))) (\<lambda>cached.
     sbind (on_network (smap_err auto_error (cached_anchor_is_current X B cached))) (\<lambda>current.
       if current then
         (case replay_cached X S cached scenario of
            Inr _ \<Rightarrow> sret (Replayed cached)
          | Inl e \<Rightarrow> if is_unknown_keys e then capture_again X S B cached scenario
              else sfail (map_fault Auto_Capture e))
       else capture_again X S B cached scenario))"

definition obtain_capture ::
  "externals \<Rightarrow> 'env sdk \<Rightarrow> json_codec \<Rightarrow> auto_runner \<Rightarrow> 'n capture_builder \<Rightarrow> 'env scenario
    \<Rightarrow> (disk \<times> 'n, auto_run_error fault, obtained) act" where
  "obtain_capture X S J R B scenario =
     (case if ar_refresh R then None else ar_cache R of
        Some path \<Rightarrow>
          sbind (on_disk (path_exists (Some path))) (\<lambda>present.
            if present then capture_warm X S J R B scenario path else capture_cold X S B scenario)
      | None \<Rightarrow> capture_cold X S B scenario)"

definition store_capture ::
  "externals \<Rightarrow> json_codec \<Rightarrow> auto_runner \<Rightarrow> bool \<Rightarrow> captured_fixture \<Rightarrow> (disk, capture_error, cache_status) act" where
  "store_capture X J R cache_existed captured =
     (case ar_cache R of
        Some path \<Rightarrow>
          sbind (case fp_parent path of
              Some parent \<Rightarrow> if parent = [] then sret ()
                else smap_err (\<lambda>source. CaptureBundleIo ''create-cache-directory'') (fs_create_dir_all parent)
            | None \<Rightarrow> sret ()) (\<lambda>_.
          sbind (write_file X J captured path) (\<lambda>_.
            sret (if cache_existed then Cache_Refreshed else Cache_Created)))
      | None \<Rightarrow> sret Cache_Disabled)"

definition finish_run ::
  "externals \<Rightarrow> 'env sdk \<Rightarrow> json_codec \<Rightarrow> auto_runner \<Rightarrow> bool \<Rightarrow> 'env scenario \<Rightarrow> obtained
    \<Rightarrow> (disk \<times> 'n, auto_run_error fault, auto_run) act" where
  "finish_run X S J R cache_existed scenario got =
     (case got of
        Replayed cached \<Rightarrow> sret \<lparr> rn_fixture = cached, rn_cache_status = Cache_Hit \<rparr>
      | Captured captured \<Rightarrow>
          sbind (smap_err (map_fault Auto_Capture) (slift (replay_cached X S captured scenario))) (\<lambda>_.
          sbind (on_disk (smap_err auto_error (store_capture X J R cache_existed captured))) (\<lambda>status.
            sret \<lparr> rn_fixture = captured, rn_cache_status = status \<rparr>)))"

definition run_online ::
  "externals \<Rightarrow> 'env sdk \<Rightarrow> json_codec \<Rightarrow> auto_runner \<Rightarrow> 'n capture_builder \<Rightarrow> 'env scenario
    \<Rightarrow> (disk \<times> 'n, auto_run_error fault, auto_run) act" where
  "run_online X S J R B scenario =
     sbind (on_disk (path_exists (ar_cache R))) (\<lambda>cache_existed.
     sbind (obtain_capture X S J R B scenario) (\<lambda>got. finish_run X S J R cache_existed scenario got))"

definition runner_run ::
  "externals \<Rightarrow> 'env sdk \<Rightarrow> json_codec \<Rightarrow> ('w, 'resp) http_env \<Rightarrow> auto_runner \<Rightarrow> 'env scenario
    \<Rightarrow> (disk \<times> 'w, auto_run_error fault, auto_run) act" where
  "runner_run X S J H R scenario = (\<lambda>(d, w).
     if ar_offline R then on_disk (run_offline X S J R scenario) (d, w)
     else
       case builder_rpc X H (ar_rpc_url R) (ar_network_passphrase R) of
         Inl e \<Rightarrow> (Inl (auto_error e), (d, w))
       | Inr (builder, limiter) \<Rightarrow>
           (case run_online X S J R
                (if ar_protocol_policy R = AllowNewer then allow_newer_protocol builder else builder) scenario
                (d, (set_requests_per_second (ar_rpc_rate_limit R) limiter, w)) of
              (r, (d', (limiter', w'))) \<Rightarrow> (r, (d', w'))))"

subsection \<open>Effects on the parts\<close>

lemma on_disk_run [simp]:
  "on_disk m (d, n) = (r, (d', n')) \<longleftrightarrow> m d = (r, d') \<and> n' = n"
  by (auto simp: on_disk_def split: prod.splits)

lemma on_network_run [simp]:
  "on_network m (d, n) = (r, (d', n')) \<longleftrightarrow> m n = (r, n') \<and> d' = d"
  by (auto simp: on_network_def split: prod.splits)

lemma path_exists_files:
  "path_exists path d = (r, d') \<Longrightarrow> dk_files d' = dk_files d"
  by (auto simp: path_exists_def fs_exists_def split: option.splits prod.splits)

lemma bundle_from_file_files:
  "bundle_from_file_with_policy X J path passphrase policy d = (r, d') \<Longrightarrow> dk_files d' = dk_files d"
  by (auto simp: bundle_from_file_with_policy_def sbind_def smap_err_def syscall_simps slift_def sfail_def
      split: option.splits prod.splits sum.splits)

lemma fs_read_Inr: "fs_read loc d = (Inr bs, e) \<Longrightarrow> dk_files d loc = Some bs"
  by (auto simp: syscall_simps split: option.splits prod.splits if_splits)

lemma bundle_from_file_Inr:
  assumes "bundle_from_file_with_policy X J path passphrase policy d = (Inr f, d')"
  obtains dest bs where "path_loc path = Some dest" "dk_files d dest = Some bs"
    "from_bundle_bytes X J bs passphrase policy = Inr f"
proof (cases "path_loc path")
  case (Some dest)
  then obtain bs d1 where "fs_read dest d = (Inr bs, d1)" "from_bundle_bytes X J bs passphrase policy = Inr f"
    using assms by (auto simp: bundle_from_file_with_policy_def)
  then show thesis using that Some fs_read_Inr by blast
qed (use assms in \<open>simp add: bundle_from_file_with_policy_def\<close>)

lemma inventory_keys_keyed:
  assumes "inventory_keys X f = Inr keys"
  shows "bm_ok keys \<and> keyed X keys"
proof -
  obtain kvs where kvs: "keys = bm_of_list kvs" and ids: "\<forall>(i, key)\<in>set kvs. key_to_xdr X key = Some i"
  proof -
    have "\<forall>(i, key)\<in>set kvs. key_to_xdr X key = Some i"
      if "try_map (\<lambda>(i, state).
         and_then (ok_or MalformedCaptureBundle (key_from_xdr X i)) (\<lambda>key.
         and_then (key_id X key) (\<lambda>derived.
           if derived \<noteq> i \<or> is_state_archival_key key then Inl MalformedCaptureBundle
           else Inr (i, key)))) cov = Inr kvs" for cov kvs
      using that by (induction cov arbitrary: kvs) (auto split: if_splits)
    moreover obtain kvs where "keys = bm_of_list kvs" "try_map (\<lambda>(i, state).
         and_then (ok_or MalformedCaptureBundle (key_from_xdr X i)) (\<lambda>key.
         and_then (key_id X key) (\<lambda>derived.
           if derived \<noteq> i \<or> is_state_archival_key key then Inl MalformedCaptureBundle
           else Inr (i, key)))) (cf_coverage f) = Inr kvs"
      using assms unfolding inventory_keys_def and_then_Inr by auto
    ultimately show thesis using that by blast
  qed
  have "key_to_xdr X key = Some i" if "(i, key) \<in> set keys" for i key
  proof -
    have "bm_get keys i = Some key" using that bm_of_list_ok by (simp add: kvs bm_get_mem)
    then have "(i, key) \<in> set (rev kvs)" unfolding kvs bm_of_list_get by (rule map_of_SomeD)
    then show ?thesis using ids by auto
  qed
  then show ?thesis using bm_of_list_ok by (auto simp: kvs keyed_def list_all_iff)
qed

text \<open>A cached file that was replayed, or the result of a capture on this builder.\<close>

definition obtained_ok ::
  "externals \<Rightarrow> 'env sdk \<Rightarrow> json_codec \<Rightarrow> auto_runner \<Rightarrow> 'n capture_builder \<Rightarrow> 'env scenario \<Rightarrow> disk_image
    \<Rightarrow> obtained \<Rightarrow> bool" where
  "obtained_ok X S J R B scenario files got \<longleftrightarrow>
     (case got of
        Replayed f \<Rightarrow> replay_cached X S f scenario = Inr () \<and>
          (\<exists>path dest bs. ar_cache R = Some path \<and> path_loc path = Some dest \<and> files dest = Some bs \<and>
            from_bundle_bytes X J bs (ar_network_passphrase R) (ar_protocol_policy R) = Inr f)
      | Captured f \<Rightarrow> \<exists>keys w w'. bm_ok keys \<and> keyed X keys \<and>
          capture_ref_from_keys X S B scenario keys w = (Inr f, w'))"

lemma obtained_Captured:
  "bm_ok keys \<Longrightarrow> keyed X keys \<Longrightarrow> capture_ref_from_keys X S B scenario keys w = (Inr f, w') \<Longrightarrow>
     obtained_ok X S J R B scenario files (Captured f)"
  by (auto simp: obtained_ok_def)

lemma capture_cold_ok:
  assumes "capture_cold X S B scenario (d, n) = (r, (d', n'))"
  shows "d' = d \<and> (\<forall>got. r = Inr got \<longrightarrow> obtained_ok X S J R B scenario (dk_files d) got)"
proof -
  obtain x n1 where x: "capture X S B scenario n = (x, n1)" by fastforce
  have "keyed X []" by (simp add: keyed_def)
  then show ?thesis
    using assms x
    by (cases x) (auto simp: capture_cold_def sbind_def smap_err_def on_network_def capture_def sret_def map_err_def
        intro: obtained_Captured [of "[]"])
qed

lemma capture_again_ok:
  assumes "capture_again X S B cached scenario (d, n) = (r, (d', n'))"
  shows "d' = d \<and> (\<forall>got. r = Inr got \<longrightarrow> obtained_ok X S J R B scenario (dk_files d) got)"
proof -
  obtain x n1 where x: "capture_with_inventory X S B cached scenario n = (x, n1)" by fastforce
  show ?thesis
    using assms x inventory_keys_keyed [of X cached]
    by (cases x) (auto simp: capture_again_def sbind_def smap_err_def on_network_def capture_with_inventory_def
        sret_def map_err_def slift_def intro: obtained_Captured split: sum.splits prod.splits)
qed

lemma capture_warm_ok:
  assumes "capture_warm X S J R B scenario path (d, n) = (r, (d', n'))" and "ar_cache R = Some path"
  shows "dk_files d' = dk_files d \<and>
    (\<forall>got. r = Inr got \<longrightarrow> obtained_ok X S J R B scenario (dk_files d) got)"
proof -
  obtain x d1 where read: "bundle_from_file_with_policy X J path (ar_network_passphrase R) (ar_protocol_policy R) d = (x, d1)"
    by fastforce
  have d1: "dk_files d1 = dk_files d" using read by (rule bundle_from_file_files)
  show ?thesis
  proof (cases x)
    case (Inl e)
    then show ?thesis using assms(1) read d1
      by (auto simp: capture_warm_def sbind_def smap_err_def on_disk_def map_err_def)
  next
    case x: (Inr cached)
    obtain dest bs where cache: "path_loc path = Some dest" "dk_files d dest = Some bs"
        "from_bundle_bytes X J bs (ar_network_passphrase R) (ar_protocol_policy R) = Inr cached"
      using read unfolding x by (rule bundle_from_file_Inr)
    obtain current n1 where anchor: "cached_anchor_is_current X B cached n = (current, n1)" by fastforce
    have hit: "obtained_ok X S J R B scenario (dk_files d) (Replayed cached)"
      if "replay_cached X S cached scenario = Inr ()"
      using that cache assms(2) unfolding obtained_ok_def obtained.case by blast
    show ?thesis
    proof (cases current)
      case (Inl e)
      then show ?thesis using assms(1) read x anchor d1
        by (auto simp: capture_warm_def sbind_def smap_err_def on_disk_def on_network_def map_err_def)
    next
      case (Inr c)
      then have "(if c then
         (case replay_cached X S cached scenario of
            Inr _ \<Rightarrow> sret (Replayed cached)
          | Inl e \<Rightarrow> if is_unknown_keys e then capture_again X S B cached scenario
              else sfail (map_fault Auto_Capture e))
         else capture_again X S B cached scenario) (d1, n1) = (r, (d', n'))"
        using assms(1) read x anchor
        by (simp add: capture_warm_def sbind_def smap_err_def on_disk_def on_network_def)
      then show ?thesis
        using capture_again_ok [of X S B cached scenario d1 n1 r d' n' J R] hit d1
        by (auto split: if_splits sum.splits)
    qed
  qed
qed

lemma obtain_capture_ok:
  assumes "obtain_capture X S J R B scenario (d, n) = (r, (d', n'))"
  shows "dk_files d' = dk_files d \<and>
    (\<forall>got. r = Inr got \<longrightarrow> obtained_ok X S J R B scenario (dk_files d) got)"
proof (cases "if ar_refresh R then None else ar_cache R")
  case None
  then show ?thesis using assms capture_cold_ok [of X S B scenario d n r d' n' J R] by (simp add: obtain_capture_def)
next
  case (Some path)
  then have path: "ar_cache R = Some path" by (simp split: if_splits)
  obtain present d1 where e: "fs_exists path d = (present, d1)" by fastforce
  then have d1: "dk_files d1 = dk_files d"
    using path_exists_files [of "Some path" d "Inr present" d1] by (simp add: path_exists_def)
  have "(if present then capture_warm X S J R B scenario path else capture_cold X S B scenario) (d1, n) = (r, (d', n'))"
    using assms Some e by (simp add: obtain_capture_def sbind_def on_disk_def path_exists_def)
  then show ?thesis
    using capture_warm_ok [OF _ path, of X S J B scenario d1 n r d' n'] capture_cold_ok [of X S B scenario d1 n r d' n' J R] d1
    by (auto split: if_splits)
qed

subsection \<open>Storing\<close>

lemma store_capture_cases:
  assumes "store_capture X J R existed f d = (r, d')"
  shows "(dk_files d' = dk_files d \<and> ((ar_cache R = None \<and> r = Inr Cache_Disabled) \<or> (\<exists>e. r = Inl e))) \<or>
    (\<exists>path d1 r1. ar_cache R = Some path \<and> dk_files d1 = dk_files d \<and> write_file X J f path d1 = (r1, d') \<and>
       ((r1 = Inr () \<and> r = Inr (if existed then Cache_Refreshed else Cache_Created)) \<or> (\<exists>e. r1 = Inl e \<and> r = Inl e)))"
proof (cases "ar_cache R")
  case None
  then show ?thesis using assms by (auto simp: store_capture_def)
next
  case (Some path)
  let ?prepare = "(case fp_parent path of
      Some parent \<Rightarrow> if parent = [] then sret ()
        else smap_err (\<lambda>source. CaptureBundleIo ''create-cache-directory'') (fs_create_dir_all parent)
    | None \<Rightarrow> sret ()) :: (disk, capture_error, unit) act"
  obtain x d1 where prep: "?prepare d = (x, d1)" by fastforce
  have d1: "dk_files d1 = dk_files d"
    using prep by (auto simp: smap_err_def syscall_simps split: option.splits if_splits prod.splits)
  show ?thesis
  proof (cases x)
    case (Inl e)
    then show ?thesis using assms prep d1 by (auto simp: store_capture_def Some sbind_def)
  next
    case (Inr u)
    obtain r1 d2 where "write_file X J f path d1 = (r1, d2)" by fastforce
    then show ?thesis
      using assms prep d1 Inr
      by (cases r1) (auto simp: store_capture_def Some sbind_def sret_def)
  qed
qed

text \<open>What a write leaves at the destination of the cache.\<close>

lemma write_file_dest:
  assumes "write_file X J f path d = (r, d')" and "path_loc path = Some dest"
  shows "dk_files d' dest = dk_files d dest \<and> (\<exists>e. r = Inl e) \<or>
    (\<exists>b bs. to_bundle X f = Inr b \<and> js_print J b = Some bs \<and> dk_files d' dest = Some bs \<and>
       (r = Inr () \<or> r = Inl (CaptureBundleIo ''sync destination directory'')))"
  using write_file_runs [OF assms(1)]
proof (elim disjE exE conjE)
  fix b bs
  assume b: "to_bundle X f = Inr b" "js_print J b = Some bs" and "atomic_write path bs d = (r, d')"
  then have "write_result (dk_process_id d) (dk_files d) dest bs r (dk_files d')"
    using atomic_write_spec assms(2) by blast
  then show ?thesis using b by (cases r) (auto simp: write_result_def dest: leftover_dest split: if_splits)
qed simp

subsection \<open>Runs\<close>

lemma run_online_cases:
  assumes "run_online X S J R B scenario (d, n) = (r, (d', n'))"
  obtains (failed) e where "dk_files d' = dk_files d" "r = Inl e"
  | (hit) f where "dk_files d' = dk_files d" "r = Inr \<lparr> rn_fixture = f, rn_cache_status = Cache_Hit \<rparr>"
      "obtained_ok X S J R B scenario (dk_files d) (Replayed f)"
  | (captured) f d1 existed s where "dk_files d1 = dk_files d" "obtained_ok X S J R B scenario (dk_files d) (Captured f)"
      "replay_cached X S f scenario = Inr ()" "store_capture X J R existed f d1 = (s, d')"
      "r = (case s of Inr status \<Rightarrow> Inr \<lparr> rn_fixture = f, rn_cache_status = status \<rparr> | Inl e \<Rightarrow> Inl (auto_error e))"
proof -
  obtain x d1 where ex: "path_exists (ar_cache R) d = (x :: auto_run_error fault + bool, d1)" by fastforce
  then have d1: "dk_files d1 = dk_files d" by (rule path_exists_files)
  obtain existed where x: "x = Inr existed" using ex by (auto simp: path_exists_def split: option.splits prod.splits)
  obtain got d2 n2 where got: "obtain_capture X S J R B scenario (d1, n) = (got, (d2, n2))" by (metis prod_cases3)
  note o = obtain_capture_ok [OF got]
  have rest: "(case got of Inl e \<Rightarrow> (Inl e, (d2, n2)) | Inr g \<Rightarrow> finish_run X S J R existed scenario g (d2, n2)) = (r, (d', n'))"
    using assms ex x got by (simp add: run_online_def sbind_def on_disk_def split: sum.splits)
  show thesis
  proof (cases got)
    case (Inl e)
    then show thesis using rest failed [of e] o d1 by simp
  next
    case g: (Inr g)
    show thesis
    proof (cases g)
      case (Replayed f)
      then show thesis using rest hit [of f] o d1 g by (simp add: finish_run_def sret_def)
    next
      case c: (Captured f)
      obtain s d3 where st: "store_capture X J R existed f d2 = (s, d3)" by fastforce
      show thesis
      proof (cases "replay_cached X S f scenario")
        case (Inl e)
        then show thesis using rest failed o d1 g c
          by (auto simp: finish_run_def sbind_def smap_err_def slift_def map_err_def)
      next
        case (Inr u)
        then show thesis using rest captured [of d2 f existed s] o d1 g c st
          by (cases s) (simp_all add: finish_run_def sbind_def smap_err_def slift_def map_err_def on_disk_def sret_def)
      qed
    qed
  qed
qed

lemma run_offline_cases:
  assumes "run_offline X S J R scenario d = (r, d')"
  obtains (failed) e where "dk_files d' = dk_files d" "r = Inl e"
  | (hit) f path dest bs where "dk_files d' = dk_files d" "r = Inr \<lparr> rn_fixture = f, rn_cache_status = Cache_Hit \<rparr>"
      "replay_cached X S f scenario = Inr ()" "ar_cache R = Some path" "path_loc path = Some dest"
      "dk_files d dest = Some bs" "from_bundle_bytes X J bs (ar_network_passphrase R) (ar_protocol_policy R) = Inr f"
proof (cases "if ar_refresh R then None else ar_cache R")
  case None
  then show thesis using assms failed by (simp add: run_offline_def split: option.splits)
next
  case (Some path)
  then have path: "ar_cache R = Some path" by (simp split: if_splits)
  obtain present d1 where "fs_exists path d = (present, d1)" by fastforce
  then have ex: "path_exists (Some path) d = (Inr present :: auto_run_error fault + bool, d1)"
    by (simp add: path_exists_def)
  then have d1: "dk_files d1 = dk_files d" by (rule path_exists_files)
  obtain x d2 where read: "bundle_from_file_with_policy X J path (ar_network_passphrase R) (ar_protocol_policy R) d1 = (x, d2)"
    by fastforce
  have d2: "dk_files d2 = dk_files d1" using read by (rule bundle_from_file_files)
  show thesis
  proof (cases "present \<and> (\<exists>f. x = Inr f \<and> replay_cached X S f scenario = Inr ())")
    case True
    then obtain f where f: "present" "x = Inr f" "replay_cached X S f scenario = Inr ()" by blast
    obtain dest bs where "path_loc path = Some dest" "dk_files d1 dest = Some bs"
        "from_bundle_bytes X J bs (ar_network_passphrase R) (ar_protocol_policy R) = Inr f"
      using read unfolding f(2) by (rule bundle_from_file_Inr)
    then show thesis
      using assms hit [of f path dest bs] Some path ex read f d1 d2
      by (simp add: run_offline_def sbind_def smap_err_def slift_def sret_def)
  next
    case False
    then show thesis
      using assms failed Some ex read d1 d2
      by (auto simp: run_offline_def sbind_def smap_err_def slift_def map_err_def sret_def split: sum.splits if_splits)
  qed
qed

subsection \<open>Properties\<close>

text \<open>The run of either kind, on its builder.\<close>

lemma auto_run_cases:
  assumes "runner_run X S J H R scenario (d, w) = (r, (d', w'))"
  obtains (invalid) e where "r = Inl e" "d' = d" "\<not> ar_offline R"
  | (offline) "ar_offline R" "run_offline X S J R scenario d = (r, d')" "w' = w"
  | (online) B l l' where "\<not> ar_offline R" "run_online X S J R B scenario (d, (l, w)) = (r, (d', (l', w')))"
      "cb_network_passphrase B = ar_network_passphrase R" "cb_protocol_policy B = ar_protocol_policy R"
      "cb_transport B = http_transport X H" "redact_rpc_origin (ar_rpc_url R) = Inr (cb_rpc_origin B)"
      "cb_max_discovery_rounds B = max_discovery_rounds"
proof (cases "ar_offline R")
  case True
  then show thesis using assms offline by (simp add: runner_run_def)
next
  case False
  show thesis
  proof (cases "builder_rpc X H (ar_rpc_url R) (ar_network_passphrase R)")
    case (Inl e)
    then show thesis using assms invalid False by (auto simp: runner_run_def)
  next
    case (Inr p)
    obtain B0 l where p: "p = (B0, l)" by (cases p)
    let ?B = "if ar_protocol_policy R = AllowNewer then allow_newer_protocol B0 else B0"
    have B0: "cb_network_passphrase B0 = ar_network_passphrase R" "cb_protocol_policy B0 = Exact"
        "cb_transport B0 = http_transport X H" "redact_rpc_origin (ar_rpc_url R) = Inr (cb_rpc_origin B0)"
        "cb_max_discovery_rounds B0 = max_discovery_rounds"
      using Inr by (auto simp: builder_rpc_def p)
    have B: "cb_network_passphrase ?B = ar_network_passphrase R" "cb_protocol_policy ?B = ar_protocol_policy R"
        "cb_transport ?B = http_transport X H" "redact_rpc_origin (ar_rpc_url R) = Inr (cb_rpc_origin ?B)"
        "cb_max_discovery_rounds ?B = max_discovery_rounds"
      using B0 by (cases "ar_protocol_policy R"; simp add: allow_newer_protocol_def)+
    obtain l' where "run_online X S J R ?B scenario (d, (set_requests_per_second (ar_rpc_rate_limit R) l, w)) = (r, (d', (l', w')))"
      using assms False Inr by (auto simp: runner_run_def p split: prod.splits)
    then show thesis by (rule online [OF False _ B])
  qed
qed

text \<open>
  C11. Every successful automatic run rests on strict replay: its fixture replays the scenario
  offline without an unknown key. An offline run and a cache hit leave the files as they are,
  and an offline run uses nothing of the network.
\<close>

theorem auto_run_replayed:
  assumes "runner_run X S J H R scenario (d, w) = (Inr run, (d', w'))"
  shows "replay_with_local X S (rn_fixture run) scenario = Inr () \<and>
    (ar_offline R \<longrightarrow> w' = w \<and> rn_cache_status run = Cache_Hit) \<and>
    (rn_cache_status run \<in> {Cache_Hit, Cache_Disabled} \<longrightarrow> dk_files d' = dk_files d)"
  using assms
proof (cases rule: auto_run_cases)
  case (online B l l')
  from online(2) show ?thesis
  proof (cases rule: run_online_cases)
    case (captured f d1 existed s)
    then show ?thesis
      using online(1) store_capture_cases [OF captured(4)]
      by (cases s) (auto simp: replay_cached_def split: if_splits sum.splits)
  qed (auto simp: online(1) replay_cached_def obtained_ok_def)
next
  case offline
  from offline(2) show ?thesis
    by (cases rule: run_offline_cases) (auto simp: offline replay_cached_def)
qed simp

text \<open>
  C12. The cache changes only after strict replay: an online run that leaves other contents at
  the cache path has replayed the fixture those contents print, and ends with it, or with the
  error that the directory could not be synced. Every failure before leaves the cache as it was.
\<close>

theorem cache_changes_only_after_replay:
  assumes "run_online X S J R B scenario (d, n) = (r, (d', n'))"
    and "ar_cache R = Some path" and "path_loc path = Some dest"
    and "dk_files d' dest \<noteq> dk_files d dest"
  shows "\<exists>f b bs. replay_with_local X S f scenario = Inr () \<and>
    to_bundle X f = Inr b \<and> js_print J b = Some bs \<and> dk_files d' dest = Some bs \<and>
    ((\<exists>status\<in>{Cache_Created, Cache_Refreshed}. r = Inr \<lparr> rn_fixture = f, rn_cache_status = status \<rparr>) \<or>
     r = Inl (Error (Auto_Capture (CaptureBundleIo ''sync destination directory''))))"
  using assms(1)
proof (cases rule: run_online_cases)
  case (captured f d1 existed s)
  from store_capture_cases [OF captured(4)] assms(2,4) captured(1)
  obtain d2 r1 where "dk_files d2 = dk_files d" "write_file X J f path d2 = (r1, d')"
    and s: "(r1 = Inr () \<and> s = Inr (if existed then Cache_Refreshed else Cache_Created)) \<or>
      (\<exists>e. r1 = Inl e \<and> s = Inl e)"
    by auto
  then obtain b bs where "to_bundle X f = Inr b" "js_print J b = Some bs" "dk_files d' dest = Some bs"
      "r1 = Inr () \<or> r1 = Inl (CaptureBundleIo ''sync destination directory'')"
    using write_file_dest [of X J f path d2 r1 d' dest] assms(3,4) by auto
  then show ?thesis using captured(3,5) s by (auto simp: replay_cached_def auto_error_def)
qed (use assms(4) in auto)

text \<open>An anchor from the HTTP transport has a hash.\<close>

lemma http_anchor_hash:
  assumes "tr_latest_ledger (http_transport X H) w = (Inr anchor, w')" and "sha_laws X"
  shows "an_hash anchor \<noteq> []"
proof -
  obtain wire where "decode_latest X H wire = Inr anchor"
    using assms(1) by (auto simp: http_transport_def http_latest_ledger_def)
  then have "an_hash anchor = hex (sha256 X (the (b64_decode X (lw_header_xdr wire))))"
    by (auto simp: decode_latest_def Let_def split: if_splits)
  moreover have "length (hex (sha256 X bs)) = 64" for bs using assms(2) by (simp add: length_hex sha_laws_def)
  ultimately show ?thesis by (metis list.size(3) zero_neq_numeral)
qed

lemma obtained_readable:
  assumes "obtained_ok X S J R B scenario files (Captured f)"
    and "xdr_laws X" "sha_laws X" "base64_laws X" "json_laws J" and "fits_usize (cf_coverage f)"
    and "cb_transport B = http_transport X H" "redact_rpc_origin (ar_rpc_url R) = Inr (cb_rpc_origin B)"
    and "cb_max_discovery_rounds B = max_discovery_rounds"
    and "to_bundle X f = Inr b" and "js_print J b = Some bs"
  shows "from_bundle_bytes X J bs (cb_network_passphrase B) (cb_protocol_policy B) = Inr f"
proof -
  obtain keys w w' where keys: "bm_ok keys" "keyed X keys"
    and run: "capture_ref_from_keys X S B scenario keys w = (Inr f, w')"
    using assms(1) by (auto simp: obtained_ok_def)
  have "pv_ledger_hash (cf_provenance f) \<noteq> []"
    using capture_gives_ok [OF run keys] http_anchor_hash [OF _ assms(3)] unfolding assms(7) by metis
  with written_capture_reads [OF run keys assms(2-5) _ assms(8) _ assms(6)] show ?thesis
    using assms(9,10,11) by auto
qed

text \<open>With the bundle of \<open>f\<close> at the cache path an offline run replays \<open>f\<close>.\<close>

lemma offline_hit:
  assumes "ar_offline R" and "\<not> ar_refresh R" and "ar_cache R = Some path" and "path_loc path = Some dest"
    and "dk_faults d = []" and "dk_files d dest = Some bs"
    and "from_bundle_bytes X J bs (ar_network_passphrase R) (ar_protocol_policy R) = Inr f"
    and "replay_cached X S f scenario = Inr ()"
  shows "runner_run X S J H R scenario (d, w) = (Inr \<lparr> rn_fixture = f, rn_cache_status = Cache_Hit \<rparr>, (d, w))"
proof -
  have "fs_exists path d = (True, d)" using assms(4-6) by (simp add: fs_exists_def next_fault_def)
  then show ?thesis
    using assms read_bundle [OF assms(4,6,5)]
    by (simp add: runner_run_def on_disk_def run_offline_def path_exists_def sbind_def smap_err_def slift_def sret_def)
qed

text \<open>
  C13. A run can be repeated offline: after a successful run with a cache, on a disk without
  further faults, an offline run of the same scenario finds the cache and ends with the same
  fixture, whatever the network is, and changes neither disk nor network.
\<close>

theorem cached_run_repeats_offline:
  assumes "runner_run X S J H R scenario (d, w) = (Inr run, (d', w'))"
    and "ar_cache R = Some path" and "path_loc path = Some dest" and "dk_faults d' = []"
    and "xdr_laws X" and "sha_laws X" and "base64_laws X" and "json_laws J"
    and "fits_usize (cf_coverage (rn_fixture run))"
  shows "runner_run X S J H' (runner_offline R\<lparr>ar_refresh := False\<rparr>) scenario (d', v) =
    (Inr \<lparr> rn_fixture = rn_fixture run, rn_cache_status = Cache_Hit \<rparr>, (d', v))"
proof -
  let ?R = "runner_offline R\<lparr>ar_refresh := False\<rparr>"
  have R: "ar_offline ?R" "\<not> ar_refresh ?R" "ar_cache ?R = Some path"
      "ar_network_passphrase ?R = ar_network_passphrase R" "ar_protocol_policy ?R = ar_protocol_policy R"
    using assms(2) by (simp_all add: runner_offline_def)
  have "\<exists>bs. dk_files d' dest = Some bs \<and> replay_cached X S (rn_fixture run) scenario = Inr () \<and>
      from_bundle_bytes X J bs (ar_network_passphrase R) (ar_protocol_policy R) = Inr (rn_fixture run)"
    using assms(1)
  proof (cases rule: auto_run_cases)
    case offline
    from offline(2) show ?thesis by (cases rule: run_offline_cases) (use assms(2,3) in auto)
  next
    case (online B l l')
    from online(2) show ?thesis
    proof (cases rule: run_online_cases)
      case (hit f)
      then show ?thesis using assms(2,3) by (auto simp: obtained_ok_def)
    next
      case (captured f d1 existed s)
      then obtain status where s: "s = Inr status" "rn_fixture run = f" by (auto split: sum.splits)
      from store_capture_cases [OF captured(4)] assms(2) s(1)
      obtain d2 where "write_file X J f path d2 = (Inr (), d')" by (auto split: sum.splits)
      then obtain b bs where b: "to_bundle X f = Inr b" "js_print J b = Some bs" "dk_files d' dest = Some bs"
        using write_file_dest [OF _ assms(3)] by blast
      have "from_bundle_bytes X J bs (cb_network_passphrase B) (cb_protocol_policy B) = Inr f"
        using obtained_readable [OF captured(2) assms(5-8) assms(9) [unfolded s(2)] online(5-7) b(1,2)] .
      then show ?thesis using b(3) captured(3) s(2) online(3,4) by simp
    qed simp
  qed simp
  then obtain bs where bs: "dk_files d' dest = Some bs" "replay_cached X S (rn_fixture run) scenario = Inr ()"
      "from_bundle_bytes X J bs (ar_network_passphrase R) (ar_protocol_policy R) = Inr (rn_fixture run)"
    by blast
  show ?thesis by (rule offline_hit [OF R(1-3) assms(3,4) bs(1) _ bs(2)]) (simp add: R bs(3))
qed

end
