(* ===== verification/Sample_Auto.thy ===== *)
theory Sample_Auto
  imports Auto_Runner
begin

text \<open>
  Automatic runs on samples: an offline run on the bundle of the sample capture, and an online
  cold run of a scenario that reads nothing. The witnesses of \<open>Auto_Runner\<close> are evaluated here.
\<close>

subsection \<open>A sample run\<close>

text \<open>The sample scenario without its value, and a disk that holds the bundle of its capture.\<close>

definition sample_unit_scenario :: "sdk_snapshot scenario" where
  "sample_unit_scenario env = map_script (\<lambda>out. \<lparr> oc_value = map_option (\<lambda>_. ()) (oc_value out),
     oc_stored = oc_stored out \<rparr>) (sample_scenario env)"

lemma run_tracking_map: "run_tracking X tr (map_script f p) s = map_prod f id (run_tracking X tr p s)"
  by (simp add: run_tracking_def run_map_script)

lemma replay_forgets:
  assumes "replay_with_local X S f scenario = Inr r"
  shows "replay_with_local X S f (\<lambda>env. map_script (\<lambda>out. \<lparr> oc_value = map_option (\<lambda>_. ()) (oc_value out),
      oc_stored = oc_stored out \<rparr>) (scenario env)) = Inr ()"
proof -
  obtain env where env: "env_from_materialized X S (replayed X f) = Inr env"
    using assms by (auto simp: replay_with_local_def Let_def)
  obtain out local s u where run: "run_tracking X None (scenario env) (local_empty,
      tracking_source_new (cf_coverage f) (li_protocol_version (mt_ledger_info (replayed X f))), ()) = (out, (local, s, u))"
    by (metis prod.exhaust)
  show ?thesis
    using assms by (auto simp: replay_with_local_def Let_def env run run_tracking_map split: if_splits)
qed

definition sample_runner :: auto_runner where
  "sample_runner = runner_offline (runner_cache sample_path (with_rpc_url ''https://h'' ''net''))"

definition sample_cache_disk :: disk where
  "sample_cache_disk = sample_disk\<lparr>dk_files := [(''d'', ''a.json'') \<mapsto> [1]]\<rparr>"

lemma sample_bytes_read: "from_bundle_bytes sample_X sample_json [1] ''net'' Exact = Inr sample_captured"
proof -
  note facts = sample_captured_run sample_keyed sample_xdr_laws sample_sha_laws sample_base64_laws sample_json_laws
    sample_bundle_premises
  obtain b where b: "to_bundle sample_X sample_captured = Inr b"
    using written_capture_reads [OF facts] by blast
  then have "js_print sample_json b = Some [1]" by (simp add: sample_json_def)
  with b written_capture_reads [OF facts] show ?thesis by fastforce
qed

lemma sample_replays: "replay_cached sample_X sample_sdk sample_captured sample_unit_scenario = Inr ()"
proof -
  obtain r where "replay_with_local sample_X sample_sdk sample_captured sample_scenario = Inr r"
    using captured_replays [OF sample_xdr_laws sample_ledger_info_laws sample_stores
        sample_captured_run sample_keyed] by blast
  then show ?thesis unfolding replay_cached_def sample_unit_scenario_def by (rule replay_forgets)
qed

lemma sample_auto_run:
  "runner_run sample_X sample_sdk sample_json H sample_runner sample_unit_scenario (sample_cache_disk, w) =
     (Inr \<lparr> rn_fixture = sample_captured, rn_cache_status = Cache_Hit \<rparr>, (sample_cache_disk, w))"
  by (rule offline_hit [OF _ _ _ sample_path_loc])
    (use sample_bytes_read sample_replays in \<open>simp_all add: sample_runner_def runner_offline_def runner_cache_def
      with_rpc_url_def sample_cache_disk_def sample_disk_def\<close>)

theorem auto_run_replayed_witness:
  "\<exists>run d'. runner_run sample_X sample_sdk sample_json undefined sample_runner sample_unit_scenario
      (sample_cache_disk, ()) = (Inr run, (d', ())) \<and>
    replay_with_local sample_X sample_sdk (rn_fixture run) sample_unit_scenario = Inr ()"
  using auto_run_replayed [OF sample_auto_run [of undefined "()"]] sample_auto_run [of undefined "()"] by auto

theorem cached_run_repeats_offline_witness:
  "runner_run sample_X sample_sdk sample_json undefined (runner_offline sample_runner\<lparr>ar_refresh := False\<rparr>)
     sample_unit_scenario (sample_cache_disk, ()) =
   (Inr \<lparr> rn_fixture = sample_captured, rn_cache_status = Cache_Hit \<rparr>, (sample_cache_disk, ()))"
proof -
  have "ar_cache sample_runner = Some sample_path" "dk_faults sample_cache_disk = []"
    by (simp_all add: sample_runner_def runner_offline_def runner_cache_def sample_cache_disk_def sample_disk_def)
  from cached_run_repeats_offline [OF sample_auto_run [of undefined "()"] this(1) sample_path_loc this(2)
      sample_xdr_laws sample_sha_laws sample_base64_laws sample_json_laws, of undefined "()"]
  show ?thesis using sample_bundle_premises(4) by simp
qed

subsection \<open>A sample online run\<close>

text \<open>A scenario that reads nothing, captured cold from the sample server into a fresh cache.\<close>

definition sample_idle :: "sdk_snapshot scenario" where
  "sample_idle env = Done \<lparr> oc_value = Some (), oc_stored = Some [] \<rparr>"

lemma sample_idle_finish: "\<exists>f. finish_capture sample_X sample_builder 1 (sample_materialized []) = Inr f"
proof -
  let ?s = "snapshot_of sample_X (ledger_info_of sample_X ''net'' sample_anchor sample_settings) []"
  have "sn_ledger_entries ?s = []" by (simp add: snapshot_of_def)
  then obtain d where d: "canonical_ledger_digest sample_X ?s = Inr d"
    by (simp add: canonical_ledger_digest_def sorted_entries_Inr)
  have "from_snapshot_with_policy sample_X ?s ''net'' Exact = Inr \<lparr> ff_snapshot = ?s, ff_ledger_digest = d \<rparr>"
    by (simp add: from_snapshot_with_policy_def policy_check_def Let_def d)
      (simp add: snapshot_of_def ledger_info_of_def sample_anchor_def)
  moreover have "snapshot_from_materialized sample_X (sample_materialized []) = Inr ?s"
    by (simp add: snapshot_from_materialized_Inr sample_info)
  moreover have "\<exists>x. inventory_digest sample_X [] = Inr x"
    by (simp add: inventory_digest_def inventory_preimage_Inr)
  ultimately show ?thesis by (auto simp: finish_capture_def sample_info)
qed

lemma sample_idle_capture:
  "\<exists>f. capture sample_X sample_sdk sample_builder sample_idle () = (Inr f, ()) \<and>
     finish_capture sample_X sample_builder 1 (sample_materialized []) = Inr f"
proof -
  obtain f where f: "finish_capture sample_X sample_builder 1 (sample_materialized []) = Inr f"
    using sample_idle_finish ..
  have run: "materialize sample_X sample_builder [] () = (Inr (sample_materialized []), ())"
    by (rule sample_materialize) (simp_all add: keyed_def)
  have mo: "materialized_ok sample_X sample_builder [] (sample_materialized [])"
    using run by (rule materialize_ok) (simp_all add: keyed_def)
  have closed: "ensure_executable_closure_present sample_X [] = Inr ()"
    by (simp add: ensure_executable_closure_Inr)
  have expand: "expand_code_closure sample_X sample_builder [] (sample_materialized []) () =
      (Inr ([], sample_materialized []), ())"
    by (simp add: expand_code_closure_def max_executable_closure_rounds_def numeral_eq_Suc sbind_def slift_def sret_def
        required_keys_def sample_info closed)
  have after: "after_pass sample_X sample_builder 1 [] (sample_materialized []) \<lparr> oc_value = Some (), oc_stored = Some [] \<rparr>
      local_empty (tracking_source_new c k) () = (Inr (Finished f), ())" for c k
    using f by (simp add: after_pass_def take_failure_def tracking_source_new_def with_stored_def)
  have "capture_round sample_X sample_sdk sample_builder sample_idle 1 [] (sample_materialized []) () =
      (Inr (Finished f), ())"
    using after by (simp add: capture_round_def materialized_env [OF mo] run_tracking_def sample_idle_def)
  then have loop: "discovery_loop sample_X sample_sdk sample_builder sample_idle 16 [] (sample_materialized []) () = (Inr f, ())"
    by (simp add: numeral_eq_Suc)
  have net: "validate_network sample_X sample_builder () = (Inr (), ())"
    by (simp add: validate_network_def sample_network_def check_protocol_def policy_check_def)
  show ?thesis
    by (rule exI [of _ f]) (simp add: capture_def capture_ref_from_keys_def net run expand loop f [unfolded One_nat_def])
qed

definition sample_printing :: json_codec where
  "sample_printing = sample_json\<lparr>js_print := (\<lambda>b. Some [7])\<rparr>"

text \<open>
  The idle capture is written over the bundle of the sample by a refreshing run; what the
  witness needs is only that the run ends well with other contents.
\<close>

definition sample_online :: auto_runner where
  "sample_online = runner_refresh (runner_cache sample_path (with_rpc_url ''https://h'' ''net''))"

lemma sample_idle_online:
  "\<exists>f d'. run_online sample_X sample_sdk sample_printing sample_online sample_builder sample_idle (sample_cache_disk, ()) =
     (Inr \<lparr> rn_fixture = f, rn_cache_status = Cache_Refreshed \<rparr>, (d', ())) \<and>
     dk_files d' (''d'', ''a.json'') = Some [7]"
proof -
  obtain f where f: "capture sample_X sample_sdk sample_builder sample_idle () = (Inr f, ())"
    and fin: "finish_capture sample_X sample_builder 1 (sample_materialized []) = Inr f"
    using sample_idle_capture by blast
  have fields: "pv_ledger_hash (cf_provenance f) = ''aa''" "cf_coverage f = []"
    using finish_capture_Inr [OF fin]
    by (simp_all add: sample_info) (metis capture_provenance.select_convs(4) sample_anchor_def anchor.select_convs(2))
  have keyed: "keyed sample_X []" by (simp add: keyed_def)
  note run = f [unfolded capture_def]
  have quiet: "stores_no_settings sample_X sample_idle"
    by (simp add: stores_no_settings_def sample_idle_def)
  have replay: "replay_cached sample_X sample_sdk f sample_idle = Inr ()"
    using captured_replays [OF sample_xdr_laws sample_ledger_info_laws quiet run bm_ok_Nil keyed]
    by (auto simp: replay_cached_def)
  obtain b where b: "to_bundle sample_X f = Inr b"
    using written_capture_reads [OF run bm_ok_Nil keyed sample_xdr_laws sample_sha_laws sample_base64_laws sample_json_laws
        sample_bundle_premises(1,2)] fields by (auto simp: fits_usize_def)
  let ?d = "sample_cache_disk\<lparr>dk_directories := insert ''d'' (dk_directories sample_cache_disk)\<rparr>"
  obtain e where w: "atomic_write sample_path [7] ?d = (Inr (), e)"
    using atomic_write_succeeds [OF sample_path_loc, of ?d "[7]"]
    by (auto simp: sample_cache_disk_def sample_disk_def temporary_name_def)
  have "dk_files e (''d'', ''a.json'') = Some [7]"
    using atomic_write_spec [OF w sample_path_loc] by (simp add: write_result_def)
  moreover have "store_capture sample_X sample_printing sample_online True f sample_cache_disk = (Inr Cache_Refreshed, e)"
  proof -
    have faults: "dk_faults sample_cache_disk = []" by (simp add: sample_cache_disk_def sample_disk_def)
    have dir: "fs_create_dir_all ''d'' sample_cache_disk = (Inr (), ?d)"
      by (simp add: syscall_simps next_fault_def faults)
    have stored: "write_file sample_X sample_printing f sample_path ?d = (Inr (), e)"
      using w b by (simp add: write_file_def sample_printing_def)
    have "ar_cache sample_online = Some sample_path" "fp_parent sample_path = Some ''d''"
      by (simp_all add: sample_online_def runner_refresh_def runner_cache_def sample_path_def)
    then show ?thesis using dir stored by (simp add: store_capture_def)
  qed
  moreover have "fs_exists sample_path sample_cache_disk = (True, sample_cache_disk)"
    by (simp add: fs_exists_def next_fault_def sample_path_loc) (simp add: sample_cache_disk_def sample_disk_def sample_path_loc)
  ultimately show ?thesis
    using f replay
    by (simp add: run_online_def obtain_capture_def capture_cold_def finish_run_def path_exists_def on_disk_def on_network_def
        sample_online_def runner_refresh_def runner_cache_def sbind_def smap_err_def slift_def sret_def)
qed

theorem cache_changes_only_after_replay_witness:
  "\<exists>f b d'. replay_with_local sample_X sample_sdk f sample_idle = Inr () \<and> to_bundle sample_X f = Inr b \<and>
     dk_files sample_cache_disk (''d'', ''a.json'') = Some [1] \<and> dk_files d' (''d'', ''a.json'') = Some [7] \<and>
     run_online sample_X sample_sdk sample_printing sample_online sample_builder sample_idle (sample_cache_disk, ()) =
       (Inr \<lparr> rn_fixture = f, rn_cache_status = Cache_Refreshed \<rparr>, (d', ()))"
proof -
  obtain f d' where run: "run_online sample_X sample_sdk sample_printing sample_online sample_builder sample_idle (sample_cache_disk, ()) =
     (Inr \<lparr> rn_fixture = f, rn_cache_status = Cache_Refreshed \<rparr>, (d', ()))" "dk_files d' (''d'', ''a.json'') = Some [7]"
    using sample_idle_online by blast
  have old: "dk_files sample_cache_disk (''d'', ''a.json'') = Some [1]"
    "ar_cache sample_online = Some sample_path"
    by (simp_all add: sample_cache_disk_def sample_online_def runner_refresh_def runner_cache_def)
  from cache_changes_only_after_replay [OF run(1) old(2) sample_path_loc] run old(1) show ?thesis by auto
qed

end
