(* ===== verification/Scenario_Fork.thy ===== *)
theory Scenario_Fork
  imports Strict_Fork
begin

text \<open>
  One pass of a scenario: \<open>ScenarioFork\<close> of \<open>src/auto.rs\<close>. An operation of a pass runs against
  the environment's snapshot source, so it is a script; it ends with its value, or with \<open>None\<close>
  when it panics, and with the pass as it then is (a closure may catch the panic and go on).
\<close>

subsection \<open>Operations of a pass\<close>

primrec bind_script :: "'o script \<Rightarrow> ('o \<Rightarrow> 'p script) \<Rightarrow> 'p script" where
  "bind_script (Done out) f = f out"
| "bind_script (Get key k) f = Get key (\<lambda>a. bind_script (k a) f)"
| "bind_script (Mark m p) f = Mark m (bind_script p f)"
| "bind_script (Ask k) f = Ask (\<lambda>c. bind_script (k c) f)"

record 'env pass =
  ps_env :: 'env
  ps_local_accounts :: "account_id set"
  ps_tracked :: bool
  ps_network_protocol_version :: u32

type_synonym ('s, 'a) panicking = "'s \<Rightarrow> ('a option \<times> 's) script"
type_synonym ('env, 'a) pass_op = "('env pass, 'a) panicking"

definition pass_return :: "'a \<Rightarrow> ('s, 'a) panicking" where
  "pass_return x p = Done (Some x, p)"

definition panic :: "('s, 'a) panicking" where
  "panic p = Done (None, p)"

definition pass_bind :: "('s, 'a) panicking \<Rightarrow> ('a \<Rightarrow> ('s, 'b) panicking) \<Rightarrow> ('s, 'b) panicking" where
  "pass_bind m f p = bind_script (m p) (\<lambda>(r, q). case r of None \<Rightarrow> Done (None, q) | Some x \<Rightarrow> f x q)"

definition require :: "bool \<Rightarrow> ('s, unit) panicking" where
  "require b = (if b then pass_return () else panic)"

definition expect :: "'a option \<Rightarrow> ('s, 'a) panicking" where
  "expect x = (case x of None \<Rightarrow> panic | Some y \<Rightarrow> pass_return y)"

definition pass_mark :: "local_mark \<Rightarrow> ('env, unit) pass_op" where
  "pass_mark m p = Mark m (Done (Some (), p))"

text \<open>A call of the Host that changes the environment.\<close>

definition pass_host_call :: "('env \<Rightarrow> ('a \<times> 'env) script) \<Rightarrow> ('env, 'a) pass_op" where
  "pass_host_call call p = map_script (\<lambda>(r, env). (Some r, p\<lparr>ps_env := env\<rparr>)) (call (ps_env p))"

subsection \<open>The Host of a pass\<close>

text \<open>
  What the operations call on the environment besides \<open>host\<close>: \<open>with_ledger_info\<close>, the two
  address parsers (\<open>None\<close> when they panic), \<open>get_ledger_entry\<close>, \<open>add_ledger_entry\<close>,
  \<open>Address::generate\<close>, \<open>upload_contract_wasm\<close> and \<open>invoke_contract\<close> (\<open>None\<close> when they panic), the
  resources of the last invocation, and what an environment made from a snapshot reads from it.
\<close>

record ('env, 'r) pass_host =
  ph_host :: "'env host"
  ph_ledger_info :: "'env \<Rightarrow> ledger_info option"
  ph_address_from_str :: "'env \<Rightarrow> string \<Rightarrow> sc_address option"
  ph_muxed_from_str :: "'env \<Rightarrow> string \<Rightarrow> (sc_address \<times> u64 option) option"
  ph_get_entry :: "'env \<Rightarrow> ledger_key \<Rightarrow> ((unit + present_entry option) \<times> 'env) script"
  ph_add_entry :: "'env \<Rightarrow> ledger_key \<Rightarrow> ledger_entry \<Rightarrow> u32 option \<Rightarrow> 'env option"
  ph_generate_address :: "'env \<Rightarrow> sc_address \<times> 'env"
  ph_upload_wasm :: "'env \<Rightarrow> bytes \<Rightarrow> (bytes option \<times> 'env) script"
  ph_invoke_contract :: "'env \<Rightarrow> sc_address \<Rightarrow> string \<Rightarrow> sc_val list \<Rightarrow> (sc_val option \<times> 'env) script"
  ph_last_resources :: "'env \<Rightarrow> 'r option"
  ph_snapshot_get :: "sdk_snapshot \<Rightarrow> ledger_key \<Rightarrow> answer"

definition pass_ledger_info :: "('env, 'r) pass_host \<Rightarrow> ('env, ledger_info) pass_op" where
  "pass_ledger_info P p = expect (ph_ledger_info P (ps_env p)) p"

definition get_ledger_entry :: "('env, 'r) pass_host \<Rightarrow> ledger_key \<Rightarrow> ('env, present_entry option) pass_op" where
  "get_ledger_entry P key =
     pass_bind (pass_host_call (\<lambda>env. ph_get_entry P env key)) (\<lambda>r. case r of Inl _ \<Rightarrow> panic | Inr e \<Rightarrow> pass_return e)"

definition add_ledger_entry ::
  "('env, 'r) pass_host \<Rightarrow> ledger_key \<Rightarrow> ledger_entry \<Rightarrow> u32 option \<Rightarrow> ('env, unit) pass_op" where
  "add_ledger_entry P key entry live_until p =
     (case ph_add_entry P (ps_env p) key entry live_until of
        None \<Rightarrow> panic p
      | Some env \<Rightarrow> pass_return () (p\<lparr>ps_env := env\<rparr>))"

subsection \<open>A pass\<close>

text \<open>The tracking source knows the network's protocol; without one the environment does.\<close>

definition scenario_fork_new ::
  "('env, 'r) pass_host \<Rightarrow> 'env \<Rightarrow> u32 option \<Rightarrow> 'env pass option" where
  "scenario_fork_new P env source_network_protocol =
     (case (case source_network_protocol of
          Some v \<Rightarrow> Some v
        | None \<Rightarrow> map_option li_protocol_version (ph_ledger_info P env)) of
        None \<Rightarrow> None
      | Some v \<Rightarrow> Some \<lparr> ps_env = env, ps_local_accounts = {}, ps_tracked = (source_network_protocol \<noteq> None),
          ps_network_protocol_version = v \<rparr>)"

definition pass_executed_protocol_version :: "externals \<Rightarrow> 'env pass \<Rightarrow> u32" where
  "pass_executed_protocol_version X p = executed_protocol_version X (ps_network_protocol_version p)"

definition contract_address :: "('env, 'r) pass_host \<Rightarrow> string \<Rightarrow> ('env, sc_address) pass_op" where
  "contract_address P contract p =
     pass_bind (expect (ph_address_from_str P (ps_env p) contract)) (\<lambda>address.
       pass_bind (require (is_contract address)) (\<lambda>_. pass_return address)) p"

definition is_account :: "sc_address \<Rightarrow> bool" where
  "is_account address = (case address of ScAddress_Account a \<Rightarrow> True | _ \<Rightarrow> False)"

definition account_address :: "('env, 'r) pass_host \<Rightarrow> string \<Rightarrow> ('env, sc_address) pass_op" where
  "account_address P account p =
     pass_bind (expect (ph_address_from_str P (ps_env p) account)) (\<lambda>address.
       pass_bind (require (is_account address)) (\<lambda>_. pass_return address)) p"

definition muxed_account_address ::
  "('env, 'r) pass_host \<Rightarrow> string \<Rightarrow> ('env, sc_address \<times> u64 option) pass_op" where
  "muxed_account_address P account p =
     pass_bind (expect (ph_muxed_from_str P (ps_env p) account)) (\<lambda>address.
       pass_bind (require (snd address \<noteq> None)) (\<lambda>_. pass_return address)) p"

definition pass_mock_all_auths :: "('env, 'r) pass_host \<Rightarrow> ('env, unit) pass_op" where
  "pass_mock_all_auths P p = pass_return () (p\<lparr>ps_env := h_mock_all_auths (ph_host P) (ps_env p)\<rparr>)"

subsection \<open>Local accounts\<close>

definition local_account_domain :: bytes where
  "local_account_domain = str_bytes ''kanatoko.local-account.v2''"

definition local_public_key :: "externals \<Rightarrow> bytes \<Rightarrow> string \<Rightarrow> account_id" where
  "local_public_key X network_id label =
     sha256 X (local_account_domain @ network_id @ digest_field (str_bytes label))"

definition local_account :: "externals \<Rightarrow> ('env, 'r) pass_host \<Rightarrow> string \<Rightarrow> ('env, sc_address) pass_op" where
  "local_account X P label =
     pass_bind (pass_ledger_info P) (\<lambda>info p.
       let public_key = local_public_key X (li_network_id info) label;
           address = ScAddress_Account public_key in
       pass_bind (require (h_address_ok (ph_host P) (ps_env p) address)) (\<lambda>_ p.
         if public_key \<in> ps_local_accounts p then pass_return address p
         else
           pass_bind (get_ledger_entry P (Key_Account public_key)) (\<lambda>existing.
           pass_bind (require (existing = None)) (\<lambda>_ p.
           pass_bind (require (public_key \<notin> ps_local_accounts p)) (\<lambda>_ p.
           pass_bind (pass_mark (Mark_Address address)) (\<lambda>_. pass_return address)
             (p\<lparr>ps_local_accounts := insert public_key (ps_local_accounts p)\<rparr>)) p)) p) p)"

definition checked_add_i64 :: "i64 \<Rightarrow> i64 \<Rightarrow> i64 option" where
  "checked_add_i64 a b =
     (if - (2 ^ 63) \<le> sint a + sint b \<and> sint a + sint b < 2 ^ 63 then Some (a + b) else None)"

definition checked_mul_i64 :: "i64 \<Rightarrow> i64 \<Rightarrow> i64 option" where
  "checked_mul_i64 a b =
     (if - (2 ^ 63) \<le> sint a * sint b \<and> sint a * sint b < 2 ^ 63 then Some (a * b) else None)"

definition new_account_entry :: "account_id \<Rightarrow> i64 \<Rightarrow> i64 \<Rightarrow> u32 \<Rightarrow> ledger_entry" where
  "new_account_entry account_id amount sequence ledger_sequence =
     \<lparr> le_last_modified = ledger_sequence,
       le_data = Data_Account \<lparr> ae_account_id = account_id, ae_balance = amount, ae_seq_num = sequence,
         ae_num_sub_entries = 0, ae_inflation_dest = None, ae_flags = 0, ae_home_domain = [],
         ae_thresholds = [1, 0, 0, 0], ae_signers = [], ae_ext = [0, 0, 0, 0] \<rparr>,
       le_ext = [0, 0, 0, 0] \<rparr>"

text \<open>The account entry after funding an existing account, or a new one; \<open>None\<close> is a panic.\<close>

definition add_funds :: "account_id \<Rightarrow> i64 \<Rightarrow> u32 \<Rightarrow> present_entry \<Rightarrow> ledger_entry option" where
  "add_funds account_id amount ledger_sequence = (\<lambda>(entry, live_until).
     if live_until \<noteq> None then None
     else (case le_data entry of
        Data_Account local \<Rightarrow>
          if ae_account_id local \<noteq> account_id then None
          else map_option (\<lambda>balance. entry\<lparr>le_data := Data_Account (local\<lparr>ae_balance := balance\<rparr>),
              le_last_modified := ledger_sequence\<rparr>) (checked_add_i64 (ae_balance local) amount)
      | _ \<Rightarrow> None))"

definition first_funds :: "account_id \<Rightarrow> i64 \<Rightarrow> u32 \<Rightarrow> u32 \<Rightarrow> ledger_entry option" where
  "first_funds account_id amount base_reserve ledger_sequence =
     (case checked_mul_i64 (ucast base_reserve) 2 of
        None \<Rightarrow> None
      | Some minimum \<Rightarrow>
          if amount <s minimum then None
          else map_option (\<lambda>sequence. new_account_entry account_id amount sequence ledger_sequence)
            (checked_mul_i64 (ucast ledger_sequence) (2 ^ 32)))"

definition fund_local_account ::
  "('env, 'r) pass_host \<Rightarrow> sc_address \<Rightarrow> i64 \<Rightarrow> ('env, unit) pass_op" where
  "fund_local_account P account amount =
     pass_bind (require (0 <s amount)) (\<lambda>_.
       case account of
         ScAddress_Account account_id \<Rightarrow> (\<lambda>p.
           pass_bind (require (account_id \<in> ps_local_accounts p)) (\<lambda>_.
           pass_bind (get_ledger_entry P (Key_Account account_id)) (\<lambda>existing.
           pass_bind (pass_ledger_info P) (\<lambda>info.
           pass_bind (expect (case existing of
               Some present \<Rightarrow> add_funds account_id amount (li_sequence_number info) present
             | None \<Rightarrow> first_funds account_id amount (li_base_reserve info) (li_sequence_number info)))
             (\<lambda>entry. add_ledger_entry P (Key_Account account_id) entry None)))) p)
       | _ \<Rightarrow> panic)"

subsection \<open>Local contracts\<close>

definition deploy ::
  "externals \<Rightarrow> ('env, 'r) pass_host \<Rightarrow> bytes \<Rightarrow> sc_val list \<Rightarrow> ('env, sc_address) pass_op" where
  "deploy X P wasm constructor_args =
     pass_bind (pass_host_call (\<lambda>env. Done (ph_generate_address P env))) (\<lambda>address.
     pass_bind (require (is_contract address)) (\<lambda>_.
     pass_bind (get_ledger_entry P (contract_instance_key address)) (\<lambda>existing.
     pass_bind (require (existing = None)) (\<lambda>_.
     pass_bind (pass_mark (Mark_Address address)) (\<lambda>_.
     pass_bind (pass_mark (Mark_Code (sha256 X wasm))) (\<lambda>_.
     pass_bind (pass_host_call (\<lambda>env. h_register_at (ph_host P) env address wasm constructor_args)) expect))))))"

text \<open>The contract instance of an entry, and the entry running other code.\<close>

definition entry_instance :: "ledger_entry \<Rightarrow> contract_instance option" where
  "entry_instance entry =
     (case le_data entry of
        Data_ContractData d \<Rightarrow> (case cd_val d of ScVal_ContractInstance i \<Rightarrow> Some i | _ \<Rightarrow> None)
      | _ \<Rightarrow> None)"

definition with_executable :: "contract_executable \<Rightarrow> ledger_entry \<Rightarrow> ledger_entry" where
  "with_executable e entry =
     (case le_data entry of
        Data_ContractData d \<Rightarrow> (case cd_val d of
            ScVal_ContractInstance i \<Rightarrow>
              entry\<lparr>le_data := Data_ContractData (d\<lparr>cd_val := ScVal_ContractInstance (i\<lparr>executable := e\<rparr>)\<rparr>)\<rparr>
          | _ \<Rightarrow> entry)
      | _ \<Rightarrow> entry)"

definition replace_wasm ::
  "externals \<Rightarrow> ('env, 'r) pass_host \<Rightarrow> sc_address \<Rightarrow> bytes \<Rightarrow> ('env, bytes) pass_op" where
  "replace_wasm X P contract wasm =
     pass_bind (require (is_contract contract)) (\<lambda>_.
     pass_bind (get_ledger_entry P (contract_instance_key contract)) (\<lambda>existing.
     pass_bind (expect existing) (\<lambda>(instance_entry, live_until).
     pass_bind (expect (entry_instance instance_entry)) (\<lambda>inst.
     pass_bind (require (executable inst \<noteq> StellarAsset)) (\<lambda>_.
     let wasm_sha256 = sha256 X wasm in
     pass_bind (pass_mark (Mark_Code wasm_sha256)) (\<lambda>_.
     pass_bind (pass_host_call (\<lambda>env. ph_upload_wasm P env wasm)) (\<lambda>uploaded.
     pass_bind (require (uploaded = Some wasm_sha256)) (\<lambda>_.
     pass_bind (add_ledger_entry P (contract_instance_key contract)
         (with_executable (Wasm wasm_sha256) instance_entry) live_until) (\<lambda>_.
       pass_return wasm_sha256)))))))))"

subsection \<open>Invocations\<close>

text \<open>
  The arguments of a call are converted in the environment; \<open>None\<close> is a conversion that panics
  or, for a preview, gives a value without an XDR form. A symbol has at most 32 bytes.
\<close>

type_synonym 'env invoke_args = "'env \<Rightarrow> sc_val list option"

definition sc_symbol_of :: "string \<Rightarrow> string option" where
  "sc_symbol_of function = (if length function \<le> 32 then Some function else None)"

definition invoke :: "('env, 'r) pass_host \<Rightarrow> sc_address \<Rightarrow> string \<Rightarrow> 'env invoke_args \<Rightarrow> ('env, sc_val) pass_op" where
  "invoke P contract function args p =
     pass_bind (require (h_symbol_ok (ph_host P) (ps_env p) function)) (\<lambda>_.
     pass_bind (expect (args (ps_env p))) (\<lambda>args.
     pass_bind (pass_host_call (\<lambda>env. ph_invoke_contract P env contract function args)) expect)) p"

definition invocation_abort :: invocation_failure where
  "invocation_abort = \<lparr> if_error = None, if_kind = Kind_Abort \<rparr>"

definition try_invoke ::
  "('env, 'r) pass_host \<Rightarrow> sc_address \<Rightarrow> string \<Rightarrow> 'env invoke_args
    \<Rightarrow> ('env, invocation_failure + sc_val) pass_op" where
  "try_invoke P contract function args p =
     (case sc_symbol_of function of
        None \<Rightarrow> pass_return (Inl invocation_abort) p
      | Some function \<Rightarrow>
          if \<not> h_symbol_ok (ph_host P) (ps_env p) function then pass_return (Inl invocation_abort) p
          else (case args (ps_env p) of
             None \<Rightarrow> pass_return (Inl invocation_abort) p
           | Some args \<Rightarrow>
               pass_host_call (\<lambda>env. invoke_once (ph_host P) env contract function args) p))"

subsection \<open>Previews\<close>

datatype preview_auth = Preview_Record | Preview_Exact "auth_tree list"

record 'r invocation_report =
  ir_receipt :: receipt
  ir_resources :: "'r option"
  ir_network_protocol_version :: u32

definition report_executed_protocol_version :: "externals \<Rightarrow> 'r invocation_report \<Rightarrow> u32" where
  "report_executed_protocol_version X report = executed_protocol_version X (ir_network_protocol_version report)"

text \<open>\<open>convert\<close> stands for the conversion of the detached value to the type asked for.\<close>

definition report_result :: "(sc_val \<Rightarrow> 'v option) \<Rightarrow> 'r invocation_report \<Rightarrow> invocation_failure + 'v" where
  "report_result convert report =
     (case rc_outcome (ir_receipt report) of
        Success v \<Rightarrow> ok_or \<lparr> if_error = None, if_kind = Kind_Result_Conversion \<rparr> (convert v)
      | Failure e k \<Rightarrow> Inl \<lparr> if_error = e, if_kind = k \<rparr>)"

text \<open>Every key the child environment stored, nonces aside, is observed by the outer source.\<close>

primrec observe_keys :: "ledger_key list \<Rightarrow> bool \<Rightarrow> bool script" where
  "observe_keys [] inspection_failed = Done inspection_failed"
| "observe_keys (key # keys) inspection_failed =
     (if is_nonce_key key then observe_keys keys inspection_failed
      else Get key (\<lambda>answer. observe_keys keys (inspection_failed \<or> (\<exists>e. answer = Inl e))))"

definition forward_preview_reads ::
  "'env host \<Rightarrow> bool \<Rightarrow> 'env \<Rightarrow> (strict_fork_error + u64) script" where
  "forward_preview_reads H tracked child =
     (if \<not> tracked then Done (Inr 0)
      else Ask (\<lambda>(reads_before, _).
        case h_stored_entries H child of
          None \<Rightarrow> Done (Inl StrictHostInspection)
        | Some stored \<Rightarrow>
            bind_script (observe_keys stored False) (\<lambda>inspection_failed.
            Ask (\<lambda>(reads, unknown).
              Done (if unknown \<noteq> {} then Inl (StrictUnknownLedgerKeys (card unknown) (sorted_list_of_set unknown))
                else if inspection_failed then Inl StrictHostInspection
                else Inr (of_nat (reads - reads_before)))))))"

text \<open>The child is made from a snapshot and reads nothing else.\<close>

definition run_snapshot :: "('env, 'r) pass_host \<Rightarrow> sdk_snapshot \<Rightarrow> 'o script \<Rightarrow> 'o" where
  "run_snapshot P snapshot p =
     fst (run_script (\<lambda>key s. (ph_snapshot_get P snapshot key, s)) (\<lambda>m s. s) (\<lambda>s. (0, {})) p ())"

definition preview_request :: "sc_address \<Rightarrow> string \<Rightarrow> sc_val list option \<Rightarrow> strict_fork_error + invoke_request" where
  "preview_request contract function args =
     and_then (ok_or InvalidInvocationXdr (sc_symbol_of function)) (\<lambda>function.
     and_then (ok_or InvalidInvocationXdr args) (\<lambda>args.
       Inr \<lparr> rq_contract = contract, rq_function = function, rq_args = args \<rparr>))"

text \<open>The call in the child: the ledger before, its digest, the outcome and the child after.\<close>

definition preview_call ::
  "externals \<Rightarrow> ('env, 'r) pass_host \<Rightarrow> invoke_request \<Rightarrow> 'env pass
    \<Rightarrow> strict_fork_error + (ledger_snapshot \<times> bytes \<times> invoke_outcome \<times> 'env)" where
  "preview_call X P request p =
     (let H = ph_host P; S = h_sdk H; network = ps_network_protocol_version p;
          before = network_ledger_snapshot X S (ps_env p) network in
      and_then (map_err StrictFixture (canonical_ledger_digest X before)) (\<lambda>before_digest.
      let snapshot = sdk_to_snapshot S (ps_env p);
          snapshot = snapshot\<lparr>sk_ledger := (sk_ledger snapshot)\<lparr>sn_protocol_version :=
            restore_network_protocol X (sn_protocol_version (sk_ledger snapshot)) network\<rparr>\<rparr>;
          child = h_mock_all_auths H (fork_env X S (Seed_Snapshot snapshot)) in
      and_then (invocation_values H child request) (\<lambda>(contract, function, args).
      case run_snapshot P snapshot (invoke_outcome_of H child contract function args) of
        (outcome, child) \<Rightarrow> Inr (before, before_digest, outcome, child))))"

definition preview_auth_mode :: "preview_auth \<Rightarrow> applied_auth_mode \<times> auth_tree list option" where
  "preview_auth_mode auth =
     (case auth of
        Preview_Record \<Rightarrow> (Applied_Record, None)
      | Preview_Exact expected \<Rightarrow> (Applied_Mock_Exact, Some expected))"

definition preview_report ::
  "externals \<Rightarrow> ('env, 'r) pass_host \<Rightarrow> invoke_request \<Rightarrow> preview_auth \<Rightarrow> u32
    \<Rightarrow> ledger_snapshot \<Rightarrow> bytes \<Rightarrow> invoke_outcome \<Rightarrow> 'env \<Rightarrow> u64 \<Rightarrow> strict_fork_error + 'r invocation_report" where
  "preview_report X P request auth network before before_digest outcome child upstream_reads =
     (let H = ph_host P; S = h_sdk H; resources = ph_last_resources P child in
      case detached_snapshot_evidence S child of (authorization, events) \<Rightarrow>
      case preview_auth_mode auth of (auth_mode, expected) \<Rightarrow>
      if (case expected of None \<Rightarrow> False | Some expected \<Rightarrow> expected \<noteq> authorization)
      then Inl AuthTreeMismatch
      else
        and_then (strip_new_mock_nonces X before (network_ledger_snapshot X S child network)) (\<lambda>after.
        and_then (map_err StrictFixture (canonical_ledger_digest X after)) (\<lambda>after_digest.
        and_then (state_diff X before after) (\<lambda>state_changes.
        and_then (detached_diagnostics H child) (\<lambda>diagnostics.
          Inr \<lparr> ir_receipt = \<lparr> rc_request = request, rc_outcome = outcome, rc_auth_mode = auth_mode,
                  rc_authorization = authorization, rc_events = events, rc_diagnostics = diagnostics,
                  rc_state_changes = state_changes, rc_before_digest = before_digest,
                  rc_after_digest = after_digest, rc_disposition = Previewed,
                  rc_upstream_reads = upstream_reads \<rparr>,
                ir_resources = resources, ir_network_protocol_version = network \<rparr>)))))"

definition preview ::
  "externals \<Rightarrow> ('env, 'r) pass_host \<Rightarrow> sc_address \<Rightarrow> string \<Rightarrow> 'env invoke_args \<Rightarrow> preview_auth
    \<Rightarrow> ('env, strict_fork_error + 'r invocation_report) pass_op" where
  "preview X P contract function args auth p =
     (case and_then (preview_request contract function (args (ps_env p))) (\<lambda>request.
         and_then (preview_call X P request p) (\<lambda>call. Inr (request, call))) of
        Inl e \<Rightarrow> pass_return (Inl e) p
      | Inr (request, before, before_digest, outcome, child) \<Rightarrow>
          map_script (\<lambda>reads. (Some (and_then reads (\<lambda>upstream_reads.
              preview_report X P request auth (ps_network_protocol_version p) before before_digest outcome child
                upstream_reads)), p))
            (forward_preview_reads (ph_host P) (ps_tracked p) child))"

subsection \<open>Following a composed script\<close>

lemma follow_bind_script:
  "follow serve mark (bind_script p f) v =
     (case follow serve mark p v of None \<Rightarrow> None | Some (x, u) \<Rightarrow> follow serve mark (f x) u)"
  by (induction p arbitrary: v) (auto split: option.split)

end
