(* ===== verification/Scenario_Properties.thy ===== *)
theory Scenario_Properties
  imports Scenario_Fork
begin

text \<open>
  What the operations of a pass guarantee: generating an account reads its key once and nothing of
  it afterwards, \<open>local_account\<close> is repeatable, \<open>fund_local_account\<close> never wraps, \<open>replace_wasm\<close>
  changes nothing but the executable, and a preview leaves the pass as it was and makes every key
  it read a requested key of the source.
\<close>

subsection \<open>Running scripts in sequence\<close>

lemma run_bind_script:
  "run_script get mark tally (bind_script p f) s =
     (case run_script get mark tally p s of (x, t) \<Rightarrow> run_script get mark tally (f x) t)"
  by (induction p arbitrary: s) (auto split: prod.split)

lemma run_result: "fst (run_script get mark tally p s) \<in> set_script p"
proof (induction p arbitrary: s)
  case (Get key k)
  then show ?case by (cases "get key s") (metis UN_I rangeI run_script.simps(2) script.set(2) case_prod_conv)
next
  case (Ask k)
  then show ?case by (cases "tally s") (metis UN_I rangeI run_script.simps(4) script.set(4))
qed auto

lemma run_pass_simps [simp]:
  "run_script get mark tally (pass_return x p) s = ((Some x, p), s)"
  "run_script get mark tally (panic p) s = ((None, p), s)"
  "run_script get mark tally (pass_mark m q) t = ((Some (), q), mark m t)"
  by (simp_all add: pass_return_def panic_def pass_mark_def)

lemma run_pass_bind:
  "run_script get mark tally (pass_bind m f p) s =
     (case run_script get mark tally (m p) s of
        ((None, q), t) \<Rightarrow> ((None, q), t)
      | ((Some x, q), t) \<Rightarrow> run_script get mark tally (f x q) t)"
  by (auto simp: pass_bind_def run_bind_script split: prod.split option.split)

lemma run_require [simp]:
  "run_script get mark tally (require b p) s = ((if b then Some () else None, p), s)"
  by (simp add: require_def)

lemma run_expect [simp]: "run_script get mark tally (expect x p) s = ((x, p), s)"
  by (cases x) (simp_all add: expect_def)

lemma run_ledger_info [simp]:
  "run_script get mark tally (pass_ledger_info P p) s = ((ph_ledger_info P (ps_env p), p), s)"
  by (simp add: pass_ledger_info_def)

lemma run_host_call:
  "run_script get mark tally (pass_host_call call p) s =
     (case run_script get mark tally (call (ps_env p)) s of ((r, env), t) \<Rightarrow> ((Some r, p\<lparr>ps_env := env\<rparr>), t))"
  by (auto simp: pass_host_call_def run_map_script split: prod.split)

lemma run_add_entry:
  "run_script get mark tally (add_ledger_entry P key entry live_until p) s =
     (case ph_add_entry P (ps_env p) key entry live_until of
        None \<Rightarrow> ((None, p), s) | Some env \<Rightarrow> ((Some (), p\<lparr>ps_env := env\<rparr>), s))"
  by (simp add: add_ledger_entry_def split: option.split)

lemmas run_pass = run_pass_bind run_host_call run_add_entry run_pass_simps run_require run_expect run_ledger_info

subsection \<open>Generated accounts stay local\<close>

definition pass_local :: "'env pass \<Rightarrow> local_ledger \<Rightarrow> bool" where
  "pass_local p l \<longleftrightarrow> ScAddress_Account ` ps_local_accounts p \<subseteq> ll_addresses l"

text \<open>Every run of the script from \<open>l\<close> ends with a pass whose accounts are marked as local.\<close>

definition keeps :: "externals \<Rightarrow> 'w transport option \<Rightarrow> ('a \<times> 'env pass) script \<Rightarrow> local_ledger \<Rightarrow> bool" where
  "keeps X tr script l \<longleftrightarrow> (\<forall>v r q l' v'. run_tracking X tr script (l, v) = ((r, q), (l', v')) \<longrightarrow> pass_local q l')"

named_theorems keeps_intros

definition grows :: "local_ledger \<Rightarrow> local_ledger \<Rightarrow> bool" where
  "grows l l' \<longleftrightarrow> ll_addresses l \<subseteq> ll_addresses l' \<and> ll_code_hashes l \<subseteq> ll_code_hashes l'"

lemma marked_grows:
  "run_tracking X tr p (l, v) = (r, (l', v')) \<Longrightarrow> grows l l'"
  unfolding run_tracking_def
proof (induction p arbitrary: l v)
  case (Get key k)
  obtain answer v1 where "world_get X tr key (l, v) = (answer, (l, v1))"
    by (cases "tracking_get X tr l key v") (simp add: world_get_def)
  then show ?case using Get.prems Get.IH [OF rangeI, of answer l v1] by simp
next
  case (Mark m p)
  have "grows l (mark_local m l)"
    by (auto simp: grows_def mark_local_def mark_address_def mark_code_def split: local_mark.split)
  then show ?case using Mark.prems Mark.IH [of "mark_local m l" v] by (auto simp: world_mark_def grows_def)
next
  case (Ask k)
  then show ?case using Ask.IH [OF rangeI, of "world_count (l, v)" l v] by simp
qed (simp add: grows_def)

lemma keeps_return [keeps_intros]: "pass_local p l \<Longrightarrow> keeps X tr (pass_return x p) l"
  and keeps_panic [keeps_intros]: "pass_local p l \<Longrightarrow> keeps X tr (panic p) l"
  and keeps_require [keeps_intros]: "pass_local p l \<Longrightarrow> keeps X tr (require b p) l"
  and keeps_expect [keeps_intros]: "pass_local p l \<Longrightarrow> keeps X tr (expect y p) l"
  and keeps_info [keeps_intros]: "pass_local p l \<Longrightarrow> keeps X tr (pass_ledger_info P p) l"
  by (simp_all add: keeps_def run_tracking_def)

lemma keeps_mark [keeps_intros]:
  "pass_local p l \<Longrightarrow> keeps X tr (pass_mark m p) l"
  by (auto simp: keeps_def run_tracking_def pass_local_def world_mark_def mark_local_def mark_address_def
      mark_code_def split: local_mark.splits)

lemma keeps_add [keeps_intros]:
  "pass_local p l \<Longrightarrow> keeps X tr (add_ledger_entry P key entry live_until p) l"
  by (auto simp: keeps_def run_tracking_def run_add_entry pass_local_def split: option.splits)

lemma keeps_host_call [keeps_intros]:
  assumes "pass_local p l"
  shows "keeps X tr (pass_host_call call p) l"
proof -
  have "pass_local q l'" if run: "run_tracking X tr (pass_host_call call p) (l, v) = ((r, q), (l', v'))" for v r q l' v'
  proof -
    obtain r1 env l1 v1 where one: "run_tracking X tr (call (ps_env p)) (l, v) = ((r1, env), (l1, v1))"
      by (metis prod.exhaust)
    then have "q = p\<lparr>ps_env := env\<rparr>" "l' = l1" using run by (simp_all add: run_tracking_def run_host_call)
    then show ?thesis using marked_grows [OF one] assms by (auto simp: pass_local_def grows_def)
  qed
  then show ?thesis unfolding keeps_def by blast
qed

lemma keeps_bind [keeps_intros]:
  assumes m: "keeps X tr (m p) l" and f: "\<And>x q l'. pass_local q l' \<Longrightarrow> keeps X tr (f x q) l'"
  shows "keeps X tr (pass_bind m f p) l"
proof -
  have "pass_local q l'" if run: "run_tracking X tr (pass_bind m f p) (l, v) = ((r, q), (l', v'))" for v r q l' v'
  proof -
    obtain r1 q1 l1 v1 where one: "run_tracking X tr (m p) (l, v) = ((r1, q1), (l1, v1))" by (metis prod.exhaust)
    then have "pass_local q1 l1" using m unfolding keeps_def by blast
    then show ?thesis
    proof (cases r1)
      case None
      then show ?thesis using run one \<open>pass_local q1 l1\<close> by (simp add: run_tracking_def run_pass_bind)
    next
      case (Some x)
      then have "run_tracking X tr (f x q1) (l1, v1) = ((r, q), (l', v'))"
        using run one by (simp add: run_tracking_def run_pass_bind)
      then show ?thesis using f [OF \<open>pass_local q1 l1\<close>, of x] unfolding keeps_def by blast
    qed
  qed
  then show ?thesis unfolding keeps_def by blast
qed

lemma keeps_get [keeps_intros]: "pass_local p l \<Longrightarrow> keeps X tr (get_ledger_entry P key p) l"
  unfolding get_ledger_entry_def by (intro keeps_intros) (auto intro: keeps_intros split: sum.split)

lemma keeps_local_insert:
  assumes "pass_local p l"
  shows "keeps X tr (pass_bind (pass_mark (Mark_Address (ScAddress_Account a))) (\<lambda>_. pass_return y)
    (p\<lparr>ps_local_accounts := insert a (ps_local_accounts p)\<rparr>)) l"
  using assms by (auto simp: keeps_def run_tracking_def run_pass pass_local_def world_mark_def mark_local_def mark_address_def)

lemma keeps_local_account [keeps_intros]:
  "pass_local p l \<Longrightarrow> keeps X tr (local_account X' P label p) l"
  unfolding local_account_def Let_def
  by (intro keeps_intros; (simp only: split: if_split)?; intro conjI impI keeps_intros keeps_local_insert; assumption?)

lemma keeps_fund [keeps_intros]: "pass_local p l \<Longrightarrow> keeps X tr (fund_local_account P account amount p) l"
  unfolding fund_local_account_def
  by (intro keeps_intros; (cases account)?; simp; (intro keeps_intros)?; assumption?)

lemma keeps_deploy [keeps_intros]: "pass_local p l \<Longrightarrow> keeps X tr (deploy X' P wasm args p) l"
  unfolding deploy_def by (intro keeps_intros)

lemma keeps_replace [keeps_intros]: "pass_local p l \<Longrightarrow> keeps X tr (replace_wasm X' P contract wasm p) l"
  unfolding replace_wasm_def Let_def
  by (intro keeps_intros; (simp only: split: prod.split)?; intro allI impI keeps_intros; assumption?)

lemma keeps_invoke [keeps_intros]: "pass_local p l \<Longrightarrow> keeps X tr (invoke P contract function args p) l"
  unfolding invoke_def by (intro keeps_intros)

lemma keeps_try_invoke [keeps_intros]:
  "pass_local p l \<Longrightarrow> keeps X tr (try_invoke P contract function args p) l"
  unfolding try_invoke_def by (auto intro: keeps_intros split: option.split)

lemma keeps_mock [keeps_intros]: "pass_local p l \<Longrightarrow> keeps X tr (pass_mock_all_auths P p) l"
  by (simp add: keeps_def run_tracking_def pass_mock_all_auths_def pass_local_def)

lemma keeps_value:
  assumes "pass_local p l"
  shows "keeps X tr (map_script (\<lambda>y. (Some (h y), p)) script) l"
proof -
  have "pass_local q l'"
    if run: "run_tracking X tr (map_script (\<lambda>y. (Some (h y), p)) script) (l, v) = ((r, q), (l', v'))" for v r q l' v'
  proof -
    obtain y l1 v1 where one: "run_tracking X tr script (l, v) = (y, (l1, v1))" by (metis prod.exhaust)
    then have "q = p" "l' = l1" using run by (simp_all add: run_tracking_def run_map_script)
    then show ?thesis using marked_grows [OF one] assms by (auto simp: pass_local_def grows_def)
  qed
  then show ?thesis unfolding keeps_def by blast
qed

lemma keeps_preview [keeps_intros]:
  "pass_local p l \<Longrightarrow> keeps X tr (preview X' P contract function args auth p) l"
  unfolding preview_def by (auto intro: keeps_intros keeps_value split: sum.split prod.split)

lemma keeps_forget [keeps_intros]:
  assumes "keeps X tr script l"
  shows "keeps X tr (map_script (map_prod h id) script) l"
proof -
  have "pass_local q l'"
    if run: "run_tracking X tr (map_script (map_prod h id) script) (l, v) = ((r, q), (l', v'))" for v r q l' v'
  proof -
    obtain y q1 l1 v1 where one: "run_tracking X tr script (l, v) = ((y, q1), (l1, v1))" by (metis prod.exhaust)
    then have "q = q1" "l' = l1" using run by (simp_all add: run_tracking_def run_map_script)
    then show ?thesis using one assms unfolding keeps_def by blast
  qed
  then show ?thesis unfolding keeps_def by blast
qed

subsection \<open>The steps of a pass\<close>

text \<open>
  What a scenario does, in any order: the operations of the pass, and calls of generated clients
  on its environment. Values are dropped: the next step may depend on them in any way.
\<close>

datatype 'env pass_call =
    Call_Mock_All_Auths
  | Call_Contract_Address string
  | Call_Account_Address string
  | Call_Muxed_Account string
  | Call_Local_Account string
  | Call_Fund sc_address i64
  | Call_Deploy bytes "sc_val list"
  | Call_Replace_Wasm sc_address bytes
  | Call_Invoke sc_address string "'env invoke_args"
  | Call_Try_Invoke sc_address string "'env invoke_args"
  | Call_Preview sc_address string "'env invoke_args" preview_auth
  | Call_Client "'env \<Rightarrow> (unit \<times> 'env) script"

definition without_value :: "('env, 'a) pass_op \<Rightarrow> ('env, unit) pass_op" where
  "without_value m p = map_script (map_prod (map_option (\<lambda>_. ())) id) (m p)"

primrec perform :: "externals \<Rightarrow> ('env, 'r) pass_host \<Rightarrow> 'env pass_call \<Rightarrow> ('env, unit) pass_op" where
  "perform X P Call_Mock_All_Auths = pass_mock_all_auths P"
| "perform X P (Call_Contract_Address s) = without_value (contract_address P s)"
| "perform X P (Call_Account_Address s) = without_value (account_address P s)"
| "perform X P (Call_Muxed_Account s) = without_value (muxed_account_address P s)"
| "perform X P (Call_Local_Account label) = without_value (local_account X P label)"
| "perform X P (Call_Fund account amount) = fund_local_account P account amount"
| "perform X P (Call_Deploy wasm args) = without_value (deploy X P wasm args)"
| "perform X P (Call_Replace_Wasm contract wasm) = without_value (replace_wasm X P contract wasm)"
| "perform X P (Call_Invoke contract function args) = without_value (invoke P contract function args)"
| "perform X P (Call_Try_Invoke contract function args) = without_value (try_invoke P contract function args)"
| "perform X P (Call_Preview contract function args auth) = without_value (preview X P contract function args auth)"
| "perform X P (Call_Client client) = pass_host_call client"

inductive pass_reaches ::
  "externals \<Rightarrow> ('env, 'r) pass_host \<Rightarrow> 'w transport option \<Rightarrow> 'env pass \<times> 'w tracking_world \<Rightarrow> bool"
  for X P tr where
  pass_begins: "scenario_fork_new P env (Some (ts_network_protocol_version s)) = Some p \<Longrightarrow>
    pass_reaches X P tr (p, (local_empty, (s, w)))"
| pass_steps: "pass_reaches X P tr (p, world) \<Longrightarrow>
    run_tracking X tr (perform X P call p) world = ((r, q), world') \<Longrightarrow> pass_reaches X P tr (q, world')"

lemma keeps_call: "pass_local p l \<Longrightarrow> keeps X tr (perform X' P call p) l"
  by (cases call)
    (simp_all add: without_value_def contract_address_def account_address_def muxed_account_address_def keeps_intros)

text \<open>
  The invariant of a pass: every account it counts as generated, which is what
  \<open>fund_local_account\<close> accepts, is marked as local.
\<close>

lemma pass_reaches_local: "pass_reaches X P tr (p, (l, v)) \<Longrightarrow> pass_local p l"
proof (induction "(p, (l, v))" arbitrary: p l v rule: pass_reaches.induct)
  case (pass_begins env s p w)
  then show ?case by (auto simp: scenario_fork_new_def pass_local_def)
next
  case (pass_steps p world call r q l v)
  obtain l0 v0 where "world = (l0, v0)" by (metis prod.exhaust)
  then show ?case using pass_steps keeps_call [of p l0 X tr X P call] unfolding keeps_def by blast
qed

text \<open>Any further steps, whatever each depends on.\<close>

definition pass_step ::
  "externals \<Rightarrow> ('env, 'r) pass_host \<Rightarrow> 'w transport option \<Rightarrow> 'env pass \<times> 'w tracking_world
    \<Rightarrow> 'env pass \<times> 'w tracking_world \<Rightarrow> bool" where
  "pass_step X P tr c c' \<longleftrightarrow>
     (\<exists>call r. run_tracking X tr (perform X P call (fst c)) (snd c) = ((r, fst c'), snd c'))"

lemma pass_step_local:
  assumes "pass_step X P tr c c'" and "ScAddress_Account a \<in> ll_addresses (fst (snd c))"
  shows "ScAddress_Account a \<in> ll_addresses (fst (snd c'))"
proof -
  obtain p l v q l' v' where c: "c = (p, (l, v))" "c' = (q, (l', v'))" by (metis prod.exhaust)
  then obtain call r where "run_tracking X tr (perform X P call p) (l, v) = ((r, q), (l', v'))"
    using assms(1) by (auto simp: pass_step_def)
  from marked_grows [OF this] show ?thesis using assms(2) by (auto simp: c grows_def)
qed

lemma pass_steps_local:
  assumes "(pass_step X P tr)\<^sup>*\<^sup>* c c'" and "ScAddress_Account a \<in> ll_addresses (fst (snd c))"
  shows "ScAddress_Account a \<in> ll_addresses (fst (snd c'))"
  using assms by (induction rule: rtranclp_induct) (auto dest: pass_step_local)

subsection \<open>What the Host keeps\<close>

text \<open>
  Documented behaviour of the Host's storage: reading a key leaves the ledger info alone and
  keeps what it found, so that reading it again asks no source; adding an entry stores it.
\<close>

definition holds :: "('env, 'r) pass_host \<Rightarrow> 'env \<Rightarrow> ledger_key \<Rightarrow> present_entry option \<Rightarrow> bool" where
  "holds P env key existing \<longleftrightarrow> ph_get_entry P env key = Done (Inr existing, env)"

definition pass_host_laws :: "('env, 'r) pass_host \<Rightarrow> bool" where
  "pass_host_laws P \<longleftrightarrow>
     (\<forall>env key r env'. (r, env') \<in> set_script (ph_get_entry P env key) \<longrightarrow>
        ph_ledger_info P env' = ph_ledger_info P env \<and>
        h_address_ok (ph_host P) env' = h_address_ok (ph_host P) env \<and>
        (\<forall>existing. r = Inr existing \<longrightarrow> holds P env' key existing)) \<and>
     (\<forall>env key entry live_until env'. ph_add_entry P env key entry live_until = Some env' \<longrightarrow>
        ph_ledger_info P env' = ph_ledger_info P env \<and>
        h_address_ok (ph_host P) env' = h_address_ok (ph_host P) env \<and>
        holds P env' key (Some (entry, live_until)))"

lemma run_get_entry:
  "run_script get mark tally (get_ledger_entry P key p) s =
     (case run_script get mark tally (ph_get_entry P (ps_env p) key) s of
        ((Inl e, env), t) \<Rightarrow> ((None, p\<lparr>ps_env := env\<rparr>), t)
      | ((Inr existing, env), t) \<Rightarrow> ((Some existing, p\<lparr>ps_env := env\<rparr>), t))"
  by (auto simp: get_ledger_entry_def run_pass split: prod.split sum.split)

lemma run_get_held:
  "holds P (ps_env p) key existing \<Longrightarrow>
     run_script get mark tally (get_ledger_entry P key p) s = ((Some existing, p), s)"
  by (simp add: run_get_entry holds_def)

lemma run_get_entry_laws:
  assumes "pass_host_laws P" and "run_script get mark tally (get_ledger_entry P key p) s = ((r, q), t)"
  shows "\<exists>env. q = p\<lparr>ps_env := env\<rparr> \<and> ph_ledger_info P env = ph_ledger_info P (ps_env p) \<and>
    h_address_ok (ph_host P) env = h_address_ok (ph_host P) (ps_env p) \<and>
    (\<forall>existing. r = Some existing \<longrightarrow> holds P env key existing)"
proof -
  obtain x env u where x: "run_script get mark tally (ph_get_entry P (ps_env p) key) s = ((x, env), u)"
    by (metis prod.exhaust)
  then have "(x, env) \<in> set_script (ph_get_entry P (ps_env p) key)" by (metis run_result fst_conv)
  then show ?thesis
    using assms x unfolding pass_host_laws_def run_get_entry by (auto split: sum.splits)
qed

subsection \<open>Generated accounts\<close>

definition local_preimage :: "bytes \<Rightarrow> string \<Rightarrow> bytes" where
  "local_preimage network_id label = local_account_domain @ network_id @ digest_field (str_bytes label)"

lemma local_account_runs:
  fixes X :: externals and label :: string and info :: ledger_info
  defines "a \<equiv> sha256 X (local_preimage (li_network_id info) label)"
  assumes "ph_ledger_info P (ps_env p) = Some info"
  shows "run_script get mark tally (local_account X P label p) s =
    (if \<not> h_address_ok (ph_host P) (ps_env p) (ScAddress_Account a) then ((None, p), s)
     else if a \<in> ps_local_accounts p then ((Some (ScAddress_Account a), p), s)
     else (case run_script get mark tally (ph_get_entry P (ps_env p) (Key_Account a)) s of
         ((Inr None, env), t) \<Rightarrow> ((Some (ScAddress_Account a),
            p\<lparr>ps_env := env, ps_local_accounts := insert a (ps_local_accounts p)\<rparr>),
            mark (Mark_Address (ScAddress_Account a)) t)
       | ((x, env), t) \<Rightarrow> ((None, p\<lparr>ps_env := env\<rparr>), t)))"
  using assms(2)
  by (auto simp: local_account_def local_public_key_def local_preimage_def [symmetric] a_def [symmetric] Let_def
      run_pass run_get_entry split: prod.split sum.split option.split)

lemma local_preimage_inject:
  "fits_usize label \<Longrightarrow> fits_usize other \<Longrightarrow> local_preimage n label = local_preimage n other \<Longrightarrow> label = other"
  using field_frame.unframe [of "str_bytes label" "str_bytes other" "[]" "[]"]
  by (simp add: local_preimage_def fits_usize_def str_bytes_inject)

text \<open>
  \<open>local_account\<close> is determined by the network and the label: in any pass it gives the account
  whose key is the domain-separated hash of both, and once it has succeeded, calling it again in
  that pass gives the same address, reads nothing and changes nothing. Labels of one network give
  different accounts unless SHA-256 collides.
\<close>

theorem local_account_repeatable:
  assumes laws: "pass_host_laws P"
    and run: "run_script get mark tally (local_account X P label p) s = ((Some address, q), t)"
    and info: "ph_ledger_info P (ps_env p) = Some info"
  shows "address = ScAddress_Account (sha256 X (local_preimage (li_network_id info) label)) \<and>
    run_script get mark tally (local_account X P label q) u = ((Some address, q), u) \<and>
    (address = ScAddress_Account (sha256 X (local_preimage (li_network_id info) other)) \<and>
       fits_usize label \<and> fits_usize other \<and> label \<noteq> other \<longrightarrow>
     (\<exists>a b. a \<noteq> b \<and> sha256 X a = sha256 X b))"
proof -
  let ?a = "sha256 X (local_preimage (li_network_id info) label)"
  obtain x env v where get: "run_script get mark tally (ph_get_entry P (ps_env p) (Key_Account ?a)) s = ((x, env), v)"
    by (metis prod.exhaust)
  then have "(x, env) \<in> set_script (ph_get_entry P (ps_env p) (Key_Account ?a))" by (metis run_result fst_conv)
  then have env: "ph_ledger_info P env = Some info"
    "h_address_ok (ph_host P) env = h_address_ok (ph_host P) (ps_env p)"
    using laws info unfolding pass_host_laws_def by metis+
  have q: "address = ScAddress_Account ?a" "?a \<in> ps_local_accounts q" "ph_ledger_info P (ps_env q) = Some info"
    "h_address_ok (ph_host P) (ps_env q) address"
    using run info env unfolding local_account_runs [OF info] get
    by (auto split: if_splits sum.splits option.splits)
  have "run_script get mark tally (local_account X P label q) u = ((Some address, q), u)"
    using q by (simp add: local_account_runs [OF q(3)])
  moreover have "\<exists>a b. a \<noteq> b \<and> sha256 X a = sha256 X b"
    if other: "address = ScAddress_Account (sha256 X (local_preimage (li_network_id info) other))"
      and fits: "fits_usize label" "fits_usize other" "label \<noteq> other"
  proof -
    have "local_preimage (li_network_id info) label \<noteq> local_preimage (li_network_id info) other"
      using local_preimage_inject fits by blast
    then show ?thesis using q(1) other by (metis sc_address.inject(1))
  qed
  ultimately show ?thesis using q(1) by blast
qed

subsection \<open>What generating an account costs\<close>

text \<open>
  Documented behaviour of the Host's storage: an environment that does not hold a key yet asks
  its snapshot source for it, once, and answers with what the source answers.
\<close>

definition asks_source :: "('env, 'r) pass_host \<Rightarrow> 'env \<Rightarrow> ledger_key \<Rightarrow> bool" where
  "asks_source P env key \<longleftrightarrow>
     (\<exists>env'. ph_get_entry P env key = Get key (\<lambda>answer. Done (map_sum (\<lambda>_. ()) id answer, env' answer)))"

lemma local_account_info:
  "run_tracking X tr (local_account X P label p) world = ((Some address, q), world') \<Longrightarrow>
     \<exists>info. ph_ledger_info P (ps_env p) = Some info"
  by (cases "ph_ledger_info P (ps_env p)") (simp_all add: local_account_def run_tracking_def run_pass)

lemma local_account_reads:
  assumes run: "run_tracking X tr (local_account X P label p) (l, v) = ((Some (ScAddress_Account a), q), world)"
    and new: "a \<notin> ps_local_accounts p" and host: "asks_source P (ps_env p) (Key_Account a)"
  shows "\<exists>v'. tracking_get X tr l (Key_Account a) v = (Inr None, v') \<and>
    world = (mark_local (Mark_Address (ScAddress_Account a)) l, v') \<and>
    ps_local_accounts q = insert a (ps_local_accounts p)"
proof -
  obtain info where info: "ph_ledger_info P (ps_env p) = Some info" using local_account_info [OF run] ..
  obtain answer v' where get: "tracking_get X tr l (Key_Account a) v = (answer, v')" by (metis prod.exhaust)
  obtain env' where asks: "ph_get_entry P (ps_env p) (Key_Account a) =
      Get (Key_Account a) (\<lambda>answer. Done (map_sum (\<lambda>_. ()) id answer, env' answer))"
    using host by (auto simp: asks_source_def)
  have a: "a = sha256 X (local_preimage (li_network_id info) label)"
    using run unfolding run_tracking_def local_account_runs [OF info]
    by (auto split: if_splits prod.splits sum.splits option.splits)
  show ?thesis
    using run new unfolding run_tracking_def local_account_runs [OF info] a [symmetric] asks
    by (cases answer) (auto simp: world_get_def get world_mark_def split: if_splits option.splits)
qed

text \<open>
  C27. Generating an account costs exactly one dependency. On the first use of a label, in whatever
  pass and through whatever source, the account's key is read once through the source, which must
  answer absent: unless it is already local, the key is then requested and known as absent (so a
  capture records it as a known absent key). From then on, whatever steps follow in any order, the
  source answers the account and its trustlines as absent without reading or recording anything.
\<close>

theorem generated_accounts_stay_local:
  assumes generated: "run_tracking X tr (local_account X P label p) (l, (s, w)) =
      ((Some (ScAddress_Account a), q), (l1, (s1, w1)))"
    and new: "a \<notin> ps_local_accounts p" and host: "asks_source P (ps_env p) (Key_Account a)"
    and cache: "bm_ok (ts_cache s)"
    and later: "(pass_step X P tr)\<^sup>*\<^sup>* (q, (l1, (s1, w1))) (q', (l', (s', w')))"
    and key: "key = Key_Account a \<or> key = Key_Trustline a asset" "key_to_xdr X key = Some i" "ts_failure s' = None"
  shows "tracking_get X tr l (Key_Account a) (s, w) = (Inr None, (s1, w1)) \<and>
    (owns l (Key_Account a) \<and> s1 = s \<and> w1 = w \<or>
     (\<exists>j. key_to_xdr X (Key_Account a) = Some j \<and> j \<in> bm_keys (ts_requested s1) \<and>
        bm_get (ts_cache s1) j = Some Absent)) \<and>
    tracking_get X tr l' key (s', w') = (Inr None, (s', w'))"
proof -
  have get: "tracking_get X tr l (Key_Account a) (s, w) = (Inr None, (s1, w1))"
    and l1: "l1 = mark_local (Mark_Address (ScAddress_Account a)) l"
    using local_account_reads [OF generated new host] by auto
  have "owns l (Key_Account a) \<and> s1 = s \<and> w1 = w \<or>
     (\<exists>j. key_to_xdr X (Key_Account a) = Some j \<and> j \<in> bm_keys (ts_requested s1) \<and> bm_get (ts_cache s1) j = Some Absent)"
  proof (cases "owns l (Key_Account a)")
    case True
    then show ?thesis using get
      by (auto simp: tracking_get_def split: if_splits sum.splits)
  next
    case False
    then obtain j where j: "key_to_xdr X (Key_Account a) = Some j" "bm_get (ts_cache s1) j = Some Absent"
      using absence_is_evidence [OF get cache] by blast
    moreover have "j \<in> bm_keys (ts_requested s1)"
      using get j(1) False
      by (auto simp: tracking_get_def tracking_fetch_def key_id_def Let_def
          split: if_splits option.splits prod.splits sum.splits)
    ultimately show ?thesis by blast
  qed
  moreover have "ScAddress_Account a \<in> ll_addresses l1"
    by (simp add: l1 mark_local_def mark_address_def)
  then have "ScAddress_Account a \<in> ll_addresses l'" using pass_steps_local [OF later] by simp
  then have "owns l' key" using key(1) by (auto simp: owns_def)
  then have "tracking_get X tr l' key (s', w') = (Inr None, (s', w'))"
    using key(2,3) by (simp add: tracking_get_def key_id_def)
  ultimately show ?thesis using get by blast
qed

subsection \<open>Funding\<close>

lemma sint_i64: "- (2 ^ 63) \<le> sint (a :: i64) \<and> sint a < 2 ^ 63"
  using sint_greater_eq [of a] sint_less [of a] by simp

lemma sint_of_i64: "- (2 ^ 63) \<le> i \<Longrightarrow> i < 2 ^ 63 \<Longrightarrow> sint (of_int i :: i64) = i"
  by (simp add: sint_sbintrunc' signed_take_bit_int_eq_self)

lemma sint_ucast_i64: "sint (ucast (x :: u32) :: i64) = uint x"
proof -
  have "uint x < 2 ^ 32" using uint_lt2p [of x] by simp
  moreover have "- (2 ^ 63) \<le> uint x" by (rule order_trans [of _ 0]) simp_all
  ultimately have "sint (of_int (uint x) :: i64) = uint x" by (intro sint_of_i64) simp_all
  then show ?thesis by simp
qed
lemma checked_i64: "(if - (2 ^ 63) \<le> i \<and> i < 2 ^ 63 then Some (of_int i :: i64) else None) = Some c \<longleftrightarrow> sint c = i"
  using sint_i64 [of c] sint_of_i64 [of i] by (auto simp: of_int_sint)

lemma checked_add_i64_Some: "checked_add_i64 a b = Some c \<longleftrightarrow> sint c = sint a + sint b"
  using checked_i64 [of "sint a + sint b" c] unfolding checked_add_i64_def of_int_add of_int_sint scast_id .
lemma checked_mul_i64_Some: "checked_mul_i64 a b = Some c \<longleftrightarrow> sint c = sint a * sint b"
  using checked_i64 [of "sint a * sint b" c] unfolding checked_mul_i64_def of_int_mult of_int_sint scast_id .

text \<open>The specification, in integers: when funding is accepted, and the entry it stores.\<close>

definition fundable :: "account_id \<Rightarrow> i64 \<Rightarrow> ledger_info \<Rightarrow> present_entry option \<Rightarrow> bool" where
  "fundable a amount info existing \<longleftrightarrow> 0 < sint amount \<and>
     (case existing of
        None \<Rightarrow> 2 * uint (li_base_reserve info) \<le> sint amount \<and> uint (li_sequence_number info) < 2 ^ 31
      | Some (old, live_until) \<Rightarrow> live_until = None \<and>
          (\<exists>acct. le_data old = Data_Account acct \<and> ae_account_id acct = a \<and>
             sint (ae_balance acct) + sint amount < 2 ^ 63))"

definition funded :: "account_id \<Rightarrow> i64 \<Rightarrow> ledger_info \<Rightarrow> present_entry option \<Rightarrow> ledger_entry \<Rightarrow> bool" where
  "funded a amount info existing e \<longleftrightarrow>
     (case existing of
        None \<Rightarrow> \<exists>n. sint n = uint (li_sequence_number info) * 2 ^ 32 \<and>
          e = new_account_entry a amount n (li_sequence_number info)
      | Some (old, live_until) \<Rightarrow>
          \<exists>acct b. le_data old = Data_Account acct \<and> sint b = sint (ae_balance acct) + sint amount \<and>
            e = old\<lparr>le_data := Data_Account (acct\<lparr>ae_balance := b\<rparr>),
                    le_last_modified := li_sequence_number info\<rparr>)"

definition funding :: "account_id \<Rightarrow> i64 \<Rightarrow> ledger_info \<Rightarrow> present_entry option \<Rightarrow> ledger_entry option" where
  "funding a amount info existing =
     (case existing of
        Some present \<Rightarrow> add_funds a amount (li_sequence_number info) present
      | None \<Rightarrow> first_funds a amount (li_base_reserve info) (li_sequence_number info))"

lemma add_funds_spec:
  assumes "0 < sint amount"
  shows "case add_funds a amount (li_sequence_number info) present of
      None \<Rightarrow> \<not> fundable a amount info (Some present)
    | Some e \<Rightarrow> fundable a amount info (Some present) \<and> funded a amount info (Some present) e"
proof -
  have add: "checked_add_i64 b amount = None \<longleftrightarrow> \<not> sint b + sint amount < 2 ^ 63"
    "checked_add_i64 b amount = Some c \<Longrightarrow> sint b + sint amount < 2 ^ 63 \<and> sint c = sint b + sint amount" for b c
    using assms sint_i64 [of b] checked_add_i64_Some [of b amount c] by (auto simp: checked_add_i64_def split: if_splits)
  obtain entry live_until where "present = (entry, live_until)" by (metis prod.exhaust)
  then show ?thesis
    using assms add
    by (cases "le_data entry")
      (auto simp: add_funds_def fundable_def funded_def split: option.splits)
qed

lemma first_funds_spec:
  assumes "0 < sint amount"
  shows "case first_funds a amount (li_base_reserve info) (li_sequence_number info) of
      None \<Rightarrow> \<not> fundable a amount info None
    | Some e \<Rightarrow> fundable a amount info None \<and> funded a amount info None e"
proof -
  have u32: "0 \<le> uint x \<and> uint x < 2 ^ 32" for x :: u32 using uint_lt2p [of x] by simp
  have two: "sint (2 :: i64) = 2" "sint (2 ^ 32 :: i64) = 2 ^ 32"
    using sint_of_i64 [of 2] sint_of_i64 [of "2 ^ 32"] by simp_all
  obtain m where m: "checked_mul_i64 (ucast (li_base_reserve info)) 2 = Some m"
    using u32 [of "li_base_reserve info"] by (simp add: checked_mul_i64_def sint_ucast_i64 two)
  then have minimum: "sint m = 2 * uint (li_base_reserve info)"
    by (simp add: checked_mul_i64_Some sint_ucast_i64 two)
  have sequence: "checked_mul_i64 (ucast x) (2 ^ 32) = None \<longleftrightarrow> \<not> uint x < 2 ^ 31" for x :: u32
  proof -
    have "- (2 ^ 63) \<le> uint x * 2 ^ 32" by (rule order_trans [of _ 0]) simp_all
    then show ?thesis unfolding checked_mul_i64_def sint_ucast_i64 two by simp
  qed
  have numbers: "checked_mul_i64 (ucast x) (2 ^ 32) = Some n \<Longrightarrow> uint x < 2 ^ 31 \<and> sint n = uint x * 2 ^ 32"
    for x :: u32 and n
    using sequence [of x] checked_mul_i64_Some [of "ucast x" "2 ^ 32" n] unfolding sint_ucast_i64 two by simp
  show ?thesis
    using assms sequence numbers minimum
    by (auto simp: first_funds_def m word_sless_alt fundable_def funded_def split: option.splits)
qed

text \<open>
  C28. \<open>fund_local_account\<close> is exact. On an account generated by the pass it succeeds precisely when
  the amount is positive and either the account is new, the amount covers two base reserves and the
  ledger sequence fits an account sequence number, or the stored entry is this account's and the
  sum fits 64 bits; then the account holds exactly the sum. Otherwise it panics and the pass, and
  the environment, are as before.
\<close>

theorem fund_local_account_exact:
  assumes laws: "pass_host_laws P" and held: "holds P (ps_env p) (Key_Account a) existing"
    and info: "ph_ledger_info P (ps_env p) = Some info" and local: "a \<in> ps_local_accounts p"
    and accepted: "\<And>e. ph_add_entry P (ps_env p) (Key_Account a) e None \<noteq> None"
  shows "if fundable a amount info existing
    then \<exists>e env. run_script get mark tally (fund_local_account P (ScAddress_Account a) amount p) s =
        ((Some (), p\<lparr>ps_env := env\<rparr>), s) \<and>
      holds P env (Key_Account a) (Some (e, None)) \<and> funded a amount info existing e
    else run_script get mark tally (fund_local_account P (ScAddress_Account a) amount p) s = ((None, p), s)"
proof (cases "0 < sint amount")
  case False
  then have "\<not> 0 <s amount" by (simp add: word_sless_alt)
  then show ?thesis using False by (simp add: fundable_def fund_local_account_def run_pass)
next
  case True
  have run: "run_script get mark tally (fund_local_account P (ScAddress_Account a) amount p) s =
      (case funding a amount info existing of
         None \<Rightarrow> ((None, p), s)
       | Some e \<Rightarrow> (case ph_add_entry P (ps_env p) (Key_Account a) e None of
           None \<Rightarrow> ((None, p), s) | Some env \<Rightarrow> ((Some (), p\<lparr>ps_env := env\<rparr>), s)))"
    using True local info
    by (auto simp: fund_local_account_def funding_def word_sless_alt run_pass run_get_held [OF held] split: option.split)
  have spec: "case funding a amount info existing of
      None \<Rightarrow> \<not> fundable a amount info existing
    | Some e \<Rightarrow> fundable a amount info existing \<and> funded a amount info existing e"
    using add_funds_spec [OF True, of a info] first_funds_spec [OF True, of a info]
    by (cases existing) (simp_all only: funding_def option.case)
  show ?thesis
  proof (cases "funding a amount info existing")
    case None
    then show ?thesis using run spec by simp
  next
    case (Some e)
    obtain env where env: "ph_add_entry P (ps_env p) (Key_Account a) e None = Some env" using accepted by blast
    then have "holds P env (Key_Account a) (Some (e, None))" using laws unfolding pass_host_laws_def by blast
    then show ?thesis using run spec Some env by auto
  qed
qed

subsection \<open>Replaced code\<close>

lemma entry_instance_with_executable:
  "entry_instance (with_executable e entry) = map_option (\<lambda>i. i\<lparr>executable := e\<rparr>) (entry_instance entry)"
  "le_last_modified (with_executable e entry) = le_last_modified entry"
  by (auto simp: entry_instance_def with_executable_def split: ledger_entry_data.split sc_val.split)

text \<open>
  C30. \<open>replace_wasm\<close> changes the code and nothing else: when it succeeds the contract's instance
  has the same storage, entry and expiration but runs the hash of the new code, which is registered
  as local; when the address holds no instance, or a Stellar asset contract, it panics and neither
  the pass nor the local state changes.
\<close>

theorem replace_wasm_changes_code_only:
  assumes laws: "pass_host_laws P" and held: "holds P (ps_env p) (contract_instance_key contract) existing"
    and run: "run_tracking X tr (replace_wasm X P contract wasm p) (l, v) = ((r, q), (l', v'))"
  shows "case map_option (\<lambda>(entry, live_until). entry_instance entry) existing of
      Some (Some inst) \<Rightarrow>
        if executable inst = StellarAsset then r = None \<and> q = p \<and> l' = l \<and> v' = v
        else r = None \<or> r = Some (sha256 X wasm) \<and> sha256 X wasm \<in> ll_code_hashes l' \<and>
          (\<exists>entry entry' live_until. existing = Some (entry, live_until) \<and>
             holds P (ps_env q) (contract_instance_key contract) (Some (entry', live_until)) \<and>
             entry_instance entry' = Some (inst\<lparr>executable := Wasm (sha256 X wasm)\<rparr>) \<and>
             entry' = with_executable (Wasm (sha256 X wasm)) entry \<and>
             ps_local_accounts q = ps_local_accounts p)
    | _ \<Rightarrow> r = None \<and> q = p \<and> l' = l \<and> v' = v"
proof (cases "\<exists>entry live_until inst. existing = Some (entry, live_until) \<and> entry_instance entry = Some inst \<and>
    executable inst \<noteq> StellarAsset \<and> is_contract contract")
  case False
  have "r = None \<and> q = p \<and> l' = l \<and> v' = v"
    using False run
    by (auto simp: replace_wasm_def run_tracking_def run_pass run_get_held [OF held] Let_def
        split: option.splits prod.splits if_splits)
  then show ?thesis by (auto split: option.split)
next
  case True
  then obtain entry live_until inst where e: "existing = Some (entry, live_until)" "entry_instance entry = Some inst"
    "executable inst \<noteq> StellarAsset" "is_contract contract" by blast
  let ?h = "sha256 X wasm"
  let ?world = "(mark_local (Mark_Code ?h) l, v)"
  obtain uploaded env l1 v1 where up: "run_tracking X tr (ph_upload_wasm P (ps_env p) wasm) ?world = ((uploaded, env), (l1, v1))"
    by (metis prod.exhaust)
  have code: "?h \<in> ll_code_hashes l1"
    using marked_grows [OF up] by (auto simp: grows_def mark_local_def mark_code_def)
  have "((r, q), (l', v')) =
      (if uploaded \<noteq> Some ?h then ((None, p\<lparr>ps_env := env\<rparr>), (l1, v1))
       else case ph_add_entry P env (contract_instance_key contract) (with_executable (Wasm ?h) entry) live_until of
         None \<Rightarrow> ((None, p\<lparr>ps_env := env\<rparr>), (l1, v1))
       | Some env' \<Rightarrow> ((Some ?h, p\<lparr>ps_env := env'\<rparr>), (l1, v1)))"
    using run up e unfolding run_tracking_def
    by (auto simp: replace_wasm_def run_pass run_get_held [OF held] Let_def world_mark_def split: option.splits)
  then show ?thesis
    using code e laws unfolding pass_host_laws_def
    by (auto simp: entry_instance_with_executable split: if_splits option.splits)
qed

subsection \<open>Previews\<close>

definition captured_key :: "('v \<Rightarrow> ledger_key \<Rightarrow> answer option) \<Rightarrow> 'v \<Rightarrow> ledger_key \<Rightarrow> bool" where
  "captured_key serve v key \<longleftrightarrow> is_nonce_key key \<or> (\<exists>answer. serve v key = Some answer)"

lemma follow_observe_keys:
  "follow serve mark (observe_keys keys failed) v = Some (b, u) \<Longrightarrow> u = v \<and> list_all (captured_key serve v) keys"
  by (induction keys arbitrary: failed) (auto simp: captured_key_def split: if_splits option.splits)

lemma follow_forward_preview_reads:
  assumes "follow serve mark (forward_preview_reads H True child) v = Some (Inr reads, u)"
  shows "u = v \<and> reads = 0 \<and> (\<exists>stored. h_stored_entries H child = Some stored \<and> list_all (captured_key serve v) stored)"
proof -
  obtain stored where stored: "h_stored_entries H child = Some stored"
    using assms by (cases "h_stored_entries H child") (simp_all add: forward_preview_reads_def)
  then obtain b u' where "follow serve mark (observe_keys stored False) v = Some (b, u')"
    using assms by (auto simp: forward_preview_reads_def follow_bind_script split: option.splits)
  then show ?thesis
    using assms stored follow_observe_keys [of serve mark stored False v b u']
    by (auto simp: forward_preview_reads_def follow_bind_script split: if_splits)
qed

text \<open>The ids of the keys that become dependencies when the given keys are observed.\<close>

definition dependencies :: "externals \<Rightarrow> local_ledger \<Rightarrow> ledger_key list \<Rightarrow> key_id set" where
  "dependencies X l keys = {i. \<exists>key\<in>set keys. \<not> is_nonce_key key \<and> \<not> owns l key \<and> key_to_xdr X key = Some i}"

lemma dependencies_Cons:
  "dependencies X l (key # keys) = dependencies X l [key] \<union> dependencies X l keys"
  "is_nonce_key key \<Longrightarrow> dependencies X l [key] = {}"
  "\<not> is_nonce_key key \<Longrightarrow> owns l key \<Longrightarrow> dependencies X l [key] = {}"
  "\<not> is_nonce_key key \<Longrightarrow> \<not> owns l key \<Longrightarrow> key_to_xdr X key = Some i \<Longrightarrow> dependencies X l [key] = {i}"
  by (auto simp: dependencies_def)

lemma calm_read:
  assumes "world_get X tr key (l, (s, w)) = (answer, world)" and "tracking_calm world"
  shows "\<exists>i. key_to_xdr X key = Some i \<and>
    world = (l, (if owns l key then s else s\<lparr>ts_requested := bm_insert i key (ts_requested s)\<rparr>, w))"
  using assms
  by (auto simp: world_get_def tracking_get_def tracking_fetch_def tracking_calm_def key_id_def Let_def
      split: prod.splits sum.splits option.splits if_splits)

lemma calm_observation:
  assumes "run_tracking X tr (observe_keys keys failed) (l, (s, w)) = (b, world)" and "tracking_calm world"
  shows "\<exists>requested. world = (l, (s\<lparr>ts_requested := requested\<rparr>, w)) \<and>
    bm_keys requested = bm_keys (ts_requested s) \<union> dependencies X l keys"
  using assms(1)
proof (induction keys arbitrary: failed s)
  case Nil
  then show ?case by (intro exI [of _ "ts_requested s"]) (auto simp: run_tracking_def dependencies_def)
next
  case (Cons key keys)
  show ?case
  proof (cases "is_nonce_key key")
    case True
    then show ?thesis using Cons dependencies_Cons(1,2) [where X = X and l = l and key = key] by simp
  next
    case False
    obtain answer mid where read: "world_get X tr key (l, (s, w)) = (answer, mid)" by (metis prod.exhaust)
    then have rest: "run_tracking X tr (observe_keys keys (failed \<or> (\<exists>e. answer = Inl e))) mid = (b, world)"
      using Cons.prems False by (simp add: run_tracking_def)
    have "tracking_calm mid" using tracking.calm_run [OF rest [unfolded run_tracking_def] assms(2)] ..
    then obtain i where i: "key_to_xdr X key = Some i"
      and mid: "mid = (l, (if owns l key then s else s\<lparr>ts_requested := bm_insert i key (ts_requested s)\<rparr>, w))"
      using calm_read [OF read] by blast
    show ?thesis
      using Cons.IH [OF rest [unfolded mid]] dependencies_Cons(1) [where X = X and l = l and key = key and keys = keys]
        dependencies_Cons(3,4) [OF False, where X = X and l = l] i
      by (cases "owns l key") auto
  qed
qed

lemma calm_forwarding:
  assumes "run_tracking X tr (forward_preview_reads H True child) (l, (s, w)) = (r, world)" and "tracking_calm world"
    and "h_stored_entries H child = Some stored"
  shows "\<exists>requested. world = (l, (s\<lparr>ts_requested := requested\<rparr>, w)) \<and>
    bm_keys requested = bm_keys (ts_requested s) \<union> dependencies X l stored"
proof -
  obtain b mid where "run_tracking X tr (observe_keys stored False) (l, (s, w)) = (b, mid)" by (metis prod.exhaust)
  then have "run_tracking X tr (observe_keys stored False) (l, (s, w)) = (b, world)"
    using assms(1,3) by (auto simp: forward_preview_reads_def run_tracking_def run_bind_script split: prod.splits)
  then show ?thesis using assms(2) by (rule calm_observation)
qed

lemma preview_report_receipt:
  "preview_report X P request auth network before d outcome child reads = Inr report \<Longrightarrow>
     rc_upstream_reads (ir_receipt report) = reads \<and> rc_disposition (ir_receipt report) = Previewed \<and>
     rc_before_digest (ir_receipt report) = d \<and> rc_outcome (ir_receipt report) = outcome"
  by (auto simp: preview_report_def Let_def split: prod.splits if_splits option.splits)

text \<open>
  C29. A preview hides no dependency. In a pass that ends without a failure, an unknown key or an RPC
  read (an accepted capture pass, or a replay), a preview that returned a report left the pass as it
  was, and of the source changed only the requested keys: they gained exactly the keys the child
  environment stored, nonces and local keys aside. All of these are captured or local; the report
  has no upstream read and starts from the digest of the pass's own ledger.
\<close>

theorem preview_reads_are_captured:
  assumes run: "run_tracking X tr (preview X P contract function args auth p) (l, (s, w)) =
      ((Some (Inr report), q), world')"
    and calm: "tracking_calm world'" and tracked: "ps_tracked p"
  shows "q = p \<and>
    rc_upstream_reads (ir_receipt report) = 0 \<and> rc_disposition (ir_receipt report) = Previewed \<and>
    canonical_ledger_digest X (network_ledger_snapshot X (h_sdk (ph_host P)) (ps_env p) (ps_network_protocol_version p)) =
      Inr (rc_before_digest (ir_receipt report)) \<and>
    (\<exists>request before d child stored requested.
       preview_call X P request p = Inr (before, d, rc_outcome (ir_receipt report), child) \<and>
       h_stored_entries (ph_host P) child = Some stored \<and>
       list_all (captured_key (tracking_serve X) (l, (ts_cache s, w))) stored \<and>
       world' = (l, (s\<lparr>ts_requested := requested\<rparr>, w)) \<and>
       bm_keys requested = bm_keys (ts_requested s) \<union> dependencies X l stored)"
proof -
  let ?v = "(l, (ts_cache s, w))"
  have view: "tracking_view (l, (s, w)) = ?v" by (simp add: tracking_view_def)
  have f: "follow (tracking_serve X) view_mark_local (preview X P contract function args auth p) ?v =
      Some ((Some (Inr report), q), tracking_view world')"
    using tracking.calm_run [OF run [unfolded run_tracking_def] calm] view by simp
  obtain request before d outcome child where call: "preview_call X P request p = Inr (before, d, outcome, child)"
    and pre: "and_then (preview_request contract function (args (ps_env p))) (\<lambda>request.
         and_then (preview_call X P request p) (\<lambda>call. Inr (request, call))) = Inr (request, before, d, outcome, child)"
  proof (cases "and_then (preview_request contract function (args (ps_env p))) (\<lambda>request.
         and_then (preview_call X P request p) (\<lambda>call. Inr (request, call)))")
    case (Inl e)
    then show thesis using f by (simp add: preview_def pass_return_def)
  next
    case (Inr c)
    then show thesis using that by (cases c) auto
  qed
  obtain reads u where reads: "follow (tracking_serve X) view_mark_local
        (forward_preview_reads (ph_host P) True child) ?v = Some (reads, u)"
      "and_then reads (preview_report X P request auth (ps_network_protocol_version p) before d outcome child) = Inr report"
      "q = p" "u = tracking_view world'"
    using f tracked by (auto simp: preview_def pre follow_map_script)
  then obtain n where n: "reads = Inr n"
      "preview_report X P request auth (ps_network_protocol_version p) before d outcome child n = Inr report"
    by (cases reads) auto
  have "canonical_ledger_digest X (network_ledger_snapshot X (h_sdk (ph_host P)) (ps_env p)
      (ps_network_protocol_version p)) = Inr d"
    using call by (auto simp: preview_call_def Let_def map_err_def split: sum.splits prod.splits)
  moreover obtain stored where stored: "u = ?v" "n = 0" "h_stored_entries (ph_host P) child = Some stored"
      "list_all (captured_key (tracking_serve X) ?v) stored"
    using follow_forward_preview_reads [OF reads(1) [unfolded n(1)]] by blast
  moreover obtain requested where "world' = (l, (s\<lparr>ts_requested := requested\<rparr>, w))"
      "bm_keys requested = bm_keys (ts_requested s) \<union> dependencies X l stored"
  proof -
    obtain reads' world where fwd: "run_tracking X tr (forward_preview_reads (ph_host P) True child) (l, (s, w)) =
        (reads', world)" by (metis prod.exhaust)
    then have "world = world'"
      using run tracked by (simp add: preview_def pre run_tracking_def run_map_script)
    then show thesis using calm_forwarding [OF fwd _ stored(3)] calm that by blast
  qed
  moreover note receipt = preview_report_receipt [OF n(2)]
  moreover have "preview_call X P request p = Inr (before, d, rc_outcome (ir_receipt report), child)"
    using call receipt by simp
  ultimately show ?thesis using reads(3,4) by metis
qed

end
