(* ===== verification/Sample_Scenario.thy ===== *)
theory Sample_Scenario
  imports Scenario_Properties Sample_Strict
begin

text \<open>
  A pass on the sample ledger: the Host's storage is the snapshot's entries, and the code of every
  call is that of the sample Host. The witnesses of \<open>Scenario_Properties\<close> are evaluated here.
\<close>

definition sample_lookup :: "sdk_snapshot \<Rightarrow> ledger_key \<Rightarrow> present_entry option" where
  "sample_lookup env key = map_of (sn_ledger_entries (sk_ledger env)) key"

definition sample_pass_host :: "(sdk_snapshot, unit) pass_host" where
  "sample_pass_host = \<lparr> ph_host = sample_host,
     ph_ledger_info = (\<lambda>env. Some (snapshot_ledger_info sample_X (sk_ledger env))),
     ph_address_from_str = (\<lambda>env s. None), ph_muxed_from_str = (\<lambda>env s. None),
     ph_get_entry = (\<lambda>env key. Done (Inr (sample_lookup env key), env)),
     ph_add_entry = (\<lambda>env key e l. Some (env\<lparr>sk_ledger := (sk_ledger env)\<lparr>sn_ledger_entries :=
        (key, (e, l)) # sn_ledger_entries (sk_ledger env)\<rparr>\<rparr>)),
     ph_generate_address = (\<lambda>env. (sample_contract, env)),
     ph_upload_wasm = (\<lambda>env wasm. Done (Some (sample_sha256 wasm), env)),
     ph_invoke_contract = (\<lambda>env contract function args. Done (None, env)),
     ph_last_resources = (\<lambda>env. None),
     ph_snapshot_get = (\<lambda>s key. Inr (sample_lookup s key)) \<rparr>"

lemma sample_pass_host_simps [simp]:
  "ph_host sample_pass_host = sample_host"
  "ph_get_entry sample_pass_host env key = Done (Inr (sample_lookup env key), env)"
  "ph_upload_wasm sample_pass_host env wasm = Done (Some (sample_sha256 wasm), env)"
  "ph_snapshot_get sample_pass_host s key = Inr (sample_lookup s key)"
  "ph_last_resources sample_pass_host env = None"
  by (simp_all add: sample_pass_host_def)

lemma sample_pass_host_add:
  "\<exists>env'. ph_add_entry sample_pass_host env key e l = Some env'"
  by (simp add: sample_pass_host_def)

lemma sample_is_contract: "is_contract sample_contract"
  by (simp add: is_contract_def sample_contract_def)

lemma sample_pass_host_laws: "pass_host_laws sample_pass_host"
  using sample_ledger_info_laws
  by (auto simp: pass_host_laws_def holds_def sample_pass_host_def sample_lookup_def ledger_info_laws_def fun_eq_iff)

definition sample_pass :: "sdk_snapshot pass" where
  "sample_pass = \<lparr> ps_env = sample_env sample_base, ps_local_accounts = {}, ps_tracked = True,
     ps_network_protocol_version = 29 \<rparr>"

definition sample_alice :: account_id where
  "sample_alice = sample_sha256 (local_preimage (sn_network_id sample_base) ''alice'')"

definition sample_alice_pass :: "sdk_snapshot pass" where
  "sample_alice_pass = sample_pass\<lparr>ps_local_accounts := {sample_alice}\<rparr>"

lemma sample_pass_info:
  "ph_ledger_info sample_pass_host (ps_env sample_pass) = Some (snapshot_ledger_info sample_X sample_base)"
  "li_network_id (snapshot_ledger_info sample_X sample_base) = sn_network_id sample_base"
  using sample_ledger_info_laws by (simp_all add: sample_pass_host_def sample_pass_def ledger_info_laws_def)

lemma sample_local_account:
  "run_script get mark tally (local_account sample_X sample_pass_host ''alice'' sample_pass) s =
     ((Some (ScAddress_Account sample_alice), sample_alice_pass), mark (Mark_Address (ScAddress_Account sample_alice)) s)"
  using local_account_runs [OF sample_pass_info(1), of get mark tally sample_X "''alice''" s]
  by (simp add: sample_pass_info(2) sample_alice_def [symmetric] sample_pass_host_def sample_pass_def
      sample_alice_pass_def sample_lookup_def contract_instance_key_def)
     
theorem local_account_repeatable_witness:
  "run_script undefined undefined undefined (local_account sample_X sample_pass_host ''alice'' sample_alice_pass) undefined =
     ((Some (ScAddress_Account sample_alice), sample_alice_pass), undefined)"
  by (rule local_account_repeatable [OF sample_pass_host_laws sample_local_account sample_pass_info(1),
        THEN conjunct2, THEN conjunct1])

text \<open>
  A Host that asks the source for a key, and a source that knows the account as absent: the
  account is generated and then looked up through the source, as a client call would.
\<close>

definition sample_asking_host :: "(sdk_snapshot, unit) pass_host" where
  "sample_asking_host = sample_pass_host\<lparr>ph_get_entry :=
     \<lambda>env key. Get key (\<lambda>answer. Done (map_sum (\<lambda>_. ()) id answer, env))\<rparr>"

definition sample_alice_source :: tracking_source where
  "sample_alice_source = tracking_source_new [(1 # sample_alice, Absent)] 29"

lemma sample_alice_key: "key_to_xdr sample_X (Key_Account sample_alice) = Some (1 # sample_alice)"
  by (simp add: sample_key_to_xdr_def)

lemma sample_alice_generated:
  "run_tracking sample_X None (local_account sample_X sample_asking_host ''alice'' sample_pass)
     (local_empty, (sample_alice_source, ())) =
   ((Some (ScAddress_Account sample_alice), sample_alice_pass),
    (mark_local (Mark_Address (ScAddress_Account sample_alice)) local_empty,
     (sample_alice_source\<lparr>ts_requested := [(1 # sample_alice, Key_Account sample_alice)]\<rparr>, ())))"
proof -
  have info: "ph_ledger_info sample_asking_host (ps_env sample_pass) = Some (snapshot_ledger_info sample_X sample_base)"
    using sample_pass_info(1) by (simp add: sample_asking_host_def)
  let ?s1 = "sample_alice_source\<lparr>ts_requested := [(1 # sample_alice, Key_Account sample_alice)]\<rparr>"
  have get: "tracking_get sample_X None local_empty (Key_Account sample_alice) (sample_alice_source, ()) = (Inr None, (?s1, ()))"
    by (simp add: tracking_get_def key_id_def sample_key_to_xdr_def sample_alice_source_def tracking_source_new_def present_of_def)
  have a: "sha256 sample_X (local_preimage (li_network_id (snapshot_ledger_info sample_X sample_base)) ''alice'') = sample_alice"
    by (simp add: sample_pass_info(2) sample_alice_def)
  show ?thesis
    unfolding run_tracking_def local_account_runs [OF info] a
    by (simp add: sample_asking_host_def sample_pass_host_def sample_pass_def sample_alice_pass_def
        world_get_def world_mark_def get)
qed

theorem generated_accounts_stay_local_witness:
  "tracking_get sample_X None local_empty (Key_Account sample_alice) (sample_alice_source, ()) =
     (Inr None, (sample_alice_source\<lparr>ts_requested := [(1 # sample_alice, Key_Account sample_alice)]\<rparr>, ())) \<and>
   tracking_get sample_X None (mark_local (Mark_Address (ScAddress_Account sample_alice)) local_empty)
     (Key_Account sample_alice)
     (sample_alice_source\<lparr>ts_requested := [(1 # sample_alice, Key_Account sample_alice)]\<rparr>, ()) =
     (Inr None, (sample_alice_source\<lparr>ts_requested := [(1 # sample_alice, Key_Account sample_alice)]\<rparr>, ()))"
proof -
  have "sample_alice \<notin> ps_local_accounts sample_pass" "bm_ok (ts_cache sample_alice_source)"
      "ts_failure (sample_alice_source\<lparr>ts_requested := [(1 # sample_alice, Key_Account sample_alice)]\<rparr>) = None"
    by (simp_all add: sample_pass_def sample_alice_source_def tracking_source_new_def)
  moreover have "asks_source sample_asking_host (ps_env sample_pass) (Key_Account sample_alice)"
    unfolding asks_source_def by (rule exI [of _ "\<lambda>_. ps_env sample_pass"]) (simp add: sample_asking_host_def)
  ultimately show ?thesis
    using generated_accounts_stay_local [OF sample_alice_generated _ _ _ rtranclp.rtrancl_refl disjI1 [OF refl] sample_alice_key]
    by blast
qed

lemma sample_base_fields: "sn_base_reserve sample_base = 100" "sn_sequence_number sample_base = 10"
  by (simp_all add: sample_base_def snapshot_of_def ledger_info_of_def sample_anchor_def)

lemma sample_fundable: "fundable sample_alice 1000 (snapshot_ledger_info sample_X sample_base) None"
  using sample_ledger_info_laws sint_of_i64 [of 1000]
  by (simp add: fundable_def ledger_info_laws_def sample_base_fields)

theorem fund_local_account_exact_witness:
  "\<exists>e env. run_script undefined undefined undefined
       (fund_local_account sample_pass_host (ScAddress_Account sample_alice) 1000 sample_alice_pass) () =
      ((Some (), sample_alice_pass\<lparr>ps_env := env\<rparr>), ()) \<and>
    holds sample_pass_host env (Key_Account sample_alice) (Some (e, None)) \<and>
    funded sample_alice 1000 (snapshot_ledger_info sample_X sample_base) None e"
proof -
  have "holds sample_pass_host (ps_env sample_alice_pass) (Key_Account sample_alice) None"
    by (simp add: holds_def sample_pass_host_def sample_lookup_def sample_alice_pass_def sample_pass_def
        contract_instance_key_def)
  moreover have "ph_ledger_info sample_pass_host (ps_env sample_alice_pass) =
      Some (snapshot_ledger_info sample_X sample_base)" "sample_alice \<in> ps_local_accounts sample_alice_pass"
    using sample_pass_info(1) by (simp_all add: sample_alice_pass_def)
  moreover have "ph_add_entry sample_pass_host (ps_env sample_alice_pass) (Key_Account sample_alice) e None \<noteq> None" for e
    by (simp add: sample_pass_host_def)
  ultimately show ?thesis
    using fund_local_account_exact [OF sample_pass_host_laws, of sample_alice_pass sample_alice None
        "snapshot_ledger_info sample_X sample_base" 1000 undefined undefined undefined "()"] sample_fundable
    by simp
qed

theorem replace_wasm_changes_code_only_witness:
  "\<exists>q world. run_tracking sample_X (None :: unit transport option)
        (replace_wasm sample_X sample_pass_host sample_contract [2] sample_pass)
        (local_empty, (tracking_source_new sample_all_coverage 29, ())) = ((Some (sample_sha256 [2]), q), world) \<and>
     holds sample_pass_host (ps_env q) (contract_instance_key sample_contract)
       (Some (with_executable (Wasm (sample_sha256 [2])) sample_instance_entry, Some 20))"
proof -
  let ?world = "(local_empty, (tracking_source_new sample_all_coverage 29, ()))"
  have held: "holds sample_pass_host (ps_env sample_pass) (contract_instance_key sample_contract)
      (Some (sample_instance_entry, Some 20))"
    by (simp add: holds_def sample_pass_host_def sample_lookup_def sample_pass_def)
  have inst: "entry_instance sample_instance_entry = Some \<lparr> executable = Wasm (sample_sha256 [1]), storage = None \<rparr>"
    by (simp add: entry_instance_def sample_instance_entry_def)
  obtain r q l' v' where run: "run_tracking sample_X (None :: unit transport option)
      (replace_wasm sample_X sample_pass_host sample_contract [2] sample_pass) ?world = ((r, q), (l', v'))"
    by (metis prod.exhaust)
  have "r = Some (sample_sha256 [2])"
    using run sample_pass_host_add [of "ps_env sample_pass" "contract_instance_key sample_contract"
        "with_executable (Wasm (sample_sha256 [2])) sample_instance_entry" "Some 20"]
    unfolding run_tracking_def
    by (auto simp: replace_wasm_def run_pass run_get_held [OF held] inst Let_def sample_is_contract)
  then show ?thesis
    using replace_wasm_changes_code_only [OF sample_pass_host_laws held run] run inst by (cases v') auto
qed

subsection \<open>A preview\<close>

definition sample_preview where
  "sample_preview = preview sample_X sample_pass_host sample_contract ''touch'' (\<lambda>env. Some []) Preview_Record sample_pass"

lemma sample_child: "fork_env sample_X sample_sdk (Seed_Snapshot (sample_env sample_base)) = sample_env sample_base"
  by (simp add: fork_env_def sample_sdk_def execute_snapshot_def executed_protocol_version_def)

lemma sample_preview_call:
  "\<exists>d. preview_call sample_X sample_pass_host sample_request sample_pass =
     Inr (sample_base, d, Success (ScVal_Bytes [1]), sample_touch (sample_env sample_base))"
proof -
  obtain d where d: "canonical_ledger_digest sample_X sample_base = Inr d" using sample_base_ok(2) ..
  have net: "network_ledger_snapshot sample_X sample_sdk (sample_env sample_base) 29 = sample_base"
    using sample_network_snapshot [of "sample_env sample_base"] by simp
  have snapshot: "sdk_to_snapshot sample_sdk (sample_env sample_base) = sample_env sample_base"
    by (simp add: sample_sdk_def)
  have restored: "sample_env sample_base\<lparr>sk_ledger := sample_base\<lparr>sn_protocol_version :=
      restore_network_protocol sample_X 29 29\<rparr>\<rparr> = sample_env sample_base"
    by (simp add: restore_network_protocol_def executed_protocol_version_def sample_env_def)
  have "sample_lookup (sample_env sample_base) (contract_instance_key sample_contract) =
      Some (sample_instance_entry, Some 20)"
    by (simp add: sample_lookup_def)
  then show ?thesis
    by (simp add: preview_call_def Let_def sample_pass_def sample_request_def net d snapshot restored sample_child
        invocation_values_def sample_invoke_script run_snapshot_def)
qed

lemma sample_touched_evidence:
  "detached_snapshot_evidence sample_sdk (sample_touch (sample_env sample_base)) = ([], [])"
  by (simp add: detached_snapshot_evidence_def sample_sdk_def sample_touch_def)

lemma sample_report:
  "\<exists>report. preview_report sample_X sample_pass_host sample_request Preview_Record 29 sample_base d
       (Success (ScVal_Bytes [1])) (sample_touch (sample_env sample_base)) 0 = Inr report"
proof -
  obtain e where e: "canonical_ledger_digest sample_X sample_touched = Inr e" using sample_touched_ok(2) ..
  obtain changes where diff: "state_diff sample_X sample_base sample_touched = Inr changes"
    using sample_state_diff sample_base_ok(1) sample_touched_ok(1) by blast
  have net: "network_ledger_snapshot sample_X sample_sdk (sample_touch (sample_env sample_base)) 29 = sample_touched"
    using sample_touched_entries(2) unfolding sample_touched_def by (rule sample_network_snapshot)
  show ?thesis
    by (simp add: preview_report_def Let_def sample_touched_evidence preview_auth_mode_def net sample_strip e diff
        detached_diagnostics_def)
qed

lemma sample_forwarded:
  "run_tracking sample_X (None :: unit transport option)
     (forward_preview_reads sample_host True (sample_touch (sample_env sample_base)))
     (local_empty, (tracking_source_new sample_all_coverage 29, ())) =
   (Inr 0, (local_empty, ((tracking_source_new sample_all_coverage 29)\<lparr>ts_requested := sample_all_keys\<rparr>, ())))"
  by (simp add: run_tracking_def forward_preview_reads_def sample_touched_def [symmetric] run_bind_script
      sample_nonce_free world_get_def tracking_get_def key_id_def world_count_def tracking_source_new_def
      sample_all_coverage_def sample_all_keys_def present_of_def)

lemma sample_previewed:
  "\<exists>report. run_tracking sample_X (None :: unit transport option) sample_preview
       (local_empty, (tracking_source_new sample_all_coverage 29, ())) =
     ((Some (Inr report), sample_pass), (local_empty, ((tracking_source_new sample_all_coverage 29)
        \<lparr>ts_requested := sample_all_keys\<rparr>, ()))) \<and>
     rc_outcome (ir_receipt report) = Success (ScVal_Bytes [1])"
proof -
  obtain d where call: "preview_call sample_X sample_pass_host sample_request sample_pass =
     Inr (sample_base, d, Success (ScVal_Bytes [1]), sample_touch (sample_env sample_base))"
    using sample_preview_call ..
  obtain report where report: "preview_report sample_X sample_pass_host sample_request Preview_Record 29 sample_base d
       (Success (ScVal_Bytes [1])) (sample_touch (sample_env sample_base)) 0 = Inr report"
    using sample_report ..
  have request: "preview_request sample_contract ''touch'' (Some []) = Inr sample_request"
    by (simp add: preview_request_def sc_symbol_of_def sample_request_def)
  have "run_tracking sample_X (None :: unit transport option) sample_preview
      (local_empty, (tracking_source_new sample_all_coverage 29, ())) =
      ((Some (Inr report), sample_pass), (local_empty, ((tracking_source_new sample_all_coverage 29)
        \<lparr>ts_requested := sample_all_keys\<rparr>, ())))"
    using sample_forwarded report unfolding run_tracking_def
    by (simp add: sample_preview_def preview_def request call run_map_script) (simp add: sample_pass_def)
  then show ?thesis using preview_report_receipt [OF report] by blast
qed

theorem preview_reads_are_captured_witness:
  "\<exists>report world. run_tracking sample_X (None :: unit transport option) sample_preview
       (local_empty, (tracking_source_new sample_all_coverage 29, ())) = ((Some (Inr report), sample_pass), world) \<and>
     rc_upstream_reads (ir_receipt report) = 0 \<and> rc_outcome (ir_receipt report) = Success (ScVal_Bytes [1])"
proof -
  obtain report where r: "run_tracking sample_X (None :: unit transport option) sample_preview
       (local_empty, (tracking_source_new sample_all_coverage 29, ())) =
     ((Some (Inr report), sample_pass), (local_empty, ((tracking_source_new sample_all_coverage 29)
        \<lparr>ts_requested := sample_all_keys\<rparr>, ())))" "rc_outcome (ir_receipt report) = Success (ScVal_Bytes [1])"
    using sample_previewed by blast
  have "tracking_calm (local_empty, ((tracking_source_new sample_all_coverage 29)\<lparr>ts_requested := sample_all_keys\<rparr>, ()))"
    by (simp add: tracking_calm_def tracking_source_new_def)
  from preview_reads_are_captured [OF r(1) [unfolded sample_preview_def] this] r
  show ?thesis by (auto simp: sample_pass_def)
qed

end
