(* ===== verification/Cache_Name.thy ===== *)
theory Cache_Name
  imports Auto_Runner
begin

text \<open>
  The default cache of a runner (\<open>mainnet\<close>, \<open>testnet\<close>, \<open>network_runner\<close>, \<open>default_cache_path\<close>
  and \<open>sanitize_cache_name\<close> of \<open>src/auto.rs\<close>): the thread's name made safe for a file name,
  and a short hash of the network and the call site. Strings are UTF-8 bytes: a character
  outside ASCII separates words, as each of its bytes does.
\<close>

definition default_mainnet_rpc_url :: string where
  "default_mainnet_rpc_url = ''https://mainnet.sorobanrpc.com''"

definition default_testnet_rpc_url :: string where
  "default_testnet_rpc_url = ''https://soroban-testnet.stellar.org''"

definition mainnet_passphrase :: string where
  "mainnet_passphrase = ''Public Global Stellar Network ; September 2015''"

definition testnet_passphrase :: string where
  "testnet_passphrase = ''Test SDF Network ; September 2015''"

definition default_cache_domain :: bytes where
  "default_cache_domain = str_bytes ''kanatoko.default-cache.v2''"

definition default_cache_name_max :: nat where "default_cache_name_max = 80"
definition default_cache_hash_hex :: nat where "default_cache_hash_hex = 12"

definition is_name_char :: "char \<Rightarrow> bool" where
  "is_name_char c = (let n = (of_char c :: nat) in
     48 \<le> n \<and> n \<le> 57 \<or> 65 \<le> n \<and> n \<le> 90 \<or> 97 \<le> n \<and> n \<le> 122 \<or> n = 95)"

primrec sanitize_loop :: "bool \<Rightarrow> string \<Rightarrow> string \<Rightarrow> string" where
  "sanitize_loop separator_pending sanitized [] = sanitized"
| "sanitize_loop separator_pending sanitized (c # cs) =
     (if is_name_char c then
        let sanitized = (if separator_pending \<and> sanitized \<noteq> [] \<and> length sanitized < default_cache_name_max
            then sanitized @ ''-'' else sanitized) in
        if length sanitized = default_cache_name_max then sanitized
        else sanitize_loop False (sanitized @ [c]) cs
      else sanitize_loop True sanitized cs)"

function pop_dashes :: "string \<Rightarrow> string" where
  "pop_dashes s = (if s \<noteq> [] \<and> last s = CHR ''-'' then pop_dashes (butlast s) else s)"
  by auto
termination by (relation "measure length") simp_all

declare pop_dashes.simps [simp del]

definition sanitize_cache_name :: "string \<Rightarrow> string" where
  "sanitize_cache_name raw =
     (let sanitized = pop_dashes (sanitize_loop False [] raw) in
      if sanitized = [] then ''scenario'' else sanitized)"

definition cache_preimage :: "string \<Rightarrow> string \<Rightarrow> string \<Rightarrow> u32 \<Rightarrow> u32 \<Rightarrow> bytes" where
  "cache_preimage network_passphrase thread_name caller_file caller_line caller_column =
     default_cache_domain @ digest_field (str_bytes network_passphrase) @ digest_field (str_bytes thread_name) @
     digest_field (str_bytes caller_file) @ be32 caller_line @ be32 caller_column"

definition cache_file_name :: "externals \<Rightarrow> string \<Rightarrow> string \<Rightarrow> string \<Rightarrow> u32 \<Rightarrow> u32 \<Rightarrow> string" where
  "cache_file_name X network_passphrase thread_name caller_file caller_line caller_column =
     (let human = sanitize_cache_name thread_name;
          digest = sha256 X (cache_preimage network_passphrase thread_name caller_file caller_line caller_column);
          short_hash = hex (take (default_cache_hash_hex div 2) digest) in
      human @ ''-'' @ short_hash @ ''.json'')"

definition default_cache_path :: "externals \<Rightarrow> string \<Rightarrow> string \<Rightarrow> string \<Rightarrow> u32 \<Rightarrow> u32 \<Rightarrow> fs_path" where
  "default_cache_path X network_passphrase thread_name caller_file caller_line caller_column =
     (let name = cache_file_name X network_passphrase thread_name caller_file caller_line caller_column in
      \<lparr> fp_text = ''.kanatoko/'' @ name, fp_parent = Some ''.kanatoko'', fp_name = Some name \<rparr>)"

text \<open>The current thread's name, if it has one, and the caller's location are parameters.\<close>

definition network_runner ::
  "externals \<Rightarrow> string \<Rightarrow> string \<Rightarrow> string option \<Rightarrow> string \<Rightarrow> u32 \<Rightarrow> u32 \<Rightarrow> auto_runner" where
  "network_runner X rpc_url network_passphrase thread caller_file caller_line caller_column =
     runner_cache (default_cache_path X network_passphrase
         (case thread of Some name \<Rightarrow> name | None \<Rightarrow> ''scenario'') caller_file caller_line caller_column)
       (with_rpc_url rpc_url network_passphrase)"

definition mainnet where
  "mainnet X = network_runner X default_mainnet_rpc_url mainnet_passphrase"

definition testnet where
  "testnet X = network_runner X default_testnet_rpc_url testnet_passphrase"

text \<open>The lower-level builder for the test network.\<close>

definition builder_testnet ::
  "externals \<Rightarrow> ('w, 'resp) http_env \<Rightarrow> string \<Rightarrow> capture_error + ((rate_limiter \<times> 'w) capture_builder \<times> rate_limiter)" where
  "builder_testnet X H rpc_url = builder_rpc X H rpc_url testnet_passphrase"

subsection \<open>The words of a name\<close>

text \<open>The reference: the maximal runs of name characters, joined by single dashes.\<close>

function name_words :: "string \<Rightarrow> string list" where
  "name_words s =
     (case dropWhile (\<lambda>c. \<not> is_name_char c) s of
        [] \<Rightarrow> []
      | c # cs \<Rightarrow> takeWhile is_name_char (c # cs) # name_words (dropWhile is_name_char (c # cs)))"
  by auto
termination
proof (relation "measure length")
  fix s c cs
  assume s: "dropWhile (\<lambda>c. \<not> is_name_char c) s = c # cs"
  then have "is_name_char c" by (metis hd_dropWhile list.discI list.sel(1))
  then have "length (dropWhile is_name_char (c # cs)) \<le> length cs" by (simp add: length_dropWhile_le)
  moreover have "length (c # cs) \<le> length s" using length_dropWhile_le [of _ s] unfolding s [symmetric] .
  ultimately show "(dropWhile is_name_char (c # cs), s) \<in> measure length" by simp
qed simp

declare name_words.simps [simp del]

fun join_dash :: "string list \<Rightarrow> string" where
  "join_dash [] = []"
| "join_dash [w] = w"
| "join_dash (w # v # ws) = w @ ''-'' @ join_dash (v # ws)"

primrec dashed :: "bool \<Rightarrow> bool \<Rightarrow> string \<Rightarrow> string" where
  "dashed pending started [] = []"
| "dashed pending started (c # cs) =
     (if is_name_char c then (if pending \<and> started then ''-'' else []) @ c # dashed False True cs
      else dashed True started cs)"

lemma sanitize_loop_dashed:
  "length acc \<le> default_cache_name_max \<Longrightarrow>
     sanitize_loop pending acc cs = take default_cache_name_max (acc @ dashed pending (acc \<noteq> []) cs)"
proof (induction cs arbitrary: pending acc)
  case (Cons c cs)
  show ?case
  proof (cases "is_name_char c")
    case True
    let ?acc = "if pending \<and> acc \<noteq> [] \<and> length acc < default_cache_name_max then acc @ ''-'' else acc"
    have len: "length ?acc \<le> default_cache_name_max" using Cons.prems by simp
    show ?thesis
    proof (cases "length ?acc = default_cache_name_max")
      case True
      then show ?thesis using \<open>is_name_char c\<close> Cons.prems by (auto simp: Let_def)
    next
      case False
      then have "length (?acc @ [c]) \<le> default_cache_name_max" using len by simp
      from Cons.IH [OF this] show ?thesis using False \<open>is_name_char c\<close> Cons.prems by (auto simp: Let_def)
    qed
  qed (use Cons in simp)
qed simp

lemma dashed_start: "dashed pending False cs = dashed True False cs"
  by (induction cs arbitrary: pending) simp_all

lemma dashed_drop: "dashed True started cs = dashed True started (dropWhile (\<lambda>c. \<not> is_name_char c) cs)"
  by (induction cs) simp_all

lemma dashed_take:
  "dashed False True cs = takeWhile is_name_char cs @ dashed True True (dropWhile is_name_char cs)"
  by (induction cs) simp_all

lemma join_dash_Cons: "join_dash (w # ws) = w @ (if ws = [] then [] else ''-'' @ join_dash ws)"
  by (cases ws) simp_all

lemma dashed_words:
  "dashed True started cs =
     (if started \<and> name_words cs \<noteq> [] then ''-'' else []) @ join_dash (name_words cs)"
proof (induction cs arbitrary: started rule: name_words.induct)
  case (1 s)
  show ?case
  proof (cases "dropWhile (\<lambda>c. \<not> is_name_char c) s")
    case Nil
    have "name_words s = []" unfolding name_words.simps [of s] Nil by simp
    moreover have "dashed True started s = []" unfolding dashed_drop [of started s] Nil by simp
    ultimately show ?thesis by simp
  next
    case (Cons c cs)
    then have c: "is_name_char c" by (metis hd_dropWhile list.discI list.sel(1))
    let ?word = "takeWhile is_name_char (c # cs)" and ?rest = "dropWhile is_name_char (c # cs)"
    have words: "name_words s = ?word # name_words ?rest"
      unfolding name_words.simps [of s] Cons by (simp only: list.case)
    have "dashed True started s = (if started then ''-'' else []) @ dashed False True (c # cs)"
      unfolding dashed_drop [of started s] Cons using c by simp
    also have "\<dots> = (if started then ''-'' else []) @ ?word @ dashed True True ?rest"
      by (simp only: dashed_take)
    finally show ?thesis
      unfolding words join_dash_Cons 1 [OF Cons, of True] by (simp add: join_dash_Cons)
  qed
qed

text \<open>
  The cache name is the sanitised thread name: its maximal runs of ASCII letters, digits and
  underscores, joined by single dashes, cut at 80 characters and freed of trailing dashes, or
  \<open>scenario\<close> when nothing is left.
\<close>

theorem sanitize_cache_name_words:
  "sanitize_cache_name raw =
     (let s = pop_dashes (take 80 (join_dash (name_words raw))) in if s = [] then ''scenario'' else s)"
  using sanitize_loop_dashed [of "[]" False raw] dashed_start [of False raw] dashed_words [of False raw]
  by (simp add: sanitize_cache_name_def default_cache_name_max_def)

subsection \<open>Safe file names\<close>

definition single_dashes :: "string \<Rightarrow> bool" where
  "single_dashes s = successively (\<lambda>a b. a \<noteq> CHR ''-'' \<or> b \<noteq> CHR ''-'') s"

definition tidy_name :: "string \<Rightarrow> bool" where
  "tidy_name s = (list_all (\<lambda>c. is_name_char c \<or> c = CHR ''-'') s \<and> single_dashes s \<and>
     (s \<noteq> [] \<longrightarrow> is_name_char (hd s)))"

lemma dash_no_name_char: "\<not> is_name_char CHR ''-''"
  by (simp add: is_name_char_def)

lemma tidy_name_step:
  assumes "tidy_name s" and "s \<noteq> [] \<Longrightarrow> is_name_char (last s)"
  shows "is_name_char c \<Longrightarrow> tidy_name (s @ [c])"
    and "s \<noteq> [] \<Longrightarrow> tidy_name (s @ ''-'')"
    and "s \<noteq> [] \<Longrightarrow> is_name_char c \<Longrightarrow> tidy_name (s @ ''-'' @ [c])"
  using assms dash_no_name_char
  by (auto simp: tidy_name_def single_dashes_def successively_append_iff hd_append)

lemma tidy_name_loop:
  assumes "tidy_name s" and "s \<noteq> [] \<Longrightarrow> is_name_char (last s)" and "length s \<le> default_cache_name_max"
  shows "tidy_name (sanitize_loop pending s cs) \<and> length (sanitize_loop pending s cs) \<le> default_cache_name_max"
  using assms
proof (induction cs arbitrary: s pending)
  case (Cons c cs)
  show ?case
  proof (cases "is_name_char c")
    case True
    let ?s = "if pending \<and> s \<noteq> [] \<and> length s < default_cache_name_max then s @ ''-'' else s"
    have s: "tidy_name ?s" "tidy_name (?s @ [c])" "length ?s \<le> default_cache_name_max"
      using tidy_name_step [OF Cons.prems(1,2)] Cons.prems True by (simp_all split: if_splits)
    have "tidy_name (sanitize_loop False (?s @ [c]) cs) \<and>
        length (sanitize_loop False (?s @ [c]) cs) \<le> default_cache_name_max"
      if "length ?s \<noteq> default_cache_name_max"
      using that s by (intro Cons.IH) (simp_all add: True)
    then show ?thesis using True s by (simp add: Let_def)
  qed (use Cons in simp)
qed simp

lemma pop_dashes_prefix: "\<exists>t. s = pop_dashes s @ t"
proof (induction s rule: pop_dashes.induct)
  case (1 s)
  show ?case
  proof (cases "s \<noteq> [] \<and> last s = CHR ''-''")
    case True
    obtain t where "butlast s = pop_dashes (butlast s) @ t" using 1 [OF True] by blast
    then have "s = pop_dashes (butlast s) @ t @ [last s]"
      using True append_butlast_last_id [of s] by (metis append.assoc)
    then show ?thesis using True pop_dashes.simps [of s] by auto
  qed (auto simp: pop_dashes.simps [of s])
qed

lemma pop_dashes_last: "pop_dashes s \<noteq> [] \<Longrightarrow> last (pop_dashes s) \<noteq> CHR ''-''"
proof (induction s rule: pop_dashes.induct)
  case (1 s)
  then show ?case by (cases "s \<noteq> [] \<and> last s = CHR ''-''") (simp_all add: pop_dashes.simps [of s])
qed

lemma tidy_name_prefix: "tidy_name (s @ t) \<Longrightarrow> tidy_name s"
  by (auto simp: tidy_name_def single_dashes_def successively_append_iff)

lemma tidy_name_last: "tidy_name s \<Longrightarrow> s \<noteq> [] \<Longrightarrow> last s \<noteq> CHR ''-'' \<Longrightarrow> is_name_char (last s)"
  by (auto simp: tidy_name_def list_all_iff)

lemma sanitize_cache_name_tidy:
  fixes raw :: string
  defines "human \<equiv> sanitize_cache_name raw"
  shows "tidy_name human \<and> human \<noteq> [] \<and> length human \<le> default_cache_name_max \<and> is_name_char (last human)"
proof -
  let ?s = "sanitize_loop False [] raw"
  have s: "tidy_name ?s \<and> length ?s \<le> default_cache_name_max"
    by (rule tidy_name_loop) (simp_all add: tidy_name_def single_dashes_def)
  obtain t where t: "?s = pop_dashes ?s @ t" using pop_dashes_prefix by blast
  then have "tidy_name (pop_dashes ?s)" using s tidy_name_prefix by metis
  moreover have "length (pop_dashes ?s) \<le> default_cache_name_max"
    using s arg_cong [OF t, of length] by simp
  moreover have "tidy_name ''scenario''" "is_name_char (last ''scenario'')"
    by (simp_all add: tidy_name_def single_dashes_def is_name_char_def)
  ultimately show ?thesis
    using pop_dashes_last [of ?s] tidy_name_last [of "pop_dashes ?s"]
    by (auto simp: human_def sanitize_cache_name_def Let_def default_cache_name_max_def)
qed

lemma hex_digit_name_char: "(n :: byte) < 16 \<Longrightarrow> is_name_char (hex_digit n)"
  using unat_hex_digit [of n] by (simp add: is_name_char_def unat_of_char_byte word_less_nat_alt split: if_splits)

lemma hex_byte_name_chars: "length (hex_byte b) = 2 \<and> list_all is_name_char (hex_byte b)"
  by (simp add: hex_byte_def hex_digit_name_char nibbles_less)

lemma hex_name_chars: "length (hex bs) = 2 * length bs \<and> list_all is_name_char (hex bs)"
  by (induction bs) (simp_all add: hex_def hex_byte_name_chars)

lemma no_slash: "list_all (\<lambda>c. is_name_char c \<or> c = CHR ''-'') s \<Longrightarrow> CHR ''/'' \<notin> set s"
  by (auto simp: list_all_iff is_name_char_def)

text \<open>
  C26. Whatever the thread is called, the default cache is a file directly inside \<open>.kanatoko\<close>: its
  name is at most 98 characters, holds no path separator and does not start with a dot or a dash,
  and the part before the hash is 1 to 80 letters, digits, underscores and single dashes that
  neither starts nor ends with a dash.
\<close>

theorem default_cache_path_safe:
  "let path = default_cache_path X passphrase thread caller line column;
       human = sanitize_cache_name thread in
   \<exists>name suffix. fp_name path = Some name \<and> fp_parent path = Some ''.kanatoko'' \<and>
     fp_text path = ''.kanatoko/'' @ name \<and> name = human @ ''-'' @ suffix \<and>
     length name \<le> 98 \<and> CHR ''/'' \<notin> set name \<and> is_name_char (hd name) \<and>
     0 < length human \<and> length human \<le> 80 \<and> is_name_char (hd human) \<and> is_name_char (last human) \<and>
     list_all (\<lambda>c. is_name_char c \<or> c = CHR ''-'') human \<and> single_dashes human"
proof -
  let ?short = "hex (take 6 (sha256 X (cache_preimage passphrase thread caller line column)))"
  have short: "length ?short \<le> 12" "list_all is_name_char ?short"
    using hex_name_chars by (simp_all add: list_all_iff)
  have human: "tidy_name (sanitize_cache_name thread)" "sanitize_cache_name thread \<noteq> []"
    "length (sanitize_cache_name thread) \<le> 80" "is_name_char (last (sanitize_cache_name thread))"
    using sanitize_cache_name_tidy [of thread] by (simp_all add: default_cache_name_max_def)
  have "CHR ''/'' \<notin> set (sanitize_cache_name thread)" "CHR ''/'' \<notin> set ?short"
    using human(1) short(2) by (auto simp: tidy_name_def list_all_iff intro!: no_slash dest: bspec)
  then show ?thesis using human short(1)
    by (simp add: Let_def default_cache_path_def cache_file_name_def default_cache_hash_hex_def
        tidy_name_def hd_append)
qed

end
