(* ===== verification/Call_Bounds.thy ===== *)
theory Call_Bounds
  imports Materialize
begin

text \<open>
  How often the RPC is asked: the transport with a counter beside its state. Counting changes no
  result, and reading one coherent ledger asks at most a number of times that depends on the
  attempts and the number of keys only.
\<close>

definition count_call :: "('w, 'e, 'a) act \<Rightarrow> ('w \<times> nat, 'e, 'a) act" where
  "count_call m = (\<lambda>(w, n). case m w of (r, w') \<Rightarrow> (r, (w', n + 1)))"

definition counted_transport :: "'w transport \<Rightarrow> ('w \<times> nat) transport" where
  "counted_transport tr =
     \<lparr> tr_network = count_call (tr_network tr), tr_latest_ledger = count_call (tr_latest_ledger tr),
       tr_ledger_entries = (\<lambda>keys. count_call (tr_ledger_entries tr keys)) \<rparr>"

definition counted_builder :: "'w capture_builder \<Rightarrow> ('w \<times> nat) capture_builder" where
  "counted_builder B =
     \<lparr> cb_network_passphrase = cb_network_passphrase B, cb_rpc_origin = cb_rpc_origin B,
       cb_transport = counted_transport (cb_transport B), cb_protocol_policy = cb_protocol_policy B,
       cb_max_coherence_attempts = cb_max_coherence_attempts B,
       cb_max_discovery_rounds = cb_max_discovery_rounds B \<rparr>"

lemma counted_parts [simp]:
  "cb_transport (counted_builder B) = counted_transport (cb_transport B)"
  "cb_network_passphrase (counted_builder B) = cb_network_passphrase B"
  "cb_protocol_policy (counted_builder B) = cb_protocol_policy B"
  "cb_max_coherence_attempts (counted_builder B) = cb_max_coherence_attempts B"
  "tr_latest_ledger (counted_transport tr) = count_call (tr_latest_ledger tr)"
  "tr_ledger_entries (counted_transport tr) keys = count_call (tr_ledger_entries tr keys)"
  by (simp_all add: counted_builder_def counted_transport_def)

text \<open>The counted action does what the plain one does and adds at most \<open>k\<close> to the counter.\<close>

definition costs :: "nat \<Rightarrow> ('w, 'e, 'a) act \<Rightarrow> ('w \<times> nat, 'e, 'a) act \<Rightarrow> bool" where
  "costs k m m' \<longleftrightarrow> (\<forall>w n r w'. m w = (r, w') \<longrightarrow> (\<exists>j\<le>k. m' (w, n) = (r, (w', n + j))))"

lemma costsD: "costs k m m' \<Longrightarrow> m w = (r, w') \<Longrightarrow> \<exists>j\<le>k. m' (w, n) = (r, (w', n + j))"
  unfolding costs_def by blast

lemma costs_call: "costs 1 m (count_call m)"
  by (auto simp: costs_def count_call_def)

lemma costs_free: "costs 0 (sret x) (sret x)" "costs 0 (sfail e) (sfail e)" "costs 0 (slift r) (slift r)"
  by (simp_all add: costs_def sret_def sfail_def slift_def)

lemma costs_map_err: "costs k m m' \<Longrightarrow> costs k (smap_err h m) (smap_err h m')"
  unfolding costs_def
proof (intro allI impI)
  fix w n r w'
  assume c: "\<forall>w n r w'. m w = (r, w') \<longrightarrow> (\<exists>j\<le>k. m' (w, n) = (r, (w', n + j)))" and run: "smap_err h m w = (r, w')"
  obtain x where x: "m w = (x, w')" "r = map_err h x" using run by (auto simp: smap_err_def split: prod.splits)
  then obtain j where "j \<le> k" "m' (w, n) = (x, (w', n + j))" using c by blast
  then show "\<exists>j\<le>k. smap_err h m' (w, n) = (r, (w', n + j))" using x(2) by (auto simp: smap_err_def)
qed

lemma costs_bind:
  assumes "costs a m m'" and "\<And>x. costs b (f x) (f' x)"
  shows "costs (a + b) (sbind m f) (sbind m' f')"
  unfolding costs_def
proof (intro allI impI)
  fix w n r w'
  assume run: "sbind m f w = (r, w')"
  obtain x w1 where m: "m w = (x, w1)" by fastforce
  obtain j where j: "j \<le> a" "m' (w, n) = (x, (w1, n + j))" using costsD [OF assms(1) m] by blast
  show "\<exists>j\<le>a + b. sbind m' f' (w, n) = (r, (w', n + j))"
  proof (cases x)
    case (Inl e)
    then show ?thesis using run m j by (intro exI [of _ j]) (simp add: sbind_def)
  next
    case (Inr y)
    then have "f y w1 = (r, w')" using run m by (simp add: sbind_def)
    then obtain i where "i \<le> b" "f' y (w1, n + j) = (r, (w', n + j + i))" using costsD [OF assms(2)] by blast
    then show ?thesis using Inr j by (intro exI [of _ "j + i"]) (simp add: sbind_def)
  qed
qed

lemma costs_more: "costs a m m' \<Longrightarrow> a \<le> b \<Longrightarrow> costs b m m'"
  unfolding costs_def by (meson le_trans)

lemma costs_if: "costs a m m' \<Longrightarrow> costs a n n' \<Longrightarrow> costs a (if c then m else n) (if c then m' else n')"
  by simp

lemmas costs_intros = costs_call costs_free costs_map_err costs_bind costs_if

subsection \<open>Reading one ledger\<close>

lemma fetch_batches_costs:
  "costs (length cs) (fetch_batches X tr sequence config_id cs acc)
     (fetch_batches X (counted_transport tr) sequence config_id cs acc)"
proof (induction cs arbitrary: acc)
  case Nil
  then show ?case by (simp add: costs_free)
next
  case (Cons chunk cs)
  have "costs (1 + (0 + (0 + length cs)))
      (fetch_batches X tr sequence config_id (chunk # cs) acc)
      (fetch_batches X (counted_transport tr) sequence config_id (chunk # cs) acc)"
    unfolding fetch_batches.simps counted_parts
    by (intro costs_bind costs_map_err costs_call costs_if costs_free Cons.IH costs_more [OF costs_free(1)]) simp
  then show ?case by simp
qed

lemma coherence_costs:
  "costs (attempts * (2 + length (chunks max_keys_per_batch requested)))
     (coherence_loop X B config_id requested attempts)
     (coherence_loop X (counted_builder B) config_id requested attempts)"
proof (induction attempts)
  case 0
  then show ?case by (simp add: costs_free)
next
  case (Suc attempts)
  let ?n = "length (chunks max_keys_per_batch requested)" and ?rest = "attempts * (2 + length (chunks max_keys_per_batch requested))"
  have "costs (1 + (0 + (?n + (1 + ?rest))))
      (coherence_loop X B config_id requested (Suc attempts))
      (coherence_loop X (counted_builder B) config_id requested (Suc attempts))"
    unfolding coherence_loop.simps Let_def counted_parts check_protocol_def finish_attempt_def
    by (intro costs_bind costs_map_err costs_call costs_if costs_free Suc.IH fetch_batches_costs
        costs_more [OF costs_free(3)]) simp
  then show ?case by (simp add: algebra_simps)
qed

lemma length_chunks: "0 < n \<Longrightarrow> length (chunks n xs) = (length xs + n - 1) div n"
proof (induction n xs rule: chunks.induct)
  case (1 n xs)
  show ?case
  proof (cases "xs = []")
    case False
    then have "length (chunks n xs) = Suc ((length (drop n xs) + n - 1) div n)"
      using 1 by simp
    also have "\<dots> = (length xs + n - 1) div n"
    proof (cases "length xs \<le> n")
      case True
      then obtain k where "length xs = Suc k" "k < n" using False by (cases xs) auto
      then have "(length xs + n - 1) div n = 1" using div_add_self2 [of n k] 1(2) by (simp add: add.commute)
      then show ?thesis using True 1(2) by simp
    next
      case False
      then obtain k where "length xs = n + k" by (metis le_add_diff_inverse nat_le_linear)
      then have "length xs + n - 1 = n + (n + k - 1)" "length (drop n xs) + n - 1 = n + k - 1" using 1(2) by simp_all
      then show ?thesis using div_add_self1 [of n "n + k - 1"] 1(2) by simp
    qed
    finally show ?thesis .
  qed (use 1(2) in simp)
qed

lemma length_bm_insert: "length (bm_insert k v m) \<le> Suc (length m)"
  by (induction k v m rule: bm_insert.induct) auto

text \<open>
  C22. Materialising ends after a bounded number of requests: whatever the server answers, however its
  ledgers move, reading one coherent ledger asks the transport at most twice for the anchor and
  once per started 200 keys (the settings included) in each of at most \<open>max_coherence_attempts\<close>
  attempts; counting the requests changes nothing.
\<close>

theorem materialize_request_bound:
  "\<exists>calls \<le> cb_max_coherence_attempts B * (2 + (length keys + 200) div 200).
     materialize X (counted_builder B) keys (w, 0) =
       (fst (materialize X B keys w), (snd (materialize X B keys w), calls))"
proof -
  have "costs (0 + cb_max_coherence_attempts B * (2 + (length keys + 200) div 200))
      (materialize X B keys) (materialize X (counted_builder B) keys)"
    unfolding materialize_def counted_parts
  proof (intro costs_bind costs_free)
    fix config_id
    let ?requested = "bm_insert config_id state_archival_key keys"
    have "length (chunks max_keys_per_batch ?requested) \<le> (length keys + 200) div 200"
      using length_bm_insert [of config_id state_archival_key keys]
      by (simp add: length_chunks max_keys_per_batch_def div_le_mono)
    then show "costs (cb_max_coherence_attempts B * (2 + (length keys + 200) div 200))
        (coherence_loop X B config_id ?requested (cb_max_coherence_attempts B))
        (coherence_loop X (counted_builder B) config_id ?requested (cb_max_coherence_attempts B))"
      by (intro costs_more [OF coherence_costs]) simp
  qed
  then obtain calls where "calls \<le> cb_max_coherence_attempts B * (2 + (length keys + 200) div 200)"
      "materialize X (counted_builder B) keys (w, 0) =
       (fst (materialize X B keys w), (snd (materialize X B keys w), 0 + calls))"
    unfolding costs_def by (metis add_0 prod.collapse)
  then show ?thesis by auto
qed

end
