(* ===== verification/Bundle_Fork.thy ===== *)
theory Bundle_Fork
  imports Strict_History Bundle_File
begin

text \<open>
  A strict fork made from a bundle that was read, whoever wrote it: the checks of \<open>from_bundle\<close> and
  \<open>from_legacy_bundle\<close> (\<open>src/capture.rs\<close>) are enough for the invariant of \<open>Strict_Invariant\<close>.
\<close>

lemma fst_keyed_value: "fst (keyed_value X x) = the (key_to_xdr X (fst x))"
  and fst_encoded: "fst (encoded X x) = the (key_to_xdr X (fst x))"
  by (cases x; simp add: keyed_value_def encoded_def)+

lemma covered_at_insert:
  "bm_ok cov \<Longrightarrow> covered_at (bm_insert i state cov) = (covered_at cov)(i := (case state of
     Present e l \<Rightarrow> Some \<lparr> lv_entry = e, lv_live_until_ledger = l \<rparr> | Absent \<Rightarrow> None))"
  by (auto simp: covered_at_def bm_get_insert fun_eq_iff split: lookup_state.split)

lemma cover_present_fold:
  assumes "try_fold (cover_present X) acc es = Inr cov" and "bm_ok acc" and "list_all (entry_ok X) es"
    and "distinct (map fst (map (keyed_value X) es))"
  shows "bm_ok cov \<and> (\<forall>i. covered_at cov i =
    (case map_of (map (keyed_value X) es) i of Some (key, v) \<Rightarrow> Some v | None \<Rightarrow> covered_at acc i))"
  using assms
proof (induction es arbitrary: acc)
  case (Cons x es)
  obtain key entry live_until where x: "x = (key, (entry, live_until))" by (metis prod.exhaust)
  obtain i where i: "key_to_xdr X key = Some i" "key = to_key X entry"
    using Cons.prems(3) by (auto simp: x entry_ok_def)
  obtain acc1 where step: "cover_present X acc x = Inr acc1" "try_fold (cover_present X) acc1 es = Inr cov"
    using Cons.prems(1) by auto
  then have acc1: "acc1 = bm_insert i (Present entry live_until) acc"
    using i by (auto simp: x cover_present_def Let_def split: if_splits)
  have "map_of (map (keyed_value X) es) i = None"
    using Cons.prems(4) i by (auto simp: x map_of_eq_None_iff fst_keyed_value o_def image_image)
  then show ?case
    using Cons.IH [OF step(2)] Cons.prems(2-4) i
    by (auto simp: acc1 x keyed_value_def bm_ok_insert covered_at_insert split: option.splits)
qed simp

lemma cover_absent_fold:
  assumes "try_fold (cover_absent X) (previous, acc) encodeds = Inr (p, cov)" and "bm_ok acc"
  shows "bm_ok cov \<and> covered_at cov = covered_at acc"
  using assms
proof (induction encodeds arbitrary: previous acc)
  case (Cons x encodeds)
  then obtain i where i: "bm_get acc i = None"
      "try_fold (cover_absent X) (Some i, bm_insert i Absent acc) encodeds = Inr (p, cov)"
    by (auto simp: cover_absent_def split: if_splits option.splits)
  then have "covered_at (bm_insert i Absent acc) = covered_at acc"
    using Cons.prems(2) by (auto simp: covered_at_insert covered_at_def fun_eq_iff)
  then show ?case using Cons.IH [OF i(2)] Cons.prems(2) by (simp add: bm_ok_insert)
qed simp

lemma bundle_coverage_mirrors:
  assumes "canonical_ledger_digest X s = Inr d" and "bundle_coverage X s known_absent = Inr cov"
  shows "mirrors X cov s"
proof -
  have "list_all (entry_ok X) (sn_ledger_entries s) \<and> distinct (map fst (map (encoded X) (sn_ledger_entries s)))"
    using assms(1) by (auto simp: canonical_ledger_digest_def sorted_entries_Inr bm_ok_sort_key)
  then have entries: "list_all (entry_ok X) (sn_ledger_entries s)"
      "distinct (map fst (map (keyed_value X) (sn_ledger_entries s)))"
    by (simp_all add: fst_encoded fst_keyed_value o_def)
  obtain acc p where folds: "try_fold (cover_present X) [] (sn_ledger_entries s) = Inr acc"
      "try_fold (cover_absent X) (None, acc) known_absent = Inr (p, cov)"
    using assms(2) by (auto simp: bundle_coverage_def)
  note present = cover_present_fold [OF folds(1) bm_ok_Nil entries]
  have "bm_ok cov" "covered_at cov = covered_at acc" using cover_absent_fold [OF folds(2)] present by simp_all
  moreover have "covered_at acc = value_at (bm_of_list (map (keyed_value X) (sn_ledger_entries s)))"
    using present entries(2)
    by (auto simp: value_at_def bm_of_list_get_distinct covered_at_def fun_eq_iff split: option.splits)
  moreover have "snapshot_map X s = Inr (bm_of_list (map (keyed_value X) (sn_ledger_entries s)))"
    using entries(1) by (auto simp: snapshot_map_Inr list_all_iff entry_ok_def)
  ultimately show ?thesis by (simp add: mirrors_def)
qed

lemma loaded_mirrors:
  assumes "from_bundle_bytes X J bs passphrase policy = Inr c"
  shows "canonical_ledger_digest X (ff_snapshot (cf_fixture c)) = Inr (ff_ledger_digest (cf_fixture c)) \<and>
    mirrors X (cf_coverage c) (ff_snapshot (cf_fixture c))"
proof -
  have current: "\<exists>s fixture known_absent. from_snapshot_with_policy X s passphrase policy = Inr fixture \<and>
      bundle_coverage X (ff_snapshot fixture) known_absent = Inr (cf_coverage c) \<and> cf_fixture c = fixture"
    if "from_bundle X b passphrase policy = Inr c" for b
    using that by (auto simp: from_bundle_def rebuild_def split: if_splits)
  have legacy: "\<exists>s fixture known_absent. from_snapshot_with_policy X s passphrase policy = Inr fixture \<and>
      bundle_coverage X (ff_snapshot fixture) known_absent = Inr (cf_coverage c) \<and> cf_fixture c = fixture"
    if "from_legacy_bundle X J b passphrase policy = Inr c" for b
    using that by (auto simp: from_legacy_bundle_def rebuild_def split: if_splits)
  obtain s fixture known_absent where c: "from_snapshot_with_policy X s passphrase policy = Inr fixture"
      "bundle_coverage X (ff_snapshot fixture) known_absent = Inr (cf_coverage c)" "cf_fixture c = fixture"
  proof -
    have "(\<exists>b. from_bundle X b passphrase policy = Inr c) \<or> (\<exists>b. from_legacy_bundle X J b passphrase policy = Inr c)"
      using assms by (auto simp: from_bundle_bytes_def split: if_splits)
    then show thesis using that current legacy by blast
  qed
  have "canonical_ledger_digest X (ff_snapshot fixture) = Inr (ff_ledger_digest fixture)"
    using accepted_snapshot(1,2) [OF c(1)] by simp
  then show ?thesis using bundle_coverage_mirrors c(2,3) by blast
qed

lemma loaded_fork_ok:
  assumes "sdk_laws X S" and "ledger_info_laws X" and "from_bundle_bytes X J bs passphrase policy = Inr c"
    and "captured_fork X S c counter = (Some f, counter')"
  shows "fork_ok X S f \<and> strict_ledger_digest X S f = Inr (ff_ledger_digest (cf_fixture c))"
  using mirrored_fork_ok [OF assms(1,2) _ _ assms(4)] loaded_mirrors [OF assms(3)] by blast

text \<open>
  C20. Reading a bundle is enough to trust the fork made of it: whatever bytes \<open>from_file\<close> accepted,
  of this or the legacy format, the fork starts with exactly the ledger whose digest was checked,
  and after any sequence of invocations, installations, checkpoints and reverts its coverage still
  holds exactly the entries of its ledger, at the network's protocol version.
\<close>

theorem loaded_bundle_forks:
  assumes "sdk_laws X (h_sdk H)" and "ledger_info_laws X" and "host_laws H"
    and "from_bundle_bytes X J bs passphrase policy = Inr c"
    and "captured_fork X (h_sdk H) c counter = (Some f0, counter')"
    and "strict_history X H f0 f checkpoints"
  shows "strict_ledger_digest X (h_sdk H) f0 = Inr (ff_ledger_digest (cf_fixture c)) \<and>
    mirrors X (sf_coverage f) (strict_ledger_snapshot X (h_sdk H) f) \<and>
    (\<exists>d. strict_ledger_digest X (h_sdk H) f = Inr d) \<and>
    sn_protocol_version (strict_ledger_snapshot X (h_sdk H) f) = sf_network_protocol_version f0"
proof -
  have start: "fork_ok X (h_sdk H) f0"
      "strict_ledger_digest X (h_sdk H) f0 = Inr (ff_ledger_digest (cf_fixture c))"
    using loaded_fork_ok [OF assms(1,2,4,5)] by simp_all
  from strict_history_keeps [OF assms(6,1,2,3) start(1)] start(2)
  show ?thesis by (auto simp: fork_ok_def ledger_ok_for_def strict_ledger_digest_def)
qed

end
