(* ===== verification/Cli_Options.thy ===== *)
theory Cli_Options
  imports Hex_Codec
begin

text \<open>
  The command lines of the two tools: \<open>Options::parse\<close>, \<open>parse_hash\<close> and their helpers of
  \<open>tools/kanatoko.rs\<close> and \<open>tools/capture_aquarius_xlm_usdc_cp.rs\<close>. The arguments are those after
  the program's name; a path is its text. What the main tool accepts is compared with a grammar of
  its command line (\<open>command_line\<close>).
\<close>

datatype cli_error =
    Expected_Scenario
  | Unsupported_Scenario string
  | Option_Needs_Value string
  | Unknown_Capture_Option string
  | Unknown_Run_Option string
  | Unsupported_Format string
  | Candidate_Needs_Both
  | Unknown_Command string
  | Hash_Not_64_Hex
  | Hash_Not_Canonical
  | Hash_Invalid_Digit
  | Unknown_Argument string

definition cli_default_rpc_url :: string where
  "cli_default_rpc_url = ''https://mainnet.sorobanrpc.com''"

definition default_bundle :: string where
  "default_bundle = ''fixtures/mainnet/aquarius-xlm-usdc-cp/capture.json''"

subsection \<open>Hashes\<close>

definition cli_hex_nibble :: "byte \<Rightarrow> cli_error + byte" where
  "cli_hex_nibble v =
     (if 48 \<le> v \<and> v \<le> 57 then Inr (v - 48)
      else if 97 \<le> v \<and> v \<le> 102 then Inr (v - 97 + 10)
      else Inl Hash_Invalid_Digit)"

fun parse_hash_pairs :: "bytes \<Rightarrow> cli_error + bytes" where
  "parse_hash_pairs (h # l # rest) =
     and_then (cli_hex_nibble h) (\<lambda>high.
     and_then (cli_hex_nibble l) (\<lambda>low.
     and_then (parse_hash_pairs rest) (\<lambda>bs. Inr ((push_bit 4 high OR low) # bs))))"
| "parse_hash_pairs _ = Inr []"

definition parse_hash :: "string \<Rightarrow> cli_error + bytes" where
  "parse_hash value =
     (if length value \<noteq> 64 \<or> \<not> is_ascii value then Inl Hash_Not_64_Hex
      else and_then (parse_hash_pairs (str_bytes value)) (\<lambda>hash.
        if hex hash \<noteq> value then Inl Hash_Not_Canonical else Inr hash))"

subsection \<open>The main tool\<close>

datatype output_format = Text_Format | Json_Format

datatype candidate_artifact = Bundled | Candidate_File string bytes

datatype cli_options =
    Help
  | Capture_Command string string bool
  | Run_Command string candidate_artifact output_format bool

fun capture_options :: "string list \<Rightarrow> string \<Rightarrow> string \<Rightarrow> bool \<Rightarrow> cli_error + cli_options" where
  "capture_options [] rpc_url bundle_path allow_newer_protocol =
     Inr (Capture_Command rpc_url bundle_path allow_newer_protocol)"
| "capture_options (option # args) rpc_url bundle_path allow_newer_protocol =
     (if option = ''--rpc-url'' then
        (case args of [] \<Rightarrow> Inl (Option_Needs_Value option)
         | v # args' \<Rightarrow> capture_options args' v bundle_path allow_newer_protocol)
      else if option = ''--bundle'' then
        (case args of [] \<Rightarrow> Inl (Option_Needs_Value option)
         | v # args' \<Rightarrow> capture_options args' rpc_url v allow_newer_protocol)
      else if option = ''--allow-newer-protocol'' then capture_options args rpc_url bundle_path True
      else Inl (Unknown_Capture_Option option))"

record run_draft =
  rd_fixture :: string
  rd_candidate_path :: "string option"
  rd_candidate_hash :: "bytes option"
  rd_format :: output_format
  rd_allow_newer_protocol :: bool

definition parse_format :: "string \<Rightarrow> cli_error + output_format" where
  "parse_format v =
     (if v = ''json'' then Inr Json_Format
      else if v = ''text'' then Inr Text_Format
      else Inl (Unsupported_Format v))"

fun run_options :: "string list \<Rightarrow> run_draft \<Rightarrow> cli_error + run_draft" where
  "run_options [] d = Inr d"
| "run_options (option # args) d =
     (if option = ''--allow-newer-protocol'' then run_options args (d\<lparr>rd_allow_newer_protocol := True\<rparr>)
      else if option = ''--fixture'' \<or> option = ''--bundle'' then
        (case args of [] \<Rightarrow> Inl (Option_Needs_Value option)
         | v # args' \<Rightarrow> run_options args' (d\<lparr>rd_fixture := v\<rparr>))
      else if option = ''--candidate-wasm'' then
        (case args of [] \<Rightarrow> Inl (Option_Needs_Value option)
         | v # args' \<Rightarrow> run_options args' (d\<lparr>rd_candidate_path := Some v\<rparr>))
      else if option = ''--candidate-sha256'' then
        (case args of [] \<Rightarrow> Inl (Option_Needs_Value option)
         | v # args' \<Rightarrow> (case parse_hash v of
             Inl e \<Rightarrow> Inl e | Inr h \<Rightarrow> run_options args' (d\<lparr>rd_candidate_hash := Some h\<rparr>)))
      else if option = ''--format'' then
        (case args of [] \<Rightarrow> Inl (Option_Needs_Value option)
         | v # args' \<Rightarrow> (case parse_format v of
             Inl e \<Rightarrow> Inl e | Inr f \<Rightarrow> run_options args' (d\<lparr>rd_format := f\<rparr>)))
      else Inl (Unknown_Run_Option option))"

definition finish_run_options :: "run_draft \<Rightarrow> cli_error + cli_options" where
  "finish_run_options d =
     and_then (case (rd_candidate_path d, rd_candidate_hash d) of
         (None, None) \<Rightarrow> Inr Bundled
       | (Some path, Some digest) \<Rightarrow> Inr (Candidate_File path digest)
       | _ \<Rightarrow> Inl Candidate_Needs_Both)
       (\<lambda>candidate. Inr (Run_Command (rd_fixture d) candidate (rd_format d) (rd_allow_newer_protocol d)))"

definition run_draft_new :: run_draft where
  "run_draft_new = \<lparr> rd_fixture = default_bundle, rd_candidate_path = None, rd_candidate_hash = None,
     rd_format = Text_Format, rd_allow_newer_protocol = False \<rparr>"

definition parse_options :: "string list \<Rightarrow> cli_error + cli_options" where
  "parse_options args =
     (case args of
        [] \<Rightarrow> Inr Help
      | command # args \<Rightarrow>
          if command = ''help'' \<or> command = ''--help'' \<or> command = ''-h'' then Inr Help
          else (case args of
             [] \<Rightarrow> Inl Expected_Scenario
           | scenario # args \<Rightarrow>
               if scenario \<noteq> ''aquarius-cp'' then Inl (Unsupported_Scenario scenario)
               else if command = ''capture'' then capture_options args cli_default_rpc_url default_bundle False
               else if command = ''run'' then and_then (run_options args run_draft_new) finish_run_options
               else Inl (Unknown_Command command)))"

subsection \<open>The capture tool\<close>

datatype tool_mode = Tool_Capture string string | Tool_Replay string

definition default_output_dir :: string where
  "default_output_dir = ''fixtures/mainnet/aquarius-xlm-usdc-cp''"

text \<open>\<open>Path::join\<close> with a relative file name.\<close>

definition path_join :: "string \<Rightarrow> string \<Rightarrow> string" where
  "path_join dir file_name =
     (if dir = [] \<or> last dir = CHR ''/'' then dir @ file_name else dir @ ''/'' @ file_name)"

record tool_draft =
  td_rpc_url :: string
  td_bundle_path :: string
  td_replay_path :: "string option"
  td_allow_newer_protocol :: bool

fun tool_options :: "string list \<Rightarrow> tool_draft \<Rightarrow> cli_error + tool_draft" where
  "tool_options [] d = Inr d"
| "tool_options (argument # args) d =
     (if argument = ''--allow-newer-protocol'' then tool_options args (d\<lparr>td_allow_newer_protocol := True\<rparr>)
      else if argument = ''--rpc-url'' then
        (case args of [] \<Rightarrow> Inl (Option_Needs_Value argument)
         | v # args' \<Rightarrow> tool_options args' (d\<lparr>td_rpc_url := v\<rparr>))
      else if argument = ''--bundle'' then
        (case args of [] \<Rightarrow> Inl (Option_Needs_Value argument)
         | v # args' \<Rightarrow> tool_options args' (d\<lparr>td_bundle_path := v\<rparr>))
      else if argument = ''--out-dir'' then
        (case args of [] \<Rightarrow> Inl (Option_Needs_Value argument)
         | v # args' \<Rightarrow> tool_options args' (d\<lparr>td_bundle_path := path_join v ''capture.json''\<rparr>))
      else if argument = ''--replay'' then
        (case args of [] \<Rightarrow> Inl (Option_Needs_Value argument)
         | v # args' \<Rightarrow> tool_options args' (d\<lparr>td_replay_path := Some v\<rparr>))
      else Inl (Unknown_Argument argument))"

definition tool_draft_new :: tool_draft where
  "tool_draft_new = \<lparr> td_rpc_url = cli_default_rpc_url, td_bundle_path = path_join default_output_dir ''capture.json'',
     td_replay_path = None, td_allow_newer_protocol = False \<rparr>"

definition parse_tool_options :: "string list \<Rightarrow> cli_error + (tool_mode \<times> bool)" where
  "parse_tool_options args =
     and_then (tool_options args tool_draft_new) (\<lambda>d.
       Inr (case td_replay_path d of
           None \<Rightarrow> Tool_Capture (td_rpc_url d) (td_bundle_path d)
         | Some bundle_path \<Rightarrow> Tool_Replay bundle_path, td_allow_newer_protocol d))"

subsection \<open>What the main tool accepts\<close>

definition render_format :: "output_format \<Rightarrow> string" where
  "render_format f = (case f of Json_Format \<Rightarrow> ''json'' | Text_Format \<Rightarrow> ''text'')"

definition render_flag :: "bool \<Rightarrow> string list" where
  "render_flag b = (if b then [''--allow-newer-protocol''] else [])"

primrec render_options :: "cli_options \<Rightarrow> string list" where
  "render_options Help = [''help'']"
| "render_options (Capture_Command url bundle_path allow) =
     [''capture'', ''aquarius-cp'', ''--rpc-url'', url, ''--bundle'', bundle_path] @ render_flag allow"
| "render_options (Run_Command fixture candidate format allow) =
     [''run'', ''aquarius-cp'', ''--fixture'', fixture] @
     (case candidate of
        Bundled \<Rightarrow> []
      | Candidate_File path digest \<Rightarrow> [''--candidate-wasm'', path, ''--candidate-sha256'', hex digest]) @
     [''--format'', render_format format] @ render_flag allow"

definition options_ok :: "cli_options \<Rightarrow> bool" where
  "options_ok opts =
     (case opts of Run_Command fixture (Candidate_File path digest) format allow \<Rightarrow> length digest = 32 | _ \<Rightarrow> True)"

lemma cli_hex_nibble_Inr: "cli_hex_nibble v = Inr n \<longleftrightarrow> decode_hex_nibble v = Inr n"
  by (simp add: cli_hex_nibble_def decode_hex_nibble_def)

lemma parse_hash_pairs_Inr: "parse_hash_pairs bs = Inr h \<longleftrightarrow> decode_hex_pairs bs = Inr h"
  by (induction bs arbitrary: h rule: parse_hash_pairs.induct) (auto simp: cli_hex_nibble_Inr)

lemma parse_hash_Inr: "parse_hash v = Inr h \<longleftrightarrow> decode_hex_digest v = Inr h"
  using parse_hash_pairs_Inr [of "str_bytes v"]
  by (auto simp: parse_hash_def decode_hex_digest_def)

lemma parse_format_render: "parse_format (render_format f) = Inr f"
  by (cases f) (simp_all add: parse_format_def render_format_def)

lemma run_options_hash:
  "run_options args d = Inr d' \<Longrightarrow> (\<forall>h. rd_candidate_hash d = Some h \<longrightarrow> length h = 32) \<Longrightarrow>
     rd_candidate_hash d' = Some h \<Longrightarrow> length h = 32"
proof (induction args d rule: run_options.induct)
  case (2 option args d)
  have hash: "length k = 32" if "parse_hash v = Inr k" for v k
    using that by (simp add: parse_hash_Inr decode_hex_digest_iff)
  show ?case using 2 hash by (auto split: if_splits list.splits sum.splits)
qed simp

lemma capture_options_command:
  "capture_options args rpc_url bundle_path allow = Inr opts \<Longrightarrow> options_ok opts"
proof (induction args rpc_url bundle_path allow rule: capture_options.induct)
  case (2 option args rpc_url bundle_path allow)
  then show ?case by (simp split: if_split_asm list.split_asm)
qed (auto simp: options_ok_def)

lemma parse_options_ok:
  assumes "parse_options args = Inr opts"
  shows "options_ok opts"
proof -
  have run: "options_ok opts" if "run_options as run_draft_new = Inr d" "finish_run_options d = Inr opts" for as d
    using run_options_hash [OF that(1)] that(2)
    by (auto simp: run_draft_new_def finish_run_options_def options_ok_def split: option.splits prod.splits)
  have "options_ok Help" by (simp add: options_ok_def)
  then show ?thesis using assms run
    by (auto simp: parse_options_def intro: capture_options_command split: list.splits if_splits)
qed

lemma run_options_flag:
  "run_options (render_flag b) d = Inr (if b then d\<lparr>rd_allow_newer_protocol := True\<rparr> else d)"
  by (simp add: render_flag_def)

lemma parse_options_render:
  assumes "options_ok opts"
  shows "parse_options (render_options opts) = Inr opts"
proof (cases opts)
  case Help
  then show ?thesis by (simp add: parse_options_def)
next
  case (Capture_Command url bundle_path allow)
  then show ?thesis by (simp add: parse_options_def render_flag_def)
next
  case (Run_Command fixture candidate format allow)
  show ?thesis
  proof (cases candidate)
    case Bundled
    then show ?thesis using Run_Command
      by (simp add: parse_options_def parse_format_render run_options_flag run_draft_new_def finish_run_options_def)
  next
    case (Candidate_File path digest)
    then have "parse_hash (hex digest) = Inr digest"
      using assms Run_Command by (simp add: parse_hash_Inr decode_hex_digest_iff options_ok_def)
    then show ?thesis using Run_Command Candidate_File
      by (simp add: parse_options_def parse_format_render run_options_flag run_draft_new_def finish_run_options_def)
  qed
qed

subsection \<open>The command line as a grammar\<close>

text \<open>
  What the help text promises, apart from the parser: the options of a command in the order they
  are given, and the words that spell them. Of an option given several times the last one counts.
\<close>

datatype run_word = Use_Fixture string | Use_Candidate string | Use_Hash bytes | Use_Format output_format | Run_Newer

datatype capture_word = Use_Url string | Use_Bundle string | Capture_Newer

inductive spells_run :: "string list \<Rightarrow> run_word list \<Rightarrow> bool" where
  spells_nothing: "spells_run [] []"
| spells_fixture: "spells_run args ws \<Longrightarrow> spells_run (''--fixture'' # v # args) (Use_Fixture v # ws)"
| spells_bundle: "spells_run args ws \<Longrightarrow> spells_run (''--bundle'' # v # args) (Use_Fixture v # ws)"
| spells_candidate: "spells_run args ws \<Longrightarrow> spells_run (''--candidate-wasm'' # v # args) (Use_Candidate v # ws)"
| spells_hash: "spells_run args ws \<Longrightarrow> length digest = 32 \<Longrightarrow>
    spells_run (''--candidate-sha256'' # hex digest # args) (Use_Hash digest # ws)"
| spells_json: "spells_run args ws \<Longrightarrow> spells_run (''--format'' # ''json'' # args) (Use_Format Json_Format # ws)"
| spells_text: "spells_run args ws \<Longrightarrow> spells_run (''--format'' # ''text'' # args) (Use_Format Text_Format # ws)"
| spells_newer: "spells_run args ws \<Longrightarrow> spells_run (''--allow-newer-protocol'' # args) (Run_Newer # ws)"

inductive spells_capture :: "string list \<Rightarrow> capture_word list \<Rightarrow> bool" where
  spells_none: "spells_capture [] []"
| spells_url: "spells_capture args ws \<Longrightarrow> spells_capture (''--rpc-url'' # v # args) (Use_Url v # ws)"
| spells_path: "spells_capture args ws \<Longrightarrow> spells_capture (''--bundle'' # v # args) (Use_Bundle v # ws)"
| spells_allow: "spells_capture args ws \<Longrightarrow> spells_capture (''--allow-newer-protocol'' # args) (Capture_Newer # ws)"

definition given :: "('w \<Rightarrow> 'a option) \<Rightarrow> 'w list \<Rightarrow> 'a option" where
  "given pick ws = (case List.map_filter pick ws of [] \<Rightarrow> None | vs \<Rightarrow> Some (last vs))"

definition chosen :: "'a \<Rightarrow> ('w \<Rightarrow> 'a option) \<Rightarrow> 'w list \<Rightarrow> 'a" where
  "chosen d pick ws = (case given pick ws of None \<Rightarrow> d | Some v \<Rightarrow> v)"

definition fixture_of :: "run_word \<Rightarrow> string option" where
  "fixture_of w = (case w of Use_Fixture v \<Rightarrow> Some v | _ \<Rightarrow> None)"

definition candidate_of :: "run_word \<Rightarrow> string option" where
  "candidate_of w = (case w of Use_Candidate v \<Rightarrow> Some v | _ \<Rightarrow> None)"

definition hash_of :: "run_word \<Rightarrow> bytes option" where
  "hash_of w = (case w of Use_Hash digest \<Rightarrow> Some digest | _ \<Rightarrow> None)"

definition format_of :: "run_word \<Rightarrow> output_format option" where
  "format_of w = (case w of Use_Format f \<Rightarrow> Some f | _ \<Rightarrow> None)"

definition url_of :: "capture_word \<Rightarrow> string option" where
  "url_of w = (case w of Use_Url v \<Rightarrow> Some v | _ \<Rightarrow> None)"

definition bundle_of :: "capture_word \<Rightarrow> string option" where
  "bundle_of w = (case w of Use_Bundle v \<Rightarrow> Some v | _ \<Rightarrow> None)"

inductive command_line :: "string list \<Rightarrow> cli_options \<Rightarrow> bool" where
  bare: "command_line [] Help"
| helping: "command \<in> {''help'', ''--help'', ''-h''} \<Longrightarrow> command_line (command # args) Help"
| capturing: "spells_capture args ws \<Longrightarrow> command_line (''capture'' # ''aquarius-cp'' # args)
    (Capture_Command (chosen ''https://mainnet.sorobanrpc.com'' url_of ws)
      (chosen ''fixtures/mainnet/aquarius-xlm-usdc-cp/capture.json'' bundle_of ws) (Capture_Newer \<in> set ws))"
| running_bundled: "spells_run args ws \<Longrightarrow> given candidate_of ws = None \<Longrightarrow> given hash_of ws = None \<Longrightarrow>
    command_line (''run'' # ''aquarius-cp'' # args)
      (Run_Command (chosen ''fixtures/mainnet/aquarius-xlm-usdc-cp/capture.json'' fixture_of ws) Bundled
        (chosen Text_Format format_of ws) (Run_Newer \<in> set ws))"
| running_candidate: "spells_run args ws \<Longrightarrow> given candidate_of ws = Some path \<Longrightarrow> given hash_of ws = Some digest \<Longrightarrow>
    command_line (''run'' # ''aquarius-cp'' # args)
      (Run_Command (chosen ''fixtures/mainnet/aquarius-xlm-usdc-cp/capture.json'' fixture_of ws)
        (Candidate_File path digest) (chosen Text_Format format_of ws) (Run_Newer \<in> set ws))"

lemmas word_defs = fixture_of_def candidate_of_def hash_of_def format_of_def url_of_def bundle_of_def

lemma given_simps [simp]:
  "given pick [] = None"
  "given pick (w # ws) = (case given pick ws of None \<Rightarrow> pick w | Some v \<Rightarrow> Some v)"
  by (auto simp: given_def List.map_filter_simps split: list.split option.split)

lemma chosen_simps [simp]:
  "chosen d pick [] = d"
  "chosen d pick (w # ws) = chosen (case pick w of None \<Rightarrow> d | Some v \<Rightarrow> v) pick ws"
  by (auto simp: chosen_def split: option.split)

lemma capture_options_spelled:
  "capture_options args url bundle_path allow = Inr opts \<longleftrightarrow> (\<exists>ws. spells_capture args ws \<and>
     opts = Capture_Command (chosen url url_of ws) (chosen bundle_path bundle_of ws) (allow \<or> Capture_Newer \<in> set ws))"
  (is "?parsed args url bundle_path allow \<longleftrightarrow> (\<exists>ws. spells_capture args ws \<and> ?built url bundle_path allow ws)")
proof
  show "?parsed args url bundle_path allow \<Longrightarrow> \<exists>ws. spells_capture args ws \<and> ?built url bundle_path allow ws"
  proof (induction args url bundle_path allow rule: capture_options.induct)
    case (1 url bundle_path allow)
    then show ?case by (intro exI [of _ "[]"]) (simp add: spells_none)
  next
    case (2 option args url bundle_path allow)
    from "2.prems" consider
        (url) v rest where "option = ''--rpc-url''" "args = v # rest" "?parsed rest v bundle_path allow"
      | (path) v rest where "option = ''--bundle''" "args = v # rest" "?parsed rest url v allow"
      | (newer) "option = ''--allow-newer-protocol''" "?parsed args url bundle_path True"
      by (simp split: if_split_asm list.split_asm)
    then show ?case
    proof cases
      case url
      then obtain ws where "spells_capture rest ws" "?built v bundle_path allow ws" using "2.IH"(1) by blast
      then show ?thesis using url by (intro exI [of _ "Use_Url v # ws"]) (simp add: spells_url word_defs)
    next
      case path
      then obtain ws where "spells_capture rest ws" "?built url v allow ws" using "2.IH"(2) by force
      then show ?thesis using path by (intro exI [of _ "Use_Bundle v # ws"]) (simp add: spells_path word_defs)
    next
      case newer
      then obtain ws where "spells_capture args ws" "?built url bundle_path True ws" using "2.IH"(3) by force
      then show ?thesis using newer by (intro exI [of _ "Capture_Newer # ws"]) (simp add: spells_allow word_defs)
    qed
  qed
next
  have "?parsed args url bundle_path allow" if "spells_capture args ws" "?built url bundle_path allow ws" for ws
    using that by (induction args ws arbitrary: url bundle_path allow) (auto simp: word_defs)
  then show "\<exists>ws. spells_capture args ws \<and> ?built url bundle_path allow ws \<Longrightarrow> ?parsed args url bundle_path allow"
    by blast
qed

text \<open>The draft that the words of a run command make of a draft.\<close>

definition settle :: "run_draft \<Rightarrow> run_word list \<Rightarrow> run_draft" where
  "settle d ws = \<lparr> rd_fixture = chosen (rd_fixture d) fixture_of ws,
     rd_candidate_path = chosen (rd_candidate_path d) (map_option Some \<circ> candidate_of) ws,
     rd_candidate_hash = chosen (rd_candidate_hash d) (map_option Some \<circ> hash_of) ws,
     rd_format = chosen (rd_format d) format_of ws,
     rd_allow_newer_protocol = (rd_allow_newer_protocol d \<or> Run_Newer \<in> set ws) \<rparr>"

lemma settle_simps [simp]:
  "settle d [] = d"
  "settle d (Use_Fixture v # ws) = settle (d\<lparr>rd_fixture := v\<rparr>) ws"
  "settle d (Use_Candidate v # ws) = settle (d\<lparr>rd_candidate_path := Some v\<rparr>) ws"
  "settle d (Use_Hash h # ws) = settle (d\<lparr>rd_candidate_hash := Some h\<rparr>) ws"
  "settle d (Use_Format f # ws) = settle (d\<lparr>rd_format := f\<rparr>) ws"
  "settle d (Run_Newer # ws) = settle (d\<lparr>rd_allow_newer_protocol := True\<rparr>) ws"
  by (simp_all add: settle_def word_defs)

lemma given_chosen: "chosen None (map_option Some \<circ> pick) ws = given pick ws"
proof -
  have "given (map_option Some \<circ> pick) ws = map_option Some (given pick ws)"
    by (induction ws) (simp_all split: option.split)
  then show ?thesis by (simp add: chosen_def option.map_comp split: option.split)
qed

lemma parse_format_Inr: "parse_format v = Inr f \<longleftrightarrow> v = render_format f"
  by (cases f) (auto simp: parse_format_def render_format_def)

lemma parse_hash_iff: "parse_hash v = Inr h \<longleftrightarrow> length h = 32 \<and> v = hex h"
  by (auto simp: parse_hash_Inr decode_hex_digest_iff)

lemma spells_format: "spells_run args ws \<Longrightarrow> spells_run (''--format'' # render_format f # args) (Use_Format f # ws)"
  by (cases f) (simp_all add: render_format_def spells_json spells_text)

lemma option_cases:
  obtains (newer) "w = a" | (fixture) "w = b \<or> w = c" | (candidate) "w = d" | (hash) "w = e" | (format) "w = f"
    | (other) "w \<notin> {a, b, c, d, e, f}"
  by blast

lemma run_options_word:
  assumes "run_options (option # args) d = Inr d'"
  obtains w rest e where "run_options rest e = Inr d'" "length rest \<le> length args"
    "\<And>ws. spells_run rest ws \<Longrightarrow> spells_run (option # args) (w # ws)" "\<And>ws. settle d (w # ws) = settle e ws"
proof -
  show thesis
  proof (cases rule: option_cases [where w = option and a = "''--allow-newer-protocol''" and b = "''--fixture''"
      and c = "''--bundle''" and d = "''--candidate-wasm''" and e = "''--candidate-sha256''" and f = "''--format''"])
    case newer
    then show ?thesis using assms by (intro that [of args _ Run_Newer]) (simp_all add: spells_newer)
  next
    case fixture
    then obtain v rest where "args = v # rest" "run_options rest (d\<lparr>rd_fixture := v\<rparr>) = Inr d'"
      using assms by (cases args) auto
    then show ?thesis using fixture
      by (intro that [of rest _ "Use_Fixture v"]) (auto simp: spells_fixture spells_bundle)
  next
    case candidate
    then obtain v rest where "args = v # rest" "run_options rest (d\<lparr>rd_candidate_path := Some v\<rparr>) = Inr d'"
      using assms by (cases args) auto
    then show ?thesis using candidate by (intro that [of rest _ "Use_Candidate v"]) (simp_all add: spells_candidate)
  next
    case hash
    then obtain v rest h where "args = v # rest" "parse_hash v = Inr h"
        "run_options rest (d\<lparr>rd_candidate_hash := Some h\<rparr>) = Inr d'"
      using assms by (cases args) (auto split: sum.splits)
    then show ?thesis using hash by (intro that [of rest _ "Use_Hash h"]) (simp_all add: spells_hash parse_hash_iff)
  next
    case format
    then obtain v rest f where "args = v # rest" "parse_format v = Inr f"
        "run_options rest (d\<lparr>rd_format := f\<rparr>) = Inr d'"
      using assms by (cases args) (auto split: sum.splits)
    then show ?thesis using format by (intro that [of rest _ "Use_Format f"]) (simp_all add: spells_format parse_format_Inr)
  next
    case other
    then show ?thesis using assms by simp
  qed
qed

lemma run_options_spelled:
  "run_options args d = Inr d' \<longleftrightarrow> (\<exists>ws. spells_run args ws \<and> d' = settle d ws)"
proof
  show "run_options args d = Inr d' \<Longrightarrow> \<exists>ws. spells_run args ws \<and> d' = settle d ws"
  proof (induction args arbitrary: d rule: length_induct)
    case (1 args)
    show ?case
    proof (cases args)
      case Nil
      then show ?thesis using "1.prems" by (intro exI [of _ "[]"]) (simp add: spells_nothing)
    next
      case (Cons option rest)
      obtain w rest' e where
        step: "run_options rest' e = Inr d'" "length rest' \<le> length rest"
          "\<And>ws. spells_run rest' ws \<Longrightarrow> spells_run (option # rest) (w # ws)" "\<And>ws. settle d (w # ws) = settle e ws"
        by (rule run_options_word [OF "1.prems" [unfolded Cons]]) (rule that)
      have "length rest' < length args" using step(2) Cons by simp
      then have "\<exists>ws. spells_run rest' ws \<and> d' = settle e ws" using "1.IH" step(1) by blast
      then obtain ws where "spells_run rest' ws" "d' = settle e ws" by blast
      then have "spells_run args (w # ws)" "d' = settle d (w # ws)" using step(3,4) Cons by simp_all
      then show ?thesis by blast
    qed
  qed
next
  have "run_options args d = Inr (settle d ws)" if "spells_run args ws" for ws
    using that
    by (induction args ws arbitrary: d) (simp_all add: parse_hash_iff [THEN iffD2] parse_format_def)
  then show "\<exists>ws. spells_run args ws \<and> d' = settle d ws \<Longrightarrow> run_options args d = Inr d'" by blast
qed

lemma finish_settled:
  "finish_run_options (settle run_draft_new ws) =
     (case (given candidate_of ws, given hash_of ws) of
        (None, None) \<Rightarrow> Inr (Run_Command (chosen default_bundle fixture_of ws) Bundled
          (chosen Text_Format format_of ws) (Run_Newer \<in> set ws))
      | (Some path, Some digest) \<Rightarrow> Inr (Run_Command (chosen default_bundle fixture_of ws)
          (Candidate_File path digest) (chosen Text_Format format_of ws) (Run_Newer \<in> set ws))
      | _ \<Rightarrow> Inl Candidate_Needs_Both)"
  by (simp add: finish_run_options_def settle_def run_draft_new_def given_chosen split: option.split)

lemma parse_hash_error: "parse_hash v \<noteq> Inl Candidate_Needs_Both"
proof -
  have "cli_hex_nibble b \<noteq> Inl Candidate_Needs_Both" for b by (simp add: cli_hex_nibble_def)
  then have "parse_hash_pairs bs \<noteq> Inl Candidate_Needs_Both" for bs
    by (induction bs rule: parse_hash_pairs.induct) (auto simp: and_then_def split: sum.split)
  then show ?thesis by (auto simp: parse_hash_def and_then_def split: sum.split)
qed

lemma options_errors:
  "capture_options args url bundle_path allow \<noteq> Inl Candidate_Needs_Both"
  "run_options args d \<noteq> Inl Candidate_Needs_Both"
proof -
  show "capture_options args url bundle_path allow \<noteq> Inl Candidate_Needs_Both"
    by (induction args url bundle_path allow rule: capture_options.induct) (simp_all split: list.split)
  show "run_options args d \<noteq> Inl Candidate_Needs_Both"
  proof (induction args d rule: run_options.induct)
    case (2 option args d)
    show ?case
    proof (cases rule: option_cases [where w = option and a = "''--allow-newer-protocol''" and b = "''--fixture''"
      and c = "''--bundle''" and d = "''--candidate-wasm''" and e = "''--candidate-sha256''" and f = "''--format''"])
      case newer
      then show ?thesis using 2 by simp
    next
      case fixture
      then show ?thesis using 2 by (cases args) auto
    next
      case candidate
      then show ?thesis using 2 by (cases args) auto
    next
      case hash
      then show ?thesis using 2 parse_hash_error by (cases args) (auto split: sum.split)
    next
      case format
      then show ?thesis using 2 by (cases args) (auto simp: parse_format_def split: sum.split)
    next
      case other
      then show ?thesis by simp
    qed
  qed simp
qed

lemma parse_run:
  "parse_options (''run'' # ''aquarius-cp'' # args) = and_then (run_options args run_draft_new) finish_run_options"
  "parse_options (''capture'' # ''aquarius-cp'' # args) = capture_options args cli_default_rpc_url default_bundle False"
  by (simp_all add: parse_options_def)

lemma parse_options_line:
  "parse_options args = Inr opts \<longleftrightarrow> command_line args opts"
proof
  assume parsed: "parse_options args = Inr opts"
  consider "args = []" | command rest where "args = command # rest" "command \<in> {''help'', ''--help'', ''-h''}"
    | rest where "args = ''capture'' # ''aquarius-cp'' # rest" | rest where "args = ''run'' # ''aquarius-cp'' # rest"
    using parsed by (auto simp: parse_options_def split: list.splits if_split_asm)
  then show "command_line args opts"
  proof cases
    case 1
    then show ?thesis using parsed by (simp add: parse_options_def bare)
  next
    case 2
    then show ?thesis using parsed helping by (auto simp: parse_options_def)
  next
    case 3
    then show ?thesis using parsed capturing
      by (auto simp: parse_run capture_options_spelled cli_default_rpc_url_def default_bundle_def)
  next
    case 4
    then show ?thesis using parsed running_bundled running_candidate
      by (auto simp: parse_run run_options_spelled finish_settled default_bundle_def split: option.splits)
  qed
next
  assume "command_line args opts"
  then show "parse_options args = Inr opts"
  proof cases
    case (capturing args ws)
    then show ?thesis by (auto simp: parse_run capture_options_spelled cli_default_rpc_url_def default_bundle_def)
  next
    case (running_bundled rest ws)
    then have "run_options rest run_draft_new = Inr (settle run_draft_new ws)" using run_options_spelled by blast
    then show ?thesis using running_bundled by (simp add: parse_run finish_settled default_bundle_def)
  next
    case (running_candidate rest ws path digest)
    then have "run_options rest run_draft_new = Inr (settle run_draft_new ws)" using run_options_spelled by blast
    then show ?thesis using running_candidate by (simp add: parse_run finish_settled default_bundle_def)
  qed (auto simp: parse_options_def)
qed

lemma candidate_needs_both:
  "parse_options args = Inl Candidate_Needs_Both \<longleftrightarrow> (\<exists>rest ws. args = ''run'' # ''aquarius-cp'' # rest \<and>
     spells_run rest ws \<and> (given candidate_of ws = None) \<noteq> (given hash_of ws = None))"
proof
  assume failed: "parse_options args = Inl Candidate_Needs_Both"
  obtain command scenario rest where "args = command # scenario # rest"
    using failed by (auto simp: parse_options_def split: list.splits if_split_asm)
  moreover from this have "command = ''run''" "scenario = ''aquarius-cp''"
    using failed options_errors(1) by (simp_all add: parse_options_def split: if_split_asm)
  ultimately have args: "args = ''run'' # ''aquarius-cp'' # rest" by simp
  obtain d where "run_options rest run_draft_new = Inr d" "finish_run_options d = Inl Candidate_Needs_Both"
    using failed options_errors(2) unfolding args parse_run by (cases "run_options rest run_draft_new") auto
  then obtain ws where "spells_run rest ws" "finish_run_options (settle run_draft_new ws) = Inl Candidate_Needs_Both"
    by (auto simp: run_options_spelled)
  then show "\<exists>rest ws. args = ''run'' # ''aquarius-cp'' # rest \<and> spells_run rest ws \<and>
      (given candidate_of ws = None) \<noteq> (given hash_of ws = None)"
    using args by (auto simp: finish_settled split: option.splits)
next
  assume "\<exists>rest ws. args = ''run'' # ''aquarius-cp'' # rest \<and> spells_run rest ws \<and>
      (given candidate_of ws = None) \<noteq> (given hash_of ws = None)"
  then obtain rest ws where args: "args = ''run'' # ''aquarius-cp'' # rest" and
    words: "spells_run rest ws" "(given candidate_of ws = None) \<noteq> (given hash_of ws = None)" by blast
  then have "run_options rest run_draft_new = Inr (settle run_draft_new ws)" using run_options_spelled by blast
  then show "parse_options args = Inl Candidate_Needs_Both"
    using args words(2) by (auto simp: parse_run finish_settled split: option.split)
qed


end
