(* ===== verification/Aquarius_Run.thy ===== *)
theory Aquarius_Run
  imports Strict_Properties Bundle_Fork Cli_Options
begin

text \<open>
  The strict workflow of \<open>tools/kanatoko.rs\<close>: install a candidate on a captured ledger, quote, mint,
  preview and apply a swap, revert to the checkpoint and quote again, all on a strict fork. The
  report is a record; \<open>Aquarius_Report\<close> prints it.
\<close>

type_synonym u128 = "128 word"

datatype run_error =
    Run_Capture capture_error
  | Run_Strict strict_fork_error
  | Run_Fixture fixture_error
  | Run_Io
  | Invocation_Failed invoke_outcome
  | No_Successful_Result
  | Not_U128
  | No_Second_Address
  | No_Second_Reserve
  | Reserve_Too_Small
  | Minted_Not_I128
  | Quote_Not_Decreased
  | Quote_Not_Restored
  | Upstream_Read_Reported

subsection \<open>Values\<close>

definition one_token :: u128 where "one_token = 10000000"

definition sc_vec :: "sc_val \<Rightarrow> sc_val list" where
  "sc_vec value = (case value of ScVal_Vec (Some vs) \<Rightarrow> vs | _ \<Rightarrow> [])"

definition sc_u128_value :: "sc_val \<Rightarrow> run_error + u128" where
  "sc_u128_value value =
     (case value of ScVal_U128 hi lo \<Rightarrow> Inr (push_bit 64 (ucast hi) OR ucast lo) | _ \<Rightarrow> Inl Not_U128)"

definition sc_u128_vec :: "sc_val \<Rightarrow> run_error + u128 list" where
  "sc_u128_vec value = try_map sc_u128_value (sc_vec value)"

definition sc_u128 :: "u128 \<Rightarrow> sc_val" where
  "sc_u128 v = ScVal_U128 (ucast (drop_bit 64 v)) (ucast v)"

definition sc_i128 :: "u128 \<Rightarrow> sc_val" where
  "sc_i128 v = ScVal_I128 (ucast (drop_bit 64 v)) (ucast v)"

text \<open>\<open>i128::try_from\<close> of a \<open>u128\<close>, with the same bits.\<close>

definition i128_of_u128 :: "u128 \<Rightarrow> run_error + u128" where
  "i128_of_u128 v = (if unat v < 2 ^ 127 then Inr v else Inl Minted_Not_I128)"

lemma tenth_fits: "i128_of_u128 (reserve div 10) = Inr (reserve div 10)"
proof -
  have "unat (reserve div 10) = unat reserve div 10" by (simp add: unat_div)
  moreover have "unat reserve < 2 ^ 128" using unsigned_less [of reserve] by simp
  ultimately show ?thesis by (simp add: i128_of_u128_def)
qed

definition default_pool :: string where
  "default_pool = ''CA6PUJLBYKZKUEKLZJMKBZLEKP2OTHANDEOWSFF44FTSYLKQPIICCJBE''"

definition run_candidate :: sc_address where
  "run_candidate = ScAddress_Contract (replicate 32 0x6c)"

definition run_user :: sc_address where
  "run_user = ScAddress_Contract (replicate 32 0x4b)"

definition call_request :: "sc_address \<Rightarrow> string \<Rightarrow> sc_val list \<Rightarrow> invoke_request" where
  "call_request contract function args = \<lparr> rq_contract = contract, rq_function = function, rq_args = args \<rparr>"

definition receipt_result :: "receipt \<Rightarrow> run_error + sc_val" where
  "receipt_result rc = (case rc_outcome rc of Success v \<Rightarrow> Inr v | Failure e k \<Rightarrow> Inl No_Successful_Result)"

definition second_address :: "sc_val list \<Rightarrow> run_error + sc_address" where
  "second_address tokens =
     (case tokens of _ # ScVal_Address address # _ \<Rightarrow> Inr address | _ \<Rightarrow> Inl No_Second_Address)"

subsection \<open>Steps on the fork\<close>

type_synonym ('env, 'a) run_step = "('env strict_fork, run_error, 'a) act"

definition invoke_success ::
  "externals \<Rightarrow> 'env host \<Rightarrow> invoke_request \<Rightarrow> execution_mode \<Rightarrow> auth_mode \<Rightarrow> ('env, receipt) run_step" where
  "invoke_success X H request execution auth =
     sbind (smap_err Run_Strict (strict_invoke X H request execution auth)) (\<lambda>receipt.
       if is_success (rc_outcome receipt) then sret receipt else sfail (Invocation_Failed (rc_outcome receipt)))"

definition quote_request :: invoke_request where
  "quote_request = call_request run_candidate ''estimate_swap'' [ScVal_U32 1, ScVal_U32 0, sc_u128 one_token]"

definition quote_receipt :: "externals \<Rightarrow> 'env host \<Rightarrow> ('env, receipt \<times> u128) run_step" where
  "quote_receipt X H =
     sbind (invoke_success X H quote_request Preview (Enforce [])) (\<lambda>receipt.
     sbind (slift (and_then (receipt_result receipt) sc_u128_value)) (\<lambda>quote. sret (receipt, quote)))"

definition unknown_fails_closed :: "externals \<Rightarrow> 'env host \<Rightarrow> ('env, bool) run_step" where
  "unknown_fails_closed X H f =
     (case strict_ledger_digest X (h_sdk H) f of
        Inl e \<Rightarrow> (Inl (Run_Fixture e), f)
      | Inr before \<Rightarrow>
          (case strict_invoke X H (call_request (ScAddress_Contract (replicate 32 0xee)) ''missing'' [])
              Apply (Enforce []) f of
             (Inl (StrictUnknownLedgerKeys n keys), f1) \<Rightarrow>
               (case strict_ledger_digest X (h_sdk H) f1 of
                  Inl e \<Rightarrow> (Inl (Run_Fixture e), f1)
                | Inr after \<Rightarrow> (Inr (after = before), f1))
           | (_, f1) \<Rightarrow> (Inr False, f1)))"

text \<open>A strict fork has no transport, so it counts no upstream reads.\<close>

definition strict_upstream_reads :: "'env strict_fork \<Rightarrow> u64" where
  "strict_upstream_reads f = 0"

subsection \<open>The workflow\<close>

record run_report =
  rp_registration :: candidate_registration
  rp_minted :: u128
  rp_received :: u128
  rp_quote_before :: u128
  rp_quote_after :: u128
  rp_restored_quote :: u128
  rp_unknown_fail_closed :: bool
  rp_upstream_reads :: u64
  rp_receipts :: "receipt list"

text \<open>Up to the captured reserves: the token to mint, the first quote, the amount and three receipts.\<close>

definition run_opening :: "externals \<Rightarrow> 'env host \<Rightarrow> ('env, sc_address \<times> u128 \<times> u128 \<times> receipt list) run_step" where
  "run_opening X H =
     sbind (invoke_success X H (call_request run_candidate ''get_tokens'' []) Preview (Enforce [])) (\<lambda>tokens_receipt.
     sbind (slift (and_then (receipt_result tokens_receipt) (\<lambda>v. second_address (sc_vec v)))) (\<lambda>usdc.
     sbind (quote_receipt X H) (\<lambda>(quote_before_receipt, quote_before).
     sbind (invoke_success X H (call_request run_candidate ''get_reserves'' []) Preview (Enforce [])) (\<lambda>reserves_receipt.
     sbind (slift (and_then (receipt_result reserves_receipt) sc_u128_vec)) (\<lambda>reserves.
     sbind (slift (case reserves of _ # r # _ \<Rightarrow> Inr (r div 10) | _ \<Rightarrow> Inl No_Second_Reserve)) (\<lambda>minted.
     if minted \<le> one_token then sfail Reserve_Too_Small
     else sret (usdc, quote_before, minted, [tokens_receipt, quote_before_receipt, reserves_receipt])))))))"

definition swap_request :: "u128 \<Rightarrow> invoke_request" where
  "swap_request minted =
     call_request run_candidate ''swap'' [ScVal_Address run_user, ScVal_U32 1, ScVal_U32 0, sc_u128 minted, sc_u128 0]"

text \<open>Mint, preview the swap, apply it with exactly the previewed authorization.\<close>

definition run_trading ::
  "externals \<Rightarrow> 'env host \<Rightarrow> sc_address \<Rightarrow> u128 \<Rightarrow> ('env, u128 \<times> receipt list) run_step" where
  "run_trading X H usdc minted =
     sbind (slift (i128_of_u128 minted)) (\<lambda>minted_i128.
     sbind (invoke_success X H (call_request usdc ''mint'' [ScVal_Address run_user, sc_i128 minted_i128])
         Apply Record_Auth) (\<lambda>mint.
     sbind (invoke_success X H (swap_request minted) Preview Record_Auth) (\<lambda>preview.
     sbind (invoke_success X H (swap_request minted) Apply (Mock_Exact (rc_authorization preview))) (\<lambda>swap.
     sbind (slift (and_then (receipt_result swap) sc_u128_value)) (\<lambda>received.
       sret (received, [mint, preview, swap]))))))"

definition strict_checkpoint_step :: "externals \<Rightarrow> 'env host \<Rightarrow> ('env, strict_checkpoint) run_step" where
  "strict_checkpoint_step X H f = (Inr (strict_fork_checkpoint X (h_sdk H) f), f)"

definition strict_revert_step :: "externals \<Rightarrow> 'env host \<Rightarrow> strict_checkpoint \<Rightarrow> ('env, unit) run_step" where
  "strict_revert_step X H c f =
     (case strict_revert X (h_sdk H) c f of Inl e \<Rightarrow> (Inl (Run_Strict e), f) | Inr g \<Rightarrow> (Inr (), g))"

definition run_workflow ::
  "externals \<Rightarrow> 'env host \<Rightarrow> sc_address \<Rightarrow> bytes \<Rightarrow> bytes \<Rightarrow> ('env, run_report) run_step" where
  "run_workflow X H pool wasm expected_sha256 =
     sbind (smap_err Run_Strict (register_candidate X H run_candidate wasm expected_sha256 [ScVal_Address pool]))
       (\<lambda>registration.
     sbind (strict_checkpoint_step X H) (\<lambda>checkpoint.
     sbind (run_opening X H) (\<lambda>(usdc, quote_before, minted, opening).
     sbind (run_trading X H usdc minted) (\<lambda>(received, trading).
     sbind (quote_receipt X H) (\<lambda>(quote_after_receipt, quote_after).
     if quote_after \<ge> quote_before then sfail Quote_Not_Decreased
     else
       sbind (strict_revert_step X H checkpoint) (\<lambda>_.
       sbind (quote_receipt X H) (\<lambda>(restored_receipt, restored_quote).
       if restored_quote \<noteq> quote_before then sfail Quote_Not_Restored
       else
         sbind (unknown_fails_closed X H) (\<lambda>unknown_fail_closed f.
           let receipts = opening @ trading @ [quote_after_receipt, restored_receipt] in
           if strict_upstream_reads f \<noteq> 0 \<or> \<not> list_all (\<lambda>rc. rc_upstream_reads rc = 0) receipts
           then sfail Upstream_Read_Reported f
           else sret \<lparr> rp_registration = registration, rp_minted = minted, rp_received = received,
                  rp_quote_before = quote_before, rp_quote_after = quote_after,
                  rp_restored_quote = restored_quote, rp_unknown_fail_closed = unknown_fail_closed,
                  rp_upstream_reads = strict_upstream_reads f, rp_receipts = receipts \<rparr> f))))))))"

subsection \<open>The command\<close>

text \<open>
  \<open>run\<close> on the disk and the counter of fork ids. The bundled WASM and its hash are data of the build,
  \<open>path_of\<close> is \<open>PathBuf::from\<close>; a panic is a pool address that does not parse or an exhausted counter.
\<close>

definition cli_mainnet_passphrase :: string where
  "cli_mainnet_passphrase = ''Public Global Stellar Network ; September 2015''"

definition load_bundle ::
  "externals \<Rightarrow> json_codec \<Rightarrow> fs_path \<Rightarrow> bool \<Rightarrow> (disk, capture_error, captured_fixture) act" where
  "load_bundle X J path allow_newer =
     (if allow_newer then bundle_from_file_allowing_newer_protocol X J path cli_mainnet_passphrase
      else bundle_from_file X J path cli_mainnet_passphrase)"

record bundled_wrapper =
  bw_wasm :: bytes
  bw_sha256 :: bytes

definition candidate_bytes ::
  "bundled_wrapper \<Rightarrow> (string \<Rightarrow> fs_path) \<Rightarrow> candidate_artifact \<Rightarrow> (disk, run_error, bytes) act" where
  "candidate_bytes W path_of candidate =
     (case candidate of
        Bundled \<Rightarrow> sret (bw_wasm W)
      | Candidate_File path digest \<Rightarrow> smap_err (\<lambda>source. Run_Io)
          (case path_loc (path_of path) of None \<Rightarrow> sfail Other_Io | Some loc \<Rightarrow> fs_read loc))"

definition candidate_sha256 :: "bundled_wrapper \<Rightarrow> candidate_artifact \<Rightarrow> bytes" where
  "candidate_sha256 W candidate = (case candidate of Bundled \<Rightarrow> bw_sha256 W | Candidate_File path digest \<Rightarrow> digest)"

record protocols =
  pr_network :: u32
  pr_executed :: u32

definition protocols_of :: "externals \<Rightarrow> 'env strict_fork \<Rightarrow> protocols" where
  "protocols_of X f = \<lparr> pr_network = sf_network_protocol_version f,
     pr_executed = strict_executed_protocol_version X f \<rparr>"

text \<open>The printed values: the captured ledger, the workflow's report, and the protocols in the opt-in mode.\<close>

definition run_command ::
  "externals \<Rightarrow> 'env host \<Rightarrow> json_codec \<Rightarrow> bundled_wrapper \<Rightarrow> (string \<Rightarrow> fs_path) \<Rightarrow> fs_path
    \<Rightarrow> candidate_artifact \<Rightarrow> bool \<Rightarrow> (disk \<times> u64, run_error fault, u32 \<times> run_report \<times> protocols option) act" where
  "run_command X H J W path_of fixture_path candidate allow_newer = (\<lambda>(d, counter).
     case load_bundle X J fixture_path allow_newer d of
       (Inl e, d1) \<Rightarrow> (Inl (Error (Run_Capture e)), (d1, counter))
     | (Inr captured, d1) \<Rightarrow>
         (case captured_fork X (h_sdk H) captured counter of
            (None, counter1) \<Rightarrow> (Inl Panicked, (d1, counter1))
          | (Some fork, counter1) \<Rightarrow>
              (case address_from_str J default_pool of
                 None \<Rightarrow> (Inl Panicked, (d1, counter1))
               | Some pool \<Rightarrow>
                   (case candidate_bytes W path_of candidate d1 of
                      (Inl e, d2) \<Rightarrow> (Inl (Error e), (d2, counter1))
                    | (Inr wasm, d2) \<Rightarrow>
                        (case run_workflow X H pool wasm (candidate_sha256 W candidate) fork of
                           (Inl e, fork1) \<Rightarrow> (Inl (Error e), (d2, counter1))
                         | (Inr report, fork1) \<Rightarrow>
                             (Inr (pv_ledger_sequence (cf_provenance captured), report,
                                if allow_newer then Some (protocols_of X fork1) else None),
                              (d2, counter1)))))))"

end
