(* ===== verification/Aquarius_Properties.thy ===== *)
theory Aquarius_Properties
  imports Aquarius_Run
begin

text \<open>
  What the workflow guarantees: its own checks of the restored quote and of the upstream reads can
  never fail, on any bundle and any Host that obeys its documentation.
\<close>

subsection \<open>The same call on the same ledger\<close>

text \<open>
  Documented behaviour of the Host: it reads a ledger by key, so a call gives the same result in two
  environments made from ledgers that list the same entries in another order.
\<close>

definition call_order_law :: "'env host \<Rightarrow> bool" where
  "call_order_law H \<longleftrightarrow>
     (\<forall>info s es entries e1 e2 contract function args. mset es = mset (sn_ledger_entries s) \<longrightarrow>
        h_set_authorization_entries H
          (sdk_configure (h_sdk H) (sdk_from_ledger_snapshot (h_sdk H) info (Some s))) entries = Some e1 \<longrightarrow>
        h_set_authorization_entries H
          (sdk_configure (h_sdk H) (sdk_from_ledger_snapshot (h_sdk H) info (Some (s\<lparr>sn_ledger_entries := es\<rparr>))))
          entries = Some e2 \<longrightarrow>
        map_script fst (h_try_invoke H e1 contract function args) =
        map_script fst (h_try_invoke H e2 contract function args))"

lemma outcome_of_call:
  "map_script fst (invoke_outcome_of H env contract function args) =
     map_script (\<lambda>c. case invocation_result c of Inr v \<Rightarrow> Success v | Inl failure \<Rightarrow> Failure (if_error failure) (if_kind failure))
       (map_script fst (h_try_invoke H env contract function args))"
  by (simp add: invoke_outcome_of_def invoke_once_def script.map_comp o_def case_prod_beta)

lemma same_outcome:
  assumes "map_script fst (h_try_invoke H e1 contract function args) = map_script fst (h_try_invoke H e2 contract function args)"
    and "follow serve mark (invoke_outcome_of H e1 contract function args) v = Some ((out1, x1), u1)"
    and "follow serve mark (invoke_outcome_of H e2 contract function args) v = Some ((out2, x2), u2)"
  shows "out1 = out2"
proof -
  have "follow serve mark (map_script fst (invoke_outcome_of H e1 contract function args)) v =
      follow serve mark (map_script fst (invoke_outcome_of H e2 contract function args)) v"
    by (simp only: outcome_of_call assms(1))
  then show ?thesis using assms(2,3) by (simp add: follow_map_script)
qed

lemma same_call:
  assumes order: "call_order_law H" and info: "ledger_info_laws X"
    and f: "invoke_child X H request execution (Enforce entries) f = Inr (r1, after1)"
    and h: "invoke_child X H request execution' (Enforce entries) h = Inr (r2, after2)"
    and same: "strict_observe X (h_sdk H) h = strict_observe X (h_sdk H) f"
  shows "rc_outcome r1 = rc_outcome r2"
proof -
  let ?S = "h_sdk H"
  let ?s = "strict_ledger_snapshot X ?S f" and ?t = "strict_ledger_snapshot X ?S h"
  have obs: "?t\<lparr>sn_ledger_entries := []\<rparr> = ?s\<lparr>sn_ledger_entries := []\<rparr>"
    and es: "mset (sn_ledger_entries ?t) = mset (sn_ledger_entries ?s)"
    and parts: "fork_view h False = fork_view f False"
    using same by (simp_all add: strict_observe_def Let_def fork_view_def)
  have t: "?t = ?s\<lparr>sn_ledger_entries := sn_ledger_entries ?t\<rparr>" using obs by (cases ?t; cases ?s) simp
  then have i: "snapshot_ledger_info X ?t = snapshot_ledger_info X ?s"
    using info by (cases ?t; cases ?s) (simp add: ledger_info_laws_def)
  obtain c1 d1 where c1: "h_set_authorization_entries H (sdk_configure ?S (sdk_from_ledger_snapshot ?S
        (Some (execute_info X (snapshot_ledger_info X ?s))) (Some ?s))) entries = Some c1"
      "follow (strict_serve X) (\<lambda>m v. v)
        (invoke_outcome_of H c1 (rq_contract request) (rq_function request) (rq_args request))
        (fork_view f False) = Some ((rc_outcome r1, d1), fork_view f False)"
    using f by (rule invoke_child_Inr) (simp add: auth_child_def strict_env_def fork_env_def allows_mock_nonces_def)
  obtain c2 d2 where c2: "h_set_authorization_entries H (sdk_configure ?S (sdk_from_ledger_snapshot ?S
        (Some (execute_info X (snapshot_ledger_info X ?t))) (Some ?t))) entries = Some c2"
      "follow (strict_serve X) (\<lambda>m v. v)
        (invoke_outcome_of H c2 (rq_contract request) (rq_function request) (rq_args request))
        (fork_view h False) = Some ((rc_outcome r2, d2), fork_view h False)"
    using h by (rule invoke_child_Inr) (simp add: auth_child_def strict_env_def fork_env_def allows_mock_nonces_def)
  have "h_set_authorization_entries H (sdk_configure ?S (sdk_from_ledger_snapshot ?S
      (Some (execute_info X (snapshot_ledger_info X ?s)))
      (Some (?s\<lparr>sn_ledger_entries := sn_ledger_entries ?t\<rparr>)))) entries = Some c2"
    using c2(1) unfolding i t [symmetric] .
  then have "map_script fst (h_try_invoke H c1 contract fname args) =
      map_script fst (h_try_invoke H c2 contract fname args)" for contract fname args
    using order es c1(1) unfolding call_order_law_def by blast
  from this c1(2) c2(2) [unfolded parts] show ?thesis by (rule same_outcome)
qed

subsection \<open>Steps and their errors\<close>

definition honest :: "run_error \<Rightarrow> bool" where
  "honest e \<longleftrightarrow> e \<noteq> Quote_Not_Restored \<and> e \<noteq> Upstream_Read_Reported \<and> e \<noteq> Minted_Not_I128"

definition run_spec ::
  "('env strict_fork \<Rightarrow> bool) \<Rightarrow> ('env, 'a) run_step \<Rightarrow> ('a \<Rightarrow> 'env strict_fork \<Rightarrow> bool) \<Rightarrow> bool" where
  "run_spec P m Q \<longleftrightarrow> (\<forall>f r f'. P f \<longrightarrow> m f = (r, f') \<longrightarrow>
     (\<forall>e. r = Inl e \<longrightarrow> honest e) \<and> (\<forall>x. r = Inr x \<longrightarrow> Q x f'))"

named_theorems run_specs

lemma spec_bind [run_specs]:
  assumes "run_spec P m Q" and "\<And>x. run_spec (Q x) (f x) R"
  shows "run_spec P (sbind m f) R"
  using assms unfolding run_spec_def sbind_def by (auto split: prod.splits sum.splits)

lemma spec_return [run_specs]: "(\<And>f. P f \<Longrightarrow> Q x f) \<Longrightarrow> run_spec P (sret x) Q"
  by (simp add: run_spec_def)

lemma spec_fail [run_specs]: "honest e \<Longrightarrow> run_spec P (sfail e) Q"
  by (simp add: run_spec_def)

lemma spec_lift [run_specs]:
  "(\<And>e. x = Inl e \<Longrightarrow> honest e) \<Longrightarrow> run_spec P (slift x) (\<lambda>y f. x = Inr y \<and> P f)"
  by (auto simp: run_spec_def)

lemma spec_conseq: "run_spec P m Q \<Longrightarrow> (\<And>f. P' f \<Longrightarrow> P f) \<Longrightarrow> (\<And>x f. Q x f \<Longrightarrow> Q' x f) \<Longrightarrow> run_spec P' m Q'"
  unfolding run_spec_def by blast

lemma spec_split [run_specs]: "(\<And>a b. p = (a, b) \<Longrightarrow> run_spec P (f a b) Q) \<Longrightarrow> run_spec P (case p of (a, b) \<Rightarrow> f a b) Q"
  by (cases p) simp

lemma spec_if [run_specs]:
  "(b \<Longrightarrow> run_spec P m Q) \<Longrightarrow> (\<not> b \<Longrightarrow> run_spec P n Q) \<Longrightarrow> run_spec P (if b then m else n) Q"
  by simp

text \<open>Pure conditions are kept by every step.\<close>

lemma spec_pure [run_specs]: "(c \<Longrightarrow> run_spec P m Q) \<Longrightarrow> run_spec (\<lambda>f. c \<and> P f) m Q"
  unfolding run_spec_def by blast

subsection \<open>The workflow\<close>

text \<open>
  \<open>follows\<close>: a fork later than the one the checkpoint was taken of. \<open>pristine\<close>: it differs only in
  its receipts.
\<close>

definition follows :: "externals \<Rightarrow> 'env host \<Rightarrow> 'env strict_fork \<Rightarrow> 'env strict_fork \<Rightarrow> bool" where
  "follows X H f1 f \<longleftrightarrow> fork_ok X (h_sdk H) f \<and> sf_id f = sf_id f1 \<and>
     sf_network_protocol_version f = sf_network_protocol_version f1"

definition pristine :: "externals \<Rightarrow> 'env host \<Rightarrow> 'env strict_fork \<Rightarrow> 'env strict_fork \<Rightarrow> bool" where
  "pristine X H f1 f \<longleftrightarrow> follows X H f1 f \<and> (\<exists>rcs. f = f1\<lparr>sf_receipts := rcs\<rparr>)"

lemma pristine_refl: "fork_ok X (h_sdk H) f \<Longrightarrow> pristine X H f f"
  by (auto simp: pristine_def follows_def intro: exI [of _ "sf_receipts f"])

definition good_receipt :: "receipt \<Rightarrow> bool" where
  "good_receipt rc \<longleftrightarrow> is_success (rc_outcome rc) \<and> rc_upstream_reads rc = 0"

lemma invoke_child_receipts:
  "invoke_child X H request execution auth (f\<lparr>sf_receipts := rcs\<rparr>) = invoke_child X H request execution auth f"
  by (simp add: invoke_child_def strict_ledger_snapshot_def cong: if_cong)

definition run_laws :: "externals \<Rightarrow> 'env host \<Rightarrow> bool" where
  "run_laws X H \<longleftrightarrow> sdk_laws X (h_sdk H) \<and> ledger_info_laws X \<and> host_laws H \<and> call_order_law H"

lemma run_lawsD:
  assumes "run_laws X H"
  shows "sdk_laws X (h_sdk H)" "ledger_info_laws X" "host_laws H" "call_order_law H"
  using assms by (simp_all add: run_laws_def)

lemma invoke_success_cases:
  assumes "invoke_success X H request execution auth f = (r, f')"
  obtains (refused) e where "strict_invoke X H request execution auth f = (Inl e, f')" "r = Inl (Run_Strict e)"
  | (failed) rc where "strict_invoke X H request execution auth f = (Inr rc, f')" "r = Inl (Invocation_Failed (rc_outcome rc))"
  | (success) rc after where "strict_invoke X H request execution auth f = (Inr rc, f')" "r = Inr rc" "good_receipt rc"
      "invoke_child X H request execution auth f = Inr (rc, after)"
proof -
  obtain x f1 where x: "strict_invoke X H request execution auth f = (x, f1)" by (metis prod.exhaust)
  show thesis
  proof (cases x)
    case (Inl e)
    then show thesis using assms x by (intro refused) (auto simp: invoke_success_def sbind_def smap_err_def)
  next
    case (Inr rc)
    then obtain after where child: "invoke_child X H request execution auth f = Inr (rc, after)"
      using x by (metis strict_invoke_Inr)
    have "rc_upstream_reads rc = 0" using child by (rule invoke_child_Inr)
    then show thesis
      using assms x Inr child failed success
      by (cases "is_success (rc_outcome rc)")
        (auto simp: invoke_success_def sbind_def smap_err_def good_receipt_def)
  qed
qed

lemma invoke_follows [run_specs]:
  assumes "run_laws X H"
  shows "run_spec (follows X H f1) (invoke_success X H request execution auth)
     (\<lambda>rc f. good_receipt rc \<and> follows X H f1 f)"
  unfolding run_spec_def
proof (intro allI impI)
  fix f r f'
  assume f: "follows X H f1 f" and run: "invoke_success X H request execution auth f = (r, f')"
  have keeps: "follows X H f1 f'" if "strict_invoke X H request execution auth f = (x, f')" for x
    using strict_invoke_keeps [OF run_lawsD(1-3) [OF assms] _ that] f by (simp add: follows_def)
  show "(\<forall>e. r = Inl e \<longrightarrow> honest e) \<and> (\<forall>rc. r = Inr rc \<longrightarrow> good_receipt rc \<and> follows X H f1 f')"
    using run by (cases rule: invoke_success_cases) (auto simp: honest_def keeps)
qed

lemma preview_pristine:
  assumes "run_laws X H"
  shows "run_spec (pristine X H f1) (invoke_success X H request Preview auth)
     (\<lambda>rc f. (good_receipt rc \<and> (\<exists>after. invoke_child X H request Preview auth f1 = Inr (rc, after))) \<and> pristine X H f1 f)"
  unfolding run_spec_def
proof (intro allI impI)
  fix f r f'
  assume f: "pristine X H f1 f" and run: "invoke_success X H request Preview auth f = (r, f')"
  obtain rcs where rcs: "f = f1\<lparr>sf_receipts := rcs\<rparr>" using f by (auto simp: pristine_def)
  have keeps: "pristine X H f1 f'" if "strict_invoke X H request Preview auth f = (x, f')" for x
  proof -
    have "\<exists>rcs. f' = f\<lparr>sf_receipts := rcs\<rparr>"
      using that by (auto simp: strict_invoke_def split: sum.splits prod.splits) (metis strict_fork.surjective strict_fork.update_convs(7))
    then show ?thesis
      using strict_invoke_keeps [OF run_lawsD(1-3) [OF assms] _ that] f rcs by (auto simp: pristine_def follows_def)
  qed
  have child: "invoke_child X H request Preview auth f1 = invoke_child X H request Preview auth f"
    by (simp add: rcs invoke_child_receipts)
  show "(\<forall>e. r = Inl e \<longrightarrow> honest e) \<and> (\<forall>rc. r = Inr rc \<longrightarrow>
      (good_receipt rc \<and> (\<exists>after. invoke_child X H request Preview auth f1 = Inr (rc, after))) \<and> pristine X H f1 f')"
    using run by (cases rule: invoke_success_cases) (auto simp: honest_def keeps child)
qed

subsection \<open>Errors of the values\<close>

lemma honest_simps [simp]:
  "honest (Run_Capture ce)" "honest (Run_Strict se)" "honest (Run_Fixture fe)" "honest Run_Io"
  "honest (Invocation_Failed out)" "honest No_Successful_Result" "honest Not_U128" "honest No_Second_Address"
  "honest No_Second_Reserve" "honest Reserve_Too_Small" "honest Quote_Not_Decreased"
  by (simp_all add: honest_def)

lemma honest_value:
  "receipt_result rc = Inl e \<Longrightarrow> honest e"
  "sc_u128_value v = Inl e \<Longrightarrow> honest e"
  "second_address vs = Inl e \<Longrightarrow> honest e"
  by (auto simp: receipt_result_def sc_u128_value_def second_address_def
      split: invoke_outcome.splits sc_val.splits list.splits if_splits)

lemma honest_vec: "try_map sc_u128_value vs = Inl e \<Longrightarrow> honest e"
  by (induction vs) (auto simp: honest_value and_then_Inl)

lemma honest_reading:
  "and_then (receipt_result rc) sc_u128_value = Inl e \<Longrightarrow> honest e"
  "and_then (receipt_result rc) sc_u128_vec = Inl e \<Longrightarrow> honest e"
  "and_then (receipt_result rc) (\<lambda>v. second_address (sc_vec v)) = Inl e \<Longrightarrow> honest e"
  by (cases "receipt_result rc"; simp add: honest_value sc_u128_vec_def honest_vec)+

subsection \<open>The quote\<close>

definition quoted :: "externals \<Rightarrow> 'env host \<Rightarrow> 'env strict_fork \<Rightarrow> u128 \<Rightarrow> bool" where
  "quoted X H f q \<longleftrightarrow> (\<exists>rc after. invoke_child X H quote_request Preview (Enforce []) f = Inr (rc, after) \<and>
     and_then (receipt_result rc) sc_u128_value = Inr q)"

lemma quoted_same:
  assumes "run_laws X H" and "quoted X H f q" and "quoted X H h q'"
    and "strict_observe X (h_sdk H) h = strict_observe X (h_sdk H) f"
  shows "q' = q"
proof -
  obtain r1 a1 r2 a2 where r: "invoke_child X H quote_request Preview (Enforce []) f = Inr (r1, a1)"
      "and_then (receipt_result r1) sc_u128_value = Inr q"
      "invoke_child X H quote_request Preview (Enforce []) h = Inr (r2, a2)"
      "and_then (receipt_result r2) sc_u128_value = Inr q'"
    using assms(2,3) by (auto simp: quoted_def)
  have "receipt_result r1 = receipt_result r2"
    using same_call [OF run_lawsD(4,2) [OF assms(1)] r(1,3) assms(4)] by (simp add: receipt_result_def)
  then show ?thesis using r(2,4) by simp
qed

lemma quote_pristine [run_specs]:
  assumes "run_laws X H"
  shows "run_spec (pristine X H f1) (quote_receipt X H)
     (\<lambda>p f. (good_receipt (fst p) \<and> quoted X H f1 (snd p)) \<and> pristine X H f1 f)"
  unfolding quote_receipt_def
  by (intro spec_bind [OF preview_pristine [OF assms]] spec_bind [OF spec_lift] spec_pure spec_return)
    (auto simp: quoted_def dest: honest_reading)

lemma spec_each: "(\<And>f0. P f0 \<Longrightarrow> run_spec (\<lambda>f. f = f0) m Q) \<Longrightarrow> run_spec P m Q"
  unfolding run_spec_def by blast

lemma quote_follows [run_specs]:
  assumes "run_laws X H"
  shows "run_spec (\<lambda>f. follows X H f1 f \<and> strict_observe X (h_sdk H) f = o1) (quote_receipt X H)
     (\<lambda>p f. (good_receipt (fst p) \<and> (\<exists>h. strict_observe X (h_sdk H) h = o1 \<and> quoted X H h (snd p))) \<and> follows X H f1 f)"
proof (rule spec_each)
  fix f0 assume f0: "follows X H f1 f0 \<and> strict_observe X (h_sdk H) f0 = o1"
  then have start: "pristine X H f0 f0" by (simp add: pristine_refl follows_def)
  show "run_spec (\<lambda>f. f = f0) (quote_receipt X H)
     (\<lambda>p f. (good_receipt (fst p) \<and> (\<exists>h. strict_observe X (h_sdk H) h = o1 \<and> quoted X H h (snd p))) \<and> follows X H f1 f)"
    by (rule spec_conseq [OF quote_pristine [OF assms, of f0]])
      (use f0 start in \<open>auto simp: pristine_def follows_def\<close>)
qed

text \<open>The quote after the trades, of which only the receipt matters.\<close>

lemma quote_later:
  assumes "run_laws X H"
  shows "run_spec (follows X H f1) (quote_receipt X H) (\<lambda>p f. good_receipt (fst p) \<and> follows X H f1 f)"
proof (rule spec_each)
  fix f0 assume "follows X H f1 f0"
  then show "run_spec (\<lambda>f. f = f0) (quote_receipt X H) (\<lambda>p f. good_receipt (fst p) \<and> follows X H f1 f)"
    by (intro spec_conseq [OF quote_follows [OF assms, of f1 "strict_observe X (h_sdk H) f0"]]) auto
qed

subsection \<open>The steps of the workflow\<close>

lemma registration_step:
  assumes "run_laws X H" and "fork_ok X (h_sdk H) f0"
  shows "run_spec (\<lambda>f. f = f0) (smap_err Run_Strict (register_candidate X H address wasm digest args))
     (\<lambda>c f. fork_ok X (h_sdk H) f)"
  unfolding run_spec_def
proof (intro allI impI)
  fix f r f' assume f: "f = f0" and run: "smap_err Run_Strict (register_candidate X H address wasm digest args) f = (r, f')"
  obtain x where x: "register_candidate X H address wasm digest args f = (x, f')" "r = map_err Run_Strict x"
    using run by (cases "register_candidate X H address wasm digest args f") (auto simp: smap_err_def split: sum.splits)
  show "(\<forall>e. r = Inl e \<longrightarrow> honest e) \<and> (\<forall>c. r = Inr c \<longrightarrow> fork_ok X (h_sdk H) f')"
    using register_candidate_keeps [OF run_lawsD(1-3) [OF assms(1)] assms(2) x(1) [unfolded f]] x(2)
    by (cases x) auto
qed

lemma opening_step:
  assumes "run_laws X H"
  shows "run_spec (pristine X H f1) (run_opening X H) (\<lambda>p f.
     (quoted X H f1 (fst (snd p)) \<and> one_token < fst (snd (snd p)) \<and>
       i128_of_u128 (fst (snd (snd p))) = Inr (fst (snd (snd p))) \<and> length (snd (snd (snd p))) = 3 \<and>
       list_all good_receipt (snd (snd (snd p)))) \<and> follows X H f1 f)"
  unfolding run_opening_def
  by (intro spec_bind [OF preview_pristine [OF assms]] spec_bind [OF spec_lift] spec_bind [OF quote_pristine [OF assms]]
      spec_pure spec_return spec_split spec_if spec_fail)
    (auto simp: pristine_def tenth_fits dest: honest_reading split: list.splits)

lemma trading_step:
  assumes "run_laws X H" and "i128_of_u128 minted = Inr minted"
  shows "run_spec (follows X H f1) (run_trading X H usdc minted) (\<lambda>p f.
     (unat minted < 2 ^ 127 \<and> length (snd p) = 3 \<and> list_all good_receipt (snd p)) \<and> follows X H f1 f)"
  unfolding run_trading_def
  by (intro spec_bind [OF invoke_follows [OF assms(1)]] spec_bind [OF spec_lift]
      spec_pure spec_return)
    (use assms(2) in \<open>auto simp: i128_of_u128_def dest: honest_reading split: if_splits\<close>)

lemma revert_step:
  assumes "run_laws X H" and "fork_ok X (h_sdk H) f1" and c: "c = strict_fork_checkpoint X (h_sdk H) f1"
  shows "run_spec (follows X H f1) (strict_revert_step X H c)
     (\<lambda>u f. follows X H f1 f \<and> strict_observe X (h_sdk H) f = strict_observe X (h_sdk H) f1)"
  unfolding run_spec_def c
proof (intro allI impI)
  fix f r f'
  let ?c = "strict_fork_checkpoint X (h_sdk H) f1"
  assume f: "follows X H f1 f" and run: "strict_revert_step X H ?c f = (r, f')"
  have compatible: "strict_compatible X (h_sdk H) f1 f"
    using assms f by (simp add: strict_compatible_def run_laws_def follows_def)
  obtain g where g: "strict_revert X (h_sdk H) ?c f = Inr g"
      "strict_observe X (h_sdk H) g = strict_observe X (h_sdk H) f1"
    using strict_fork.own [OF compatible] f by (auto simp: follows_def)
  have "checkpoint_ok X (sf_id f) (sf_network_protocol_version f) ?c"
    using checkpoint_is_ok [OF assms(2)] f by (simp add: follows_def)
  from strict_revert_keeps [OF run_lawsD(1,2) [OF assms(1)] this g(1)]
  show "(\<forall>e. r = Inl e \<longrightarrow> honest e) \<and> (\<forall>u. r = Inr u \<longrightarrow>
      follows X H f1 f' \<and> strict_observe X (h_sdk H) f' = strict_observe X (h_sdk H) f1)"
    using run g f by (auto simp: strict_revert_step_def follows_def)
qed

lemma unknown_step:
  assumes "run_laws X H"
  shows "run_spec (follows X H f1) (unknown_fails_closed X H) (\<lambda>b f. follows X H f1 f)"
  unfolding run_spec_def
proof (intro allI impI)
  fix f r f' assume f: "follows X H f1 f" and run: "unknown_fails_closed X H f = (r, f')"
  have keeps: "follows X H f1 f2"
    if "strict_invoke X H request execution auth f = (x, f2)" for request execution auth x f2
    using strict_invoke_keeps [OF run_lawsD(1-3) [OF assms] _ that] f by (simp add: follows_def)
  show "(\<forall>e. r = Inl e \<longrightarrow> honest e) \<and> (\<forall>b. r = Inr b \<longrightarrow> follows X H f1 f')"
    using run f unfolding unknown_fails_closed_def
    by (auto split: sum.splits prod.splits strict_fork_error.splits dest: keeps)
qed

subsection \<open>The whole workflow\<close>

definition report_ok :: "run_report \<Rightarrow> bool" where
  "report_ok rp \<longleftrightarrow> rp_restored_quote rp = rp_quote_before rp \<and> rp_quote_after rp < rp_quote_before rp \<and>
     one_token < rp_minted rp \<and> unat (rp_minted rp) < 2 ^ 127 \<and> rp_upstream_reads rp = 0 \<and>
     length (rp_receipts rp) = 8 \<and> list_all good_receipt (rp_receipts rp)"

lemma good_reads: "list_all good_receipt rcs \<Longrightarrow> list_all (\<lambda>rc. rc_upstream_reads rc = 0) rcs"
  by (auto simp: list_all_iff good_receipt_def)

lemma checkpoint_step:
  assumes "P f1"
  shows "run_spec (\<lambda>f. f = f1) (strict_checkpoint_step X H) (\<lambda>c f. c = strict_fork_checkpoint X (h_sdk H) f1 \<and> P f)"
  using assms by (simp add: run_spec_def strict_checkpoint_step_def)

lemma closing_step:
  assumes "run_laws X H" and "list_all good_receipt receipts" and "\<And>f u. Q (rp u (strict_upstream_reads f)) f"
  shows "run_spec (follows X H f1) (sbind (unknown_fails_closed X H) (\<lambda>u f.
      if strict_upstream_reads f \<noteq> 0 \<or> \<not> list_all (\<lambda>rc. rc_upstream_reads rc = 0) receipts
      then sfail Upstream_Read_Reported f else sret (rp u (strict_upstream_reads f)) f)) Q"
  by (rule spec_bind [OF unknown_step [OF assms(1)]])
    (use assms(2,3) in \<open>simp add: run_spec_def strict_upstream_reads_def good_reads\<close>)

lemma workflow_step:
  assumes laws: "run_laws X H" and ok: "fork_ok X (h_sdk H) f0"
  shows "run_spec (\<lambda>f. f = f0) (run_workflow X H pool wasm digest) (\<lambda>rp f. report_ok rp)"
  unfolding run_workflow_def
  unfolding Let_def
  apply (rule spec_bind [OF registration_step [OF laws ok]], rule spec_each)
  subgoal premises fork for registration f1
    by (rule spec_bind [OF checkpoint_step [where P = "pristine X H f1", OF pristine_refl [OF fork]]],
        intro spec_pure spec_split spec_if spec_fail spec_bind [OF opening_step [OF laws]]
          spec_bind [OF trading_step [OF laws]] spec_bind [OF quote_later [OF laws]]
          spec_bind [OF revert_step [OF laws fork]] spec_bind [OF quote_follows [OF laws]] closing_step [OF laws])
      (auto simp: report_ok_def strict_upstream_reads_def not_le dest: quoted_same [OF laws])
  done

lemma loaded_workflow:
  assumes "run_laws X H" and "from_bundle_bytes X J bs passphrase policy = Inr c"
    and "captured_fork X (h_sdk H) c counter = (Some f, counter')"
    and "run_workflow X H pool wasm digest f = (r, f')"
  shows "case r of Inl e \<Rightarrow> honest e | Inr rp \<Rightarrow> report_ok rp"
proof -
  have "fork_ok X (h_sdk H) f" using loaded_fork_ok [OF run_lawsD(1,2) [OF assms(1)] assms(2,3)] ..
  from workflow_step [OF assms(1) this, of pool wasm digest] assms(4) show ?thesis
    by (auto simp: run_spec_def split: sum.split)
qed

lemma load_bundle_Inr:
  assumes "load_bundle X J path allow_newer d = (Inr c, d1)"
  obtains bs policy where "from_bundle_bytes X J bs cli_mainnet_passphrase policy = Inr c"
proof -
  obtain policy where "bundle_from_file_with_policy X J path cli_mainnet_passphrase policy d = (Inr c, d1)"
    using assms by (auto simp: load_bundle_def bundle_from_file_def bundle_from_file_allowing_newer_protocol_def split: if_splits)
  then show thesis
    using that by (auto simp: bundle_from_file_with_policy_def sbind_def slift_def split: prod.splits sum.splits)
qed

subsection \<open>The command\<close>

text \<open>
  C17. The workflow's own checks never fail and its report is honest: whatever bundle was loaded,
  whatever candidate is installed and whatever a Host following its documentation answers, the run
  never ends with "reverted quote does not match", "reported an upstream read" or an amount to mint
  (a tenth of a reserve) that is no \<open>i128\<close>; when it
  succeeds, the quote after the revert equals the quote before the trades, the trades lowered it,
  the minted amount is above one token and fits an i128, and there are eight receipts, all of
  successful calls, none with an upstream read.
\<close>

theorem workflow_restores_quote:
  assumes "run_laws X H" and "from_bundle_bytes X J bs passphrase policy = Inr c"
    and "captured_fork X (h_sdk H) c counter = (Some f, counter')"
    and "run_workflow X H pool wasm digest f = (r, f')"
  shows "case r of
      Inl e \<Rightarrow> e \<noteq> Quote_Not_Restored \<and> e \<noteq> Upstream_Read_Reported \<and> e \<noteq> Minted_Not_I128
    | Inr rp \<Rightarrow> rp_restored_quote rp = rp_quote_before rp \<and>
        rp_quote_after rp < rp_quote_before rp \<and>
        one_token < rp_minted rp \<and> unat (rp_minted rp) < 2 ^ 127 \<and> rp_upstream_reads rp = 0 \<and>
        length (rp_receipts rp) = 8 \<and>
        list_all (\<lambda>rc. is_success (rc_outcome rc) \<and> rc_upstream_reads rc = 0) (rp_receipts rp)"
  using loaded_workflow [OF assms]
  by (auto simp: honest_def report_ok_def good_receipt_def [abs_def] split: sum.splits)

text \<open>The command runs the workflow on the bundle of its path, so its errors and report are those.\<close>

lemma command_report:
  assumes "run_laws X H"
    and "run_command X H J W path_of fixture_path candidate allow_newer (d, counter) = (r, disk_counter)"
  shows "case r of Inl (Error e) \<Rightarrow> honest e | Inl Panicked \<Rightarrow> True | Inr (ledger, rp, protocols) \<Rightarrow> report_ok rp"
proof -
  have workflow: "case x of Inl e \<Rightarrow> honest e | Inr rp \<Rightarrow> report_ok rp"
    if loaded: "load_bundle X J fixture_path allow_newer d = (Inr c, d1)"
      and "captured_fork X (h_sdk H) c counter = (Some fork, counter1)"
      and "run_workflow X H pool wasm digest fork = (x, fork1)" for c d1 fork counter1 pool wasm digest x fork1
    using load_bundle_Inr [OF loaded] loaded_workflow [OF assms(1) _ that(2,3)] by metis
  moreover have "honest e" if "candidate_bytes W path_of candidate d1 = (Inl e, d2)" for e d1 d2
    using that by (cases candidate)
      (auto simp: candidate_bytes_def smap_err_def map_err_def split: sum.splits option.splits prod.splits)
  ultimately show ?thesis
    using assms(2) unfolding run_command_def
    by (auto split: sum.splits prod.splits option.splits dest: workflow)
qed

end
