(* ===== verification/Sample_Aquarius.thy ===== *)
theory Sample_Aquarius
  imports Aquarius_Properties Sample_Strict Sample_Auto
begin

text \<open>
  A whole run of the workflow on a small market: the quote falls once a swap has touched the pool's
  instance, the other calls change nothing, and a contract that is not there is read and missed.
  The witness of \<open>workflow_restores_quote\<close> is evaluated here.
\<close>

definition market_touched :: "snapshot_entry list \<Rightarrow> bool" where
  "market_touched es \<longleftrightarrow> (\<exists>(key, entry, live)\<in>set es. entry = sample_instance_entry\<lparr>le_last_modified := 6\<rparr>)"

definition market_answer :: "snapshot_entry list \<Rightarrow> string \<Rightarrow> sc_val" where
  "market_answer es function =
     (if function = ''get_tokens'' then ScVal_Vec (Some [ScVal_U32 0, ScVal_Address sample_contract])
      else if function = ''get_reserves'' then ScVal_Vec (Some [ScVal_U128 0 1, ScVal_U128 0 1000000000])
      else if function = ''estimate_swap'' then ScVal_U128 0 (if market_touched es then 5 else 9)
      else ScVal_U128 0 1)"

definition market_host :: "sdk_snapshot host" where
  "market_host = sample_host\<lparr> h_try_invoke := (\<lambda>env contract function args.
     if function = ''missing'' then Get (contract_instance_key contract) (\<lambda>answer. Done (Call_Panicked, env))
     else Done (Call_Value (market_answer (sn_ledger_entries (sk_ledger env)) function),
       if function = ''swap'' then sample_touch env else env)) \<rparr>"

lemma market_host_simps [simp]:
  "h_sdk market_host = sample_sdk" "h_address_ok market_host env a" "h_val_ok market_host env v"
  "h_symbol_ok market_host env s \<longleftrightarrow> length s \<le> 32" "h_mock_all_auths market_host env = env"
  "h_register_at market_host env address wasm args = Done (Some address, sample_install env)"
  "h_stored_entries market_host env = Some (map fst (sn_ledger_entries (sk_ledger env)))"
  "h_diagnostic_events market_host env = Some []"
  "h_set_authorization_entries market_host env [] = Some env"
  by (simp_all add: market_host_def sample_host_def)

lemma market_script:
  "function \<noteq> ''missing'' \<Longrightarrow> invoke_outcome_of market_host env contract function args =
     Done (Success (market_answer (sn_ledger_entries (sk_ledger env)) function),
       if function = ''swap'' then sample_touch env else env)"
  by (simp add: invoke_outcome_of_def invoke_once_def market_host_def invocation_result_def)

lemma market_laws: "run_laws sample_X market_host"
proof -
  have "host_laws market_host"
    by (simp add: host_laws_def env_protocol_def market_host_def sample_host_def sample_sdk_def sample_touch_def
        sample_install_def)
  moreover have "call_order_law market_host"
    unfolding call_order_law_def
  proof (intro allI impI)
    fix info es entries e1 e2 contract fname args and s :: ledger_snapshot
    assume "mset es = mset (sn_ledger_entries s)"
    then have touched: "market_touched es = market_touched (sn_ledger_entries s)"
      unfolding market_touched_def by (metis mset_eq_setD)
    show "h_set_authorization_entries market_host (sdk_configure (h_sdk market_host)
          (sdk_from_ledger_snapshot (h_sdk market_host) info (Some s))) entries = Some e1 \<Longrightarrow>
        h_set_authorization_entries market_host (sdk_configure (h_sdk market_host)
          (sdk_from_ledger_snapshot (h_sdk market_host) info (Some (s\<lparr>sn_ledger_entries := es\<rparr>)))) entries = Some e2 \<Longrightarrow>
        map_script fst (h_try_invoke market_host e1 contract fname args) =
        map_script fst (h_try_invoke market_host e2 contract fname args)"
      using touched by (cases info) (auto simp: market_host_def sample_host_def sample_sdk_def sample_of_info_def
          market_answer_def o_def split: if_split_asm)
  qed
  ultimately show ?thesis
    using sample_sdk_laws sample_ledger_info_laws by (simp add: run_laws_def)
qed

subsection \<open>One call\<close>

definition market_ledger :: "ledger_snapshot \<Rightarrow> bool" where
  "market_ledger s \<longleftrightarrow> sn_protocol_version s = 29 \<and> list_all (entry_ok sample_X) (sn_ledger_entries s) \<and>
     distinct (map fst (map (encoded sample_X) (sn_ledger_entries s))) \<and>
     list_all (\<lambda>entry. \<not> is_nonce_key (fst entry)) (sn_ledger_entries s)"

definition market_at :: "ledger_snapshot \<Rightarrow> sdk_snapshot strict_fork \<Rightarrow> bool" where
  "market_at s f \<longleftrightarrow> fork_ok sample_X sample_sdk f \<and> sf_id f = 7 \<and> sf_network_protocol_version f = 29 \<and>
     strict_ledger_snapshot sample_X sample_sdk f = s"

lemma market_known:
  assumes "\<forall>key\<in>set stored. \<exists>i. key_to_xdr X key = Some i \<and> i \<in> bm_keys cov"
  shows "try_fold (\<lambda>unknown key. and_then (strict_key_id X key) (\<lambda>i.
      Inr (if bm_get cov i = None \<and> \<not> is_local_key key lc lh n then insert i unknown else unknown))) u stored = Inr u"
  using assms
proof (induction stored)
  case (Cons key stored)
  then obtain i where i: "strict_key_id X key = Inr i" "bm_get cov i \<noteq> None" by (auto simp: bm_keys_get)
  then show ?case using Cons by auto
qed simp

lemma market_covered:
  assumes "market_at s f" and "x \<in> set (sn_ledger_entries s)"
  shows "\<exists>i. key_to_xdr sample_X (fst x) = Some i \<and> i \<in> bm_keys (sf_coverage f)"
proof -
  obtain m where m: "snapshot_map sample_X s = Inr m" "covered_at (sf_coverage f) = value_at m"
    using assms(1) by (auto simp: market_at_def fork_ok_def ledger_ok_for_def mirrors_def)
  obtain key v where x: "x = (key, v)" by (cases x)
  obtain i where i: "key_to_xdr sample_X key = Some i" using m(1) assms(2) by (auto simp: snapshot_map_Inr x)
  have "i \<in> fst ` set (map (keyed_value sample_X) (sn_ledger_entries s))"
    using assms(2) i by (auto simp: image_image fst_keyed_value x intro: rev_image_eqI)
  then have "value_at m i \<noteq> None"
    using m(1) by (auto simp: snapshot_map_Inr value_at_def bm_of_list_get map_of_eq_None_iff)
  then show ?thesis
    using m(2) i by (auto simp: x bm_keys_get covered_at_def fun_eq_iff split: option.splits dest: spec [of _ i])
qed

definition market_auth :: "auth_mode \<Rightarrow> bool" where
  "market_auth auth \<longleftrightarrow> auth = Enforce [] \<or> auth = Record_Auth \<or> auth = Mock_Exact []"

definition market_after :: "string \<Rightarrow> ledger_snapshot \<Rightarrow> ledger_snapshot" where
  "market_after function s = (if function = ''swap'' then sk_ledger (sample_touch (sample_env s)) else s)"

lemma nonce_free_strip:
  assumes "list_all (\<lambda>entry. \<not> is_nonce_key (fst entry)) (sn_ledger_entries s)"
    and "list_all (\<lambda>entry. \<not> is_nonce_key (fst entry)) (sn_ledger_entries t)"
  shows "strip_new_mock_nonces X s t = Inr t"
proof -
  have "try_map (\<lambda>entry. if is_nonce_key (fst entry) then step entry else Inr [entry]) es = Inr (map (\<lambda>entry. [entry]) es)"
    if "list_all (\<lambda>entry. \<not> is_nonce_key (fst entry)) es"
    for step :: "snapshot_entry \<Rightarrow> strict_fork_error + snapshot_entry list" and es
    using that by (induction es) auto
  moreover have "filter is_nonce_key (map fst (sn_ledger_entries s)) = []"
    using assms(1) by (auto simp: filter_empty_conv list_all_iff)
  ultimately show ?thesis using assms(2) by (simp add: strip_new_mock_nonces_def)
qed

lemma market_child:
  assumes f: "market_at s f" and s: "market_ledger s" and t: "market_ledger (market_after fname s)"
    and auth: "market_auth auth" and called: "fname \<noteq> ''missing''" "length fname \<le> 32"
  shows "\<exists>rc. invoke_child sample_X market_host (call_request contract fname args) execution auth f =
      Inr (rc, market_after fname s) \<and> rc_outcome rc = Success (market_answer (sn_ledger_entries s) fname) \<and>
      rc_authorization rc = []"
proof -
  let ?t = "market_after fname s" and ?n = "allows_mock_nonces auth"
  let ?env = "if fname = ''swap'' then sample_touch (sample_env s) else sample_env s"
  let ?source = "\<lparr> ss_coverage = sf_coverage f, ss_local_contracts = sf_local_contracts f,
      ss_local_code_hashes = sf_local_code_hashes f, ss_allow_mock_nonces = ?n, ss_unknown = {} \<rparr>"
  have net: "sn_protocol_version s = 29" "sf_network_protocol_version f = 29"
      "strict_ledger_snapshot sample_X sample_sdk f = s"
    using f s by (simp_all add: market_at_def market_ledger_def)
  obtain d where d: "canonical_ledger_digest sample_X s = Inr d"
    using sample_digest s by (auto simp: market_ledger_def)
  obtain e where e: "canonical_ledger_digest sample_X ?t = Inr e"
    using sample_digest t by (auto simp: market_ledger_def)
  obtain changes where diff: "state_diff sample_X s ?t = Inr changes"
    using sample_state_diff s t by (auto simp: market_ledger_def)
  have ledger: "sk_ledger ?env = ?t" by (simp add: market_after_def)
  have keys: "map fst (sn_ledger_entries ?t) = map fst (sn_ledger_entries s)"
    by (simp add: market_after_def sample_touch_def case_prod_beta)
  have known: "unknown_keys sample_X market_host ?env ?source (sf_coverage f) (sf_local_contracts f)
      (sf_local_code_hashes f) ?n = Inr {}"
    using market_covered [OF f] by (simp add: unknown_keys_def ledger keys market_known)
  have run: "run_strict sample_X (invoke_outcome_of market_host (sample_env s) contract fname args) ?source =
      ((Success (market_answer (sn_ledger_entries s) fname), ?env), ?source)"
    using called by (simp add: run_strict_def market_script)
  have after: "network_ledger_snapshot sample_X sample_sdk ?env 29 = ?t"
    using sample_network_snapshot [of ?env] t by (simp only: ledger market_ledger_def)
  have strip: "strip_new_mock_nonces sample_X s ?t = Inr ?t"
    using s t by (simp add: market_ledger_def nonce_free_strip)
  have evidence: "detached_snapshot_evidence sample_sdk ?env = ([], [])"
    by (simp add: detached_snapshot_evidence_def sample_sdk_def sample_touch_def)
  obtain expected applied where authed: "apply_auth market_host auth (sample_env s) = Inr (sample_env s, applied, expected)"
      "expected = None \<or> expected = Some []"
    using auth by (auto simp: market_auth_def apply_auth_def)
  have "list_all (h_val_ok market_host env) args" for env by (simp add: list_all_iff)
  then show ?thesis
    using authed(2)
    by (auto simp: invoke_child_def Let_def net d sample_strict_env invocation_values_def call_request_def called(2)
        authed(1) run known refuse_unknown_def evidence after strip e diff detached_diagnostics_def simp del: if_split)
qed

lemma market_call:
  assumes f: "market_at s f" and s: "market_ledger s" and t: "market_ledger (market_after fname s)"
    and auth: "market_auth auth" and called: "fname \<noteq> ''missing''" "length fname \<le> 32"
  shows "\<exists>rc f'. invoke_success sample_X market_host (call_request contract fname args) execution auth f = (Inr rc, f') \<and>
      rc_outcome rc = Success (market_answer (sn_ledger_entries s) fname) \<and> rc_authorization rc = [] \<and>
      market_at (if execution = Apply then market_after fname s else s) f'"
proof -
  let ?request = "call_request contract fname args" and ?t = "market_after fname s"
  obtain rc where rc: "invoke_child sample_X market_host ?request execution auth f = Inr (rc, ?t)"
      "rc_outcome rc = Success (market_answer (sn_ledger_entries s) fname)" "rc_authorization rc = []"
    using market_child [OF assms] by blast
  have ok: "fork_ok sample_X (h_sdk market_host) f" using f by (simp add: market_at_def)
  obtain cov where cov: "update_coverage sample_X (rc_state_changes rc) (sf_coverage f) = (Inr (), cov)"
    using invoke_child_ledger [OF run_lawsD(1-3) [OF market_laws] ok rc(1)] by blast
  obtain r f' where run: "strict_invoke sample_X market_host ?request execution auth f = (r, f')" by fastforce
  have done_: "r = Inr rc \<and> f' = (if execution = Apply
      then f\<lparr>sf_coverage := cov, sf_env := sample_env ?t, sf_receipts := sf_receipts f @ [rc]\<rparr>
      else f\<lparr>sf_receipts := sf_receipts f @ [rc]\<rparr>)"
    using run t unfolding strict_invoke_def rc(1)
    by (auto simp: rc(2) is_success_def cov sample_strict_env market_ledger_def split: if_splits)
  moreover have "strict_ledger_snapshot sample_X sample_sdk f' = (if execution = Apply then ?t else s)"
    using done_ f t sample_network_snapshot [of "sample_env ?t"]
    by (auto simp: market_at_def market_ledger_def strict_ledger_snapshot_def)
  ultimately have "market_at (if execution = Apply then ?t else s) f' \<and> r = Inr rc"
    using strict_invoke_keeps [OF run_lawsD(1-3) [OF market_laws] ok run] f by (auto simp: market_at_def)
  then show ?thesis
    using run rc(2,3) by (auto simp: invoke_success_def sbind_def smap_err_def is_success_def)
qed

lemma market_after_other [simp]: "fname \<noteq> ''swap'' \<Longrightarrow> market_after fname s = s"
  by (simp add: market_after_def)

lemma market_quote:
  assumes "market_at s f" and "market_ledger s"
  shows "\<exists>rc f'. quote_receipt sample_X market_host f =
      (Inr (rc, if market_touched (sn_ledger_entries s) then 5 else 9), f') \<and> market_at s f'"
proof -
  obtain rc f' where "invoke_success sample_X market_host quote_request Preview (Enforce []) f = (Inr rc, f')"
      "rc_outcome rc = Success (market_answer (sn_ledger_entries s) ''estimate_swap'')" "market_at s f'"
    using market_call [OF assms, of "''estimate_swap''" "Enforce []"] assms(2)
    by (force simp: market_auth_def quote_request_def)
  then show ?thesis
    by (auto simp: quote_receipt_def sbind_def receipt_result_def market_answer_def sc_u128_value_def slift_def sret_def)
qed

subsection \<open>The market's two ledgers\<close>

definition market_traded :: ledger_snapshot where
  "market_traded = market_after ''swap'' sample_installed"

lemma market_traded_entries [simp]:
  "sn_ledger_entries market_traded = sn_ledger_entries sample_touched @
     [(Key_ContractCode (sample_sha256 [2]), sample_code_entry 2, Some 30)]"
  "sn_protocol_version market_traded = 29"
  by (simp_all add: market_traded_def market_after_def sample_touch_def)
    (simp add: sample_code_entry_def sample_instance_entry_def)

lemma market_ledgers: "market_ledger sample_installed" "market_ledger market_traded"
proof -
  show "market_ledger sample_installed"
    using sample_base_ok(1) sample_installed_distinct by (simp add: market_ledger_def entry_ok_def sample_nonce_free)
  moreover have "map (fst \<circ> encoded sample_X) (sn_ledger_entries market_traded) =
      map (fst \<circ> encoded sample_X) (sn_ledger_entries sample_installed)"
    by (simp add: fst_encoded)
  moreover have "list_all (entry_ok sample_X) (sn_ledger_entries market_traded)"
    using sample_touched_ok(1)
    by (simp del: sample_touched_entries(1)) (simp add: entry_ok_def)
  ultimately show "market_ledger market_traded"
    by (simp add: market_ledger_def sample_nonce_free)
qed

lemma market_prices:
  "\<not> market_touched (sn_ledger_entries sample_installed)" "market_touched (sn_ledger_entries market_traded)"
  by (simp_all add: market_touched_def) (simp add: sample_code_entry_def sample_instance_entry_def)

lemma market_registered:
  "\<exists>c f. register_candidate sample_X market_host run_candidate [2] (sample_sha256 [2]) args sample_strict = (Inr c, f) \<and>
     market_at sample_installed f"
proof -
  have free: "sample_key_to_xdr (contract_instance_key run_candidate) = Some (6 # replicate 32 0x6c)"
      "bm_get sample_all_coverage (6 # replicate 32 0x6c) = None" "is_contract run_candidate"
    by (simp_all add: sample_key_to_xdr_def contract_instance_key_def run_candidate_def is_contract_def
        sample_all_coverage_def sample_instance_id_def sample_code_id_def del: sample_code_id_fold)
  obtain c f where run: "register_candidate sample_X market_host run_candidate [2] (sample_sha256 [2]) args sample_strict =
      (Inr c, f)" "strict_ledger_snapshot sample_X sample_sdk f = sample_installed"
    using sample_registered [OF market_host_simps(1,6,7,2,3) free(3,1,2)] by blast
  moreover have "sf_id sample_strict = 7"
    by (simp add: sample_strict_def captured_fork_def strict_from_captured_def next_id_def)
  ultimately show ?thesis
    using register_candidate_keeps [OF run_lawsD(1-3) [OF market_laws] sample_strict_ok [folded market_host_simps(1)] run(1)]
    by (auto simp: market_at_def sample_strict_parts)
qed

subsection \<open>The run\<close>

lemma market_opening:
  assumes "market_at sample_installed f"
  shows "\<exists>rcs f'. run_opening sample_X market_host f = (Inr (sample_contract, 9, 100000000, rcs), f') \<and>
     market_at sample_installed f'"
proof -
  note call = market_call [OF _ market_ledgers(1), where execution = Preview and auth = "Enforce []" and
      contract = run_candidate and args = "[]"]
  obtain r1 f1 where r1: "invoke_success sample_X market_host (call_request run_candidate ''get_tokens'' []) Preview
      (Enforce []) f = (Inr r1, f1)"
      "rc_outcome r1 = Success (ScVal_Vec (Some [ScVal_U32 0, ScVal_Address sample_contract]))"
      "market_at sample_installed f1"
    using call [OF assms, of "''get_tokens''"] market_ledgers(1) by (auto simp: market_auth_def market_answer_def)
  obtain r2 f2 where r2: "quote_receipt sample_X market_host f1 = (Inr (r2, 9), f2)" "market_at sample_installed f2"
    using market_quote [OF r1(3) market_ledgers(1)] market_prices(1) by auto
  obtain r3 f3 where r3: "invoke_success sample_X market_host (call_request run_candidate ''get_reserves'' []) Preview
      (Enforce []) f2 = (Inr r3, f3)"
      "rc_outcome r3 = Success (ScVal_Vec (Some [ScVal_U128 0 1, ScVal_U128 0 1000000000]))"
      "market_at sample_installed f3"
    using call [OF r2(2), of "''get_reserves''"] market_ledgers(1) by (auto simp: market_auth_def market_answer_def)
  show ?thesis
    using r1 r2 r3
    by (auto simp: run_opening_def sbind_def receipt_result_def sc_vec_def second_address_def sc_u128_vec_def
        sc_u128_value_def one_token_def slift_def sret_def)
qed

lemma market_trading:
  assumes "market_at sample_installed f"
  shows "\<exists>rcs f'. run_trading sample_X market_host sample_contract 100000000 f = (Inr (1, rcs), f') \<and>
     market_at market_traded f'"
proof -
  note call = market_call [OF _ market_ledgers(1)]
  obtain r1 f1 where r1: "invoke_success sample_X market_host
      (call_request sample_contract ''mint'' [ScVal_Address run_user, sc_i128 100000000]) Apply Record_Auth f = (Inr r1, f1)"
      "market_at sample_installed f1"
    using call [OF assms, of "''mint''" Record_Auth sample_contract "[ScVal_Address run_user, sc_i128 100000000]" Apply]
      market_ledgers(1) by (auto simp: market_auth_def)
  obtain r2 f2 where r2: "invoke_success sample_X market_host (swap_request 100000000) Preview Record_Auth f1 = (Inr r2, f2)"
      "rc_authorization r2 = []" "market_at sample_installed f2"
    using call [OF r1(2), of "''swap''" Record_Auth run_candidate _ Preview] market_ledgers(2)
    unfolding swap_request_def market_traded_def by (force simp: market_auth_def)
  obtain r3 f3 where r3: "invoke_success sample_X market_host (swap_request 100000000) Apply (Mock_Exact []) f2 = (Inr r3, f3)"
      "rc_outcome r3 = Success (ScVal_U128 0 1)" "market_at market_traded f3"
    using call [OF r2(3), of "''swap''" "Mock_Exact []" run_candidate _ Apply] market_ledgers(2)
    unfolding swap_request_def market_traded_def by (force simp: market_auth_def market_answer_def)
  show ?thesis
    using r1 r2 r3
    by (auto simp: run_trading_def sbind_def i128_of_u128_def receipt_result_def sc_u128_value_def slift_def sret_def)
qed

lemma market_reverted:
  assumes f1: "market_at s f1" and s: "market_ledger s" and f: "market_at t f"
  shows "\<exists>f'. strict_revert_step sample_X market_host (strict_fork_checkpoint sample_X sample_sdk f1) f = (Inr (), f') \<and>
     market_at s f'"
proof -
  have at: "sf_id f1 = 7" "sf_network_protocol_version f1 = 29" "sf_id f = 7" "sf_network_protocol_version f = 29"
      "strict_ledger_snapshot sample_X sample_sdk f1 = s" "fork_ok sample_X sample_sdk f1"
    using f1 f by (simp_all add: market_at_def)
  have net: "sn_protocol_version s = 29" using s by (simp add: market_ledger_def)
  obtain f' where f': "strict_revert sample_X sample_sdk (strict_fork_checkpoint sample_X sample_sdk f1) f = Inr f'"
      "sf_env f' = sample_env s" "sf_id f' = 7" "sf_network_protocol_version f' = 29"
    by (simp add: strict_revert_def at(1,3,4)) (simp add: at(5) sample_strict_env [OF net])
  have "checkpoint_ok sample_X (sf_id f) (sf_network_protocol_version f) (strict_fork_checkpoint sample_X sample_sdk f1)"
    using checkpoint_is_ok [OF at(6)] by (simp add: at(1-4))
  from strict_revert_keeps [OF run_lawsD(1,2) [OF market_laws, unfolded market_host_simps(1)] this f'(1)]
  have "fork_ok sample_X sample_sdk f'" by blast
  then show ?thesis
    using f' net sample_network_snapshot [of "sample_env s"]
    by (auto simp: strict_revert_step_def market_at_def strict_ledger_snapshot_def)
qed

lemma market_unknown:
  assumes "market_at s f"
  shows "\<exists>b f'. unknown_fails_closed sample_X market_host f = (Inr b, f')"
proof -
  have ok: "fork_ok sample_X (h_sdk market_host) f" using assms by (simp add: market_at_def)
  then obtain d where d: "strict_ledger_digest sample_X (h_sdk market_host) f = Inr d"
    by (auto simp: fork_ok_def ledger_ok_for_def strict_ledger_digest_def)
  obtain r f1 where run: "strict_invoke sample_X market_host
      (call_request (ScAddress_Contract (replicate 32 0xee)) ''missing'' []) Apply (Enforce []) f = (r, f1)"
    by fastforce
  show ?thesis
  proof (cases r)
    case (Inl e)
    then have "f1 = f" using strict_invoke_keeps [OF run_lawsD(1-3) [OF market_laws] ok run] by simp
    then show ?thesis using d run Inl by (cases e) (auto simp: unknown_fails_closed_def)
  next
    case (Inr rc)
    then show ?thesis using d run by (auto simp: unknown_fails_closed_def)
  qed
qed

theorem workflow_restores_quote_witness:
  "\<exists>rp f'. run_workflow sample_X market_host sample_contract [2] (sample_sha256 [2]) sample_strict = (Inr rp, f') \<and>
     rp_quote_before rp = 9 \<and> rp_quote_after rp = 5 \<and> rp_restored_quote rp = 9"
proof -
  obtain registration f1 where f1: "register_candidate sample_X market_host run_candidate [2] (sample_sha256 [2])
      [ScVal_Address sample_contract] sample_strict = (Inr registration, f1)" "market_at sample_installed f1"
    using market_registered by blast
  obtain opened f2 where f2: "run_opening sample_X market_host f1 = (Inr (sample_contract, 9, 100000000, opened), f2)"
      "market_at sample_installed f2"
    using market_opening [OF f1(2)] by blast
  obtain trading f3 where f3: "run_trading sample_X market_host sample_contract 100000000 f2 = (Inr (1, trading), f3)"
      "market_at market_traded f3"
    using market_trading [OF f2(2)] by blast
  obtain after_receipt f4 where f4: "quote_receipt sample_X market_host f3 = (Inr (after_receipt, 5), f4)"
      "market_at market_traded f4"
    using market_quote [OF f3(2) market_ledgers(2)] market_prices(2) by auto
  obtain f5 where f5: "strict_revert_step sample_X market_host (strict_fork_checkpoint sample_X sample_sdk f1) f4 = (Inr (), f5)"
      "market_at sample_installed f5"
    using market_reverted [OF f1(2) market_ledgers(1) f4(2)] by blast
  obtain restored_receipt f6 where f6: "quote_receipt sample_X market_host f5 = (Inr (restored_receipt, 9), f6)"
      "market_at sample_installed f6"
    using market_quote [OF f5(2) market_ledgers(1)] market_prices(1) by auto
  obtain b f7 where f7: "unknown_fails_closed sample_X market_host f6 = (Inr b, f7)"
    using market_unknown [OF f6(2)] by blast
  obtain r f' where run: "run_workflow sample_X market_host sample_contract [2] (sample_sha256 [2]) sample_strict = (r, f')"
    by fastforce
  have parts: "r = Inl Upstream_Read_Reported \<or>
      (\<exists>rp. r = Inr rp \<and> rp_quote_before rp = 9 \<and> rp_quote_after rp = 5 \<and> rp_restored_quote rp = 9)"
    using run unfolding run_workflow_def sbind_def
    by (simp add: smap_err_def f1(1) strict_checkpoint_step_def f2(1) f3(1) f4(1) f5(1) f6(1) f7 Let_def
        sret_def sfail_def split: if_splits) (auto simp: sret_def sfail_def split: if_splits)
  show ?thesis
    using workflow_restores_quote [OF market_laws sample_bytes_read
        sample_strict_created [folded market_host_simps(1)] run] parts run
    by auto
qed

text \<open>The sample bundle, read back, forks as captured.\<close>

theorem loaded_bundle_forks_witness:
  "mirrors sample_X (sf_coverage sample_strict) (strict_ledger_snapshot sample_X sample_sdk sample_strict) \<and>
     strict_ledger_digest sample_X sample_sdk sample_strict = Inr (ff_ledger_digest (cf_fixture sample_captured))"
  using loaded_bundle_forks [OF sample_strict_laws(1-3) sample_bytes_read
      sample_strict_created [folded sample_host_simps(1)] strict_history.start] by simp

end
