(* ===== verification/Capture_Tool.thy ===== *)
theory Capture_Tool
  imports Auto_Runner Cli_Options
begin

text \<open>
  The capture tool (\<open>capture\<close>, \<open>replay\<close> and \<open>load\<close> of \<open>tools/capture_aquarius_xlm_usdc_cp.rs\<close>), also
  behind the main tool's \<open>capture\<close> command. The scenario is an argument; the tool's is \<open>tool_scenario\<close> of
  \<open>Aquarius_Scenario\<close>.
\<close>

definition tool_mainnet_passphrase :: string where
  "tool_mainnet_passphrase = ''Public Global Stellar Network ; September 2015''"

definition builder_mainnet ::
  "externals \<Rightarrow> ('w, 'resp) http_env \<Rightarrow> string \<Rightarrow> capture_error + ((rate_limiter \<times> 'w) capture_builder \<times> rate_limiter)" where
  "builder_mainnet X H rpc_url = builder_rpc X H rpc_url tool_mainnet_passphrase"

datatype tool_error = Tool_Io | Tool_Error capture_error

definition tool_load ::
  "externals \<Rightarrow> json_codec \<Rightarrow> fs_path \<Rightarrow> bool \<Rightarrow> (disk, tool_error fault, captured_fixture) act" where
  "tool_load X J bundle_path allow_newer =
     smap_err (\<lambda>e. Error (Tool_Error e))
       (if allow_newer then bundle_from_file_allowing_newer_protocol X J bundle_path tool_mainnet_passphrase
        else bundle_from_file X J bundle_path tool_mainnet_passphrase)"

definition tool_replay ::
  "externals \<Rightarrow> 'env sdk \<Rightarrow> json_codec \<Rightarrow> 'env scenario \<Rightarrow> fs_path \<Rightarrow> bool
    \<Rightarrow> (disk, tool_error fault, captured_fixture) act" where
  "tool_replay X S J scenario bundle_path allow_newer =
     sbind (tool_load X J bundle_path allow_newer) (\<lambda>captured.
     sbind (smap_err (map_fault Tool_Error) (slift (replay_with_local X S captured scenario))) (\<lambda>_.
       sret captured))"

definition tool_create_parent :: "fs_path \<Rightarrow> (disk, tool_error fault, unit) act" where
  "tool_create_parent bundle_path =
     (case fp_parent bundle_path of
        Some parent \<Rightarrow> if parent = [] then sret ()
          else smap_err (\<lambda>source. Error Tool_Io) (fs_create_dir_all parent)
      | None \<Rightarrow> sret ())"

text \<open>The capture proper, on the disk and the network side, with the builder's limiter.\<close>

definition tool_capture_with ::
  "externals \<Rightarrow> 'env sdk \<Rightarrow> json_codec \<Rightarrow> 'n capture_builder \<Rightarrow> 'env scenario \<Rightarrow> fs_path \<Rightarrow> bool
    \<Rightarrow> (disk \<times> 'n, tool_error fault, captured_fixture) act" where
  "tool_capture_with X S J builder scenario bundle_path allow_newer =
     sbind (on_network (smap_err (map_fault Tool_Error) (capture X S builder scenario))) (\<lambda>captured.
     sbind (on_disk (smap_err (\<lambda>e. Error (Tool_Error e)) (write_file X J captured bundle_path))) (\<lambda>_.
       on_disk (tool_replay X S J scenario bundle_path allow_newer)))"

definition tool_capture ::
  "externals \<Rightarrow> 'env sdk \<Rightarrow> json_codec \<Rightarrow> ('w, 'resp) http_env \<Rightarrow> 'env scenario \<Rightarrow> string \<Rightarrow> fs_path \<Rightarrow> bool
    \<Rightarrow> (disk \<times> 'w, tool_error fault, captured_fixture) act" where
  "tool_capture X S J H scenario rpc_url bundle_path allow_newer = (\<lambda>(d, w).
     case tool_create_parent bundle_path d of
       (Inl e, d1) \<Rightarrow> (Inl e, (d1, w))
     | (Inr _, d1) \<Rightarrow>
         (case builder_mainnet X H rpc_url of
            Inl e \<Rightarrow> (Inl (Error (Tool_Error e)), (d1, w))
          | Inr (builder, limiter) \<Rightarrow>
              (case tool_capture_with X S J (if allow_newer then allow_newer_protocol builder else builder)
                  scenario bundle_path allow_newer (d1, (limiter, w)) of
                 (r, (d2, (limiter2, w2))) \<Rightarrow> (r, (d2, w2)))))"

subsection \<open>What the tool saves\<close>

lemma tool_create_parent_files: "tool_create_parent path d = (r, d') \<Longrightarrow> dk_files d' = dk_files d"
  by (auto simp: tool_create_parent_def smap_err_def syscall_simps split: option.splits if_splits prod.splits)

lemma tool_load_as:
  "tool_load X J path allow_newer = smap_err (\<lambda>e. Error (Tool_Error e))
     (bundle_from_file_with_policy X J path tool_mainnet_passphrase (if allow_newer then AllowNewer else Exact))"
  by (simp add: tool_load_def bundle_from_file_def bundle_from_file_allowing_newer_protocol_def)

lemma builder_mainnet_parts:
  assumes "builder_mainnet X H rpc_url = Inr (B0, limiter)"
    and "B = (if allow_newer then allow_newer_protocol B0 else B0)"
  shows "cb_network_passphrase B = tool_mainnet_passphrase"
    "cb_protocol_policy B = (if allow_newer then AllowNewer else Exact)" "cb_transport B = http_transport X H"
    "redact_rpc_origin rpc_url = Inr (cb_rpc_origin B)" "cb_max_discovery_rounds B = max_discovery_rounds"
  using assms by (auto simp: builder_mainnet_def builder_rpc_def allow_newer_protocol_def)

text \<open>A capture made by the tool's builder loads again, when its bytes are read, as itself.\<close>

lemma tool_readable:
  assumes "builder_mainnet X H rpc_url = Inr (B0, limiter)"
    and "B = (if allow_newer then allow_newer_protocol B0 else B0)"
    and "capture X S B scenario n = (Inr f, n')"
    and "xdr_laws X" "sha_laws X" "base64_laws X" "json_laws J" "fits_usize (cf_coverage f)"
    and "to_bundle X f = Inr b" "js_print J b = Some bs"
  shows "from_bundle_bytes X J bs tool_mainnet_passphrase (if allow_newer then AllowNewer else Exact) = Inr f"
proof -
  note B = builder_mainnet_parts [OF assms(1,2)]
  have keys: "bm_ok []" "keyed X []" and run: "capture_ref_from_keys X S B scenario [] n = (Inr f, n')"
    using assms(3) by (simp_all add: keyed_def capture_def)
  have "pv_ledger_hash (cf_provenance f) \<noteq> []"
    using capture_gives_ok [OF run keys] http_anchor_hash [OF _ assms(5)] unfolding B(3) by metis
  from written_capture_reads [OF run keys assms(4-7) _ B(4) this assms(8)] show ?thesis
    using assms(9,10) B(1,2,5) by auto
qed

lemma tool_replay_files: "tool_replay X S J scenario path allow_newer d = (r, d') \<Longrightarrow> dk_files d' = dk_files d"
  by (auto simp: tool_replay_def tool_load_as sbind_def smap_err_def slift_def sret_def
      split: prod.splits sum.splits dest: bundle_from_file_files)

lemma tool_replay_written:
  assumes "tool_replay X S J scenario path allow_newer d = (r, d')" and "path_loc path = Some dest"
    and "dk_files d dest = Some bs" and "replay_with_local X S f scenario = Inr out"
    and "from_bundle_bytes X J bs tool_mainnet_passphrase (if allow_newer then AllowNewer else Exact) = Inr f"
  shows "r = Inr f \<or> r = Inl (Error (Tool_Error (CaptureBundleIo ''read'')))"
proof -
  obtain x d1 where x: "fs_read dest d = (x, d1)" by fastforce
  have "x = Inr bs \<or> (\<exists>e. x = Inl e)" using fs_read_Inr [of dest d] x assms(3) by (cases x) auto
  then show ?thesis
    using assms x
    by (auto simp: tool_replay_def tool_load_as bundle_from_file_with_policy_def sbind_def smap_err_def slift_def sret_def)
qed

text \<open>The capture proper: nothing happened to the file, or it was written and read back.\<close>

lemma tool_capture_with_cases:
  assumes "tool_capture_with X S J B scenario path allow_newer (d, n) = (r, (d', n'))"
  obtains (failed) e where "r = Inl e" "d' = d"
  | (unwritten) f n1 e where "capture X S B scenario n = (Inr f, n1)" "write_file X J f path d = (Inl e, d')"
      "r = Inl (Error (Tool_Error e))"
  | (written) f n1 d1 where "capture X S B scenario n = (Inr f, n1)" "write_file X J f path d = (Inr (), d1)"
      "tool_replay X S J scenario path allow_newer d1 = (r, d')"
proof -
  obtain x n1 where x: "capture X S B scenario n = (x, n1)" by fastforce
  show thesis
  proof (cases x)
    case (Inl e)
    then show thesis using assms x failed
      by (auto simp: tool_capture_with_def sbind_def smap_err_def on_network_def map_err_def)
  next
    case (Inr f)
    obtain wr d1 where "write_file X J f path d = (wr, d1)" by fastforce
    then show thesis using assms x Inr unwritten [of f n1] written [of f n1 d1]
      by (cases wr) (auto simp: tool_capture_with_def sbind_def smap_err_def on_network_def map_err_def on_disk_def
          split: prod.splits)
  qed
qed

text \<open>A file that holds the printed bundle of a capture, loads as that capture and replays the scenario.\<close>

definition tool_saved ::
  "externals \<Rightarrow> 'env sdk \<Rightarrow> json_codec \<Rightarrow> 'env scenario \<Rightarrow> bool \<Rightarrow> bytes option \<Rightarrow> captured_fixture \<Rightarrow> bool" where
  "tool_saved X S J scenario allow_newer content f \<longleftrightarrow> (\<exists>b bs. to_bundle X f = Inr b \<and> js_print J b = Some bs \<and>
     content = Some bs \<and>
     from_bundle_bytes X J bs tool_mainnet_passphrase (if allow_newer then AllowNewer else Exact) = Inr f \<and>
     replay_with_local X S f scenario = Inr ())"

lemma tool_saves:
  assumes "builder_mainnet X H rpc_url = Inr (B0, limiter)"
    and "B = (if allow_newer then allow_newer_protocol B0 else B0)"
    and "capture X S B scenario n = (Inr f, n1)" and "to_bundle X f = Inr b" and "js_print J b = Some bs"
    and "xdr_laws X" "sha_laws X" "base64_laws X" "json_laws J" "ledger_info_laws X" "stores_no_settings X scenario"
    and "\<And>f n n'. capture X S B scenario n = (Inr f, n') \<Longrightarrow> fits_usize (cf_coverage f)"
  shows "tool_saved X S J scenario allow_newer (Some bs) f"
proof -
  have "replay_with_local X S f scenario = Inr ()"
    using captured_replays [OF assms(6,10,11), of S B "[]" n f n1] assms(3) by (auto simp: keyed_def capture_def)
  then show ?thesis
    using tool_readable [OF assms(1-3,6-9) assms(12) [OF assms(3)] assms(4,5)] assms(4,5) by (auto simp: tool_saved_def)
qed

text \<open>
  C18. The capture tool proves what it saves. When it succeeds, the file at the path holds the
  printed bundle of its capture, loads as that capture and replays the scenario offline. When it
  fails, the file has its old contents, or it is such a proven bundle and the error is one of
  the system: the directory could not be synced or the file not be read back. It never ends with
  a bundle that was written and is then refused, or that does not replay. (The list of covered
  keys has at most as many elements as a \<open>usize\<close> counts.)
\<close>

theorem tool_capture_proves:
  assumes "xdr_laws X" and "sha_laws X" and "base64_laws X" and "json_laws J" and "ledger_info_laws X"
    and "stores_no_settings X scenario" and "path_loc bundle_path = Some dest"
    and "\<And>B limiter f n n'. builder_mainnet X H rpc_url = Inr (B, limiter) \<Longrightarrow>
      capture X S (if allow_newer then allow_newer_protocol B else B) scenario n = (Inr f, n') \<Longrightarrow>
      fits_usize (cf_coverage f)"
    and "tool_capture X S J H scenario rpc_url bundle_path allow_newer (d, w) = (r, (d', w'))"
  shows "case r of
      Inr f \<Rightarrow> tool_saved X S J scenario allow_newer (dk_files d' dest) f
    | Inl e \<Rightarrow> dk_files d' dest = dk_files d dest \<or>
        (\<exists>f. tool_saved X S J scenario allow_newer (dk_files d' dest) f) \<and>
        (\<exists>step\<in>{''read'', ''sync destination directory''}. e = Error (Tool_Error (CaptureBundleIo step)))"
proof -
  obtain x d1 where create: "tool_create_parent bundle_path d = (x, d1)" by fastforce
  note d1 = tool_create_parent_files [OF create]
  show ?thesis
  proof (cases "\<exists>u p. x = Inr u \<and> builder_mainnet X H rpc_url = Inr p")
    case False
    then show ?thesis using assms(9) create d1
      by (cases x; cases "builder_mainnet X H rpc_url") (auto simp: tool_capture_def)
  next
    case True
    then obtain B0 limiter where made: "x = Inr ()" "builder_mainnet X H rpc_url = Inr (B0, limiter)" by auto
    define B where "B = (if allow_newer then allow_newer_protocol B0 else B0)"
    obtain l2 where run: "tool_capture_with X S J B scenario bundle_path allow_newer (d1, (limiter, w)) = (r, (d', (l2, w')))"
      using assms(9) create made by (auto simp: tool_capture_def B_def split: prod.splits)
    have fits: "fits_usize (cf_coverage f)" if "capture X S B scenario n = (Inr f, n')" for f n n'
      using assms(8) [OF made(2)] that unfolding B_def .
    have saved: "tool_saved X S J scenario allow_newer (Some bs) f"
      if "capture X S B scenario n = (Inr f, n1)" "to_bundle X f = Inr b" "js_print J b = Some bs" for f n n1 b bs
      by (rule tool_saves [OF made(2) B_def that assms(1-6)]) (rule fits)
    from run show ?thesis
    proof (cases rule: tool_capture_with_cases)
      case failed
      then show ?thesis using d1 by simp
    next
      case (unwritten f n1 e)
      from write_file_dest [OF unwritten(2) assms(7)] show ?thesis
      proof (elim disjE exE conjE)
        fix b bs
        assume b: "to_bundle X f = Inr b" "js_print J b = Some bs" "dk_files d' dest = Some bs"
          "Inl e = Inl (CaptureBundleIo ''sync destination directory'')"
        then show ?thesis using unwritten(3) saved [OF unwritten(1) b(1,2)] by auto
      qed (use unwritten(3) d1 in simp_all)
    next
      case (written f n1 d3)
      then obtain b bs where b: "to_bundle X f = Inr b" "js_print J b = Some bs" "dk_files d3 dest = Some bs"
        using write_file_dest [OF written(2) assms(7)] by blast
      note f = saved [OF written(1) b(1,2)]
      have "dk_files d' dest = Some bs" using tool_replay_files [OF written(3)] b(3) by simp
      moreover have "r = Inr f \<or> r = Inl (Error (Tool_Error (CaptureBundleIo ''read'')))"
        using f tool_replay_written [OF written(3) assms(7) b(3), of f] by (auto simp: tool_saved_def)
      ultimately show ?thesis using f by auto
    qed
  qed
qed

end
