(* ===== verification/Sample_Tool.thy ===== *)
theory Sample_Tool
  imports Capture_Tool Sample_Auto
begin

text \<open>
  The capture tool against a server whose answers do not parse: the bundle saved before stays.
\<close>

definition garbage_server :: "(unit, unit) http_env" where
  "garbage_server = \<lparr> clock = (\<lambda>w. 0), sleep_for = (\<lambda>delay w. w), post = (\<lambda>operation params w. (Inr (), w)),
     json_network = (\<lambda>resp. None), json_latest = (\<lambda>resp. None), json_entries = (\<lambda>resp. None),
     header_from_xdr = (\<lambda>bs. None), data_from_xdr = (\<lambda>bs. None), ext_from_xdr = (\<lambda>bs. None) \<rparr>"

lemma garbage_http: "http_network garbage_server lw = (Inl ''getNetwork'', fst (limiter_wait garbage_server lw), ())"
  by (cases "limiter_wait garbage_server lw")
    (simp add: http_network_def http_rpc_def send_read_rpc_with_retry_def retry_loop.simps limited_post_def
      garbage_server_def sbind_def smap_err_def slift_def ok_or_def)

lemma garbage_capture:
  assumes "builder_mainnet X garbage_server url = Inr (B, l)" and "B' = (if allow_newer then allow_newer_protocol B else B)"
  shows "\<exists>n'. capture X S B' scenario n = (Inl (Error (Transport ''getNetwork'')), n')"
proof -
  note B = builder_mainnet_parts [OF assms]
  show ?thesis
    by (simp add: capture_def capture_ref_from_keys_def validate_network_def B(3) http_transport_def garbage_http
        sbind_def smap_err_def)
qed

lemma garbage_origin: "\<exists>origin. redact_rpc_origin ''https://h'' = Inr origin"
  by (simp add: redact_rpc_origin_def Let_def)

theorem tool_capture_proves_witness:
  "\<exists>e d'. tool_capture sample_X sample_sdk sample_json garbage_server sample_idle ''https://h'' sample_path False
      (sample_cache_disk, ()) = (Inl e, (d', ())) \<and> dk_files d' (''d'', ''a.json'') = Some [1]"
proof -
  obtain r d' where run: "tool_capture sample_X sample_sdk sample_json garbage_server sample_idle ''https://h'' sample_path False
      (sample_cache_disk, ()) = (r, (d', ()))"
    by (metis prod_cases3 unit.exhaust)
  have quiet: "stores_no_settings sample_X sample_idle"
    by (simp add: stores_no_settings_def sample_idle_def)
  have "fits_usize (cf_coverage f)"
    if "builder_mainnet sample_X garbage_server ''https://h'' = Inr (B, l)"
      "capture sample_X sample_sdk (if False then allow_newer_protocol B else B) sample_idle n = (Inr f, n')" for B l f n n'
    using garbage_capture [OF that(1), of B False] that(2) by (metis Pair_inject Inl_Inr_False)
  note proves = tool_capture_proves [OF sample_xdr_laws sample_sha_laws sample_base64_laws sample_json_laws
      sample_ledger_info_laws quiet sample_path_loc this run]
  have "r = Inl (Error (Tool_Error (Transport ''getNetwork'')))"
  proof -
    obtain B l where B: "builder_mainnet sample_X garbage_server ''https://h'' = Inr (B, l)"
      using garbage_origin by (auto simp: builder_mainnet_def builder_rpc_def)
    have dir: "tool_create_parent sample_path sample_cache_disk =
        (Inr (), sample_cache_disk\<lparr>dk_directories := insert ''d'' (dk_directories sample_cache_disk)\<rparr>)"
      by (simp add: tool_create_parent_def sample_path_def smap_err_def syscall_simps next_fault_def
          sample_cache_disk_def sample_disk_def)
    obtain n' where "capture sample_X sample_sdk B sample_idle (l, ()) = (Inl (Error (Transport ''getNetwork'')), n')"
      using garbage_capture [OF B, of B False sample_sdk sample_idle "(l, ())"] by auto
    then show ?thesis
      using run by (simp add: tool_capture_def dir B tool_capture_with_def sbind_def smap_err_def on_network_def
          split: prod.splits)
  qed
  moreover have "dk_files sample_cache_disk (''d'', ''a.json'') = Some [1]" by (simp add: sample_cache_disk_def)
  ultimately show ?thesis using proves run by auto
qed

end
