(* ===== verification/Aquarius_Report.thy ===== *)
theory Aquarius_Report
  imports Aquarius_Run
begin

text \<open>
  The reports of the strict workflow (\<open>run\<close> and the \<open>_json\<close> functions of \<open>tools/kanatoko.rs\<close>): the
  JSON value, up to the order of an object's fields, and the lines of the text format. Printing a
  JSON value is the business of \<open>serde_json\<close>. The XDR encoders of the values a receipt carries are the
  parameter \<open>C\<close>; \<open>None\<close> is the panic of \<open>xdr_b64\<close> on a value that does not encode.
\<close>

datatype json =
    JNull
  | JBool bool
  | JNumber nat
  | JString string
  | JArray "json list"
  | JObject "(string \<times> json) list"

type_synonym json_fields = "(string \<times> json option) list"

fun json_all :: "json option list \<Rightarrow> json list option" where
  "json_all [] = Some []"
| "json_all (None # js) = None"
| "json_all (Some j # js) = map_option (Cons j) (json_all js)"

definition json_array :: "json option list \<Rightarrow> json option" where
  "json_array js = map_option JArray (json_all js)"

definition json_object :: "json_fields \<Rightarrow> json option" where
  "json_object members = map_option (\<lambda>js. JObject (zip (map fst members) js)) (json_all (map snd members))"

definition json_text :: "string \<Rightarrow> json option" where "json_text s = Some (JString s)"
definition json_number :: "nat \<Rightarrow> json option" where "json_number n = Some (JNumber n)"
definition json_bool :: "bool \<Rightarrow> json option" where "json_bool b = Some (JBool b)"

definition json_or_null :: "('a \<Rightarrow> json option) \<Rightarrow> 'a option \<Rightarrow> json option" where
  "json_or_null f v = (case v of None \<Rightarrow> Some JNull | Some x \<Rightarrow> f x)"

subsection \<open>XDR as text\<close>

record report_codec =
  rk_address :: "sc_address \<Rightarrow> bytes option"
  rk_symbol :: "string \<Rightarrow> bytes option"
  rk_val :: "sc_val \<Rightarrow> bytes option"
  rk_error :: "sc_error \<Rightarrow> bytes option"

definition xdr_b64 :: "externals \<Rightarrow> ('a \<Rightarrow> bytes option) \<Rightarrow> 'a \<Rightarrow> json option" where
  "xdr_b64 X to_xdr value = map_option (\<lambda>bs. JString (b64_encode X bs)) (to_xdr value)"

definition ledger_value_json :: "externals \<Rightarrow> ledger_value \<Rightarrow> json option" where
  "ledger_value_json X value = json_object
     [(''entryXdr'', xdr_b64 X (entry_to_xdr X) (lv_entry value)),
      (''liveUntilLedger'', json_or_null (\<lambda>n. json_number (unat n)) (lv_live_until_ledger value))]"

definition state_change_json :: "externals \<Rightarrow> state_change \<Rightarrow> json option" where
  "state_change_json X change = json_object
     [(''keyXdr'', xdr_b64 X (key_to_xdr X) (sc_key change)),
      (''before'', json_or_null (ledger_value_json X) (sc_before change)),
      (''after'', json_or_null (ledger_value_json X) (sc_after change))]"

definition invoke_error_name :: "invoke_error_kind \<Rightarrow> string" where
  "invoke_error_name kind =
     (case kind of
        Kind_Abort \<Rightarrow> ''Abort''
      | Kind_Contract code \<Rightarrow> ''Contract('' @ decimal (unat code) @ '')''
      | Kind_Result_Conversion \<Rightarrow> ''ResultConversion'')"

definition applied_auth_name :: "applied_auth_mode \<Rightarrow> string" where
  "applied_auth_name mode =
     (case mode of
        Applied_Record \<Rightarrow> ''RecordMockSatisfied''
      | Applied_Mock_Exact \<Rightarrow> ''MockExact''
      | Applied_Enforce \<Rightarrow> ''Enforce'')"

definition disposition_name :: "receipt_disposition \<Rightarrow> string" where
  "disposition_name d =
     (case d of Previewed \<Rightarrow> ''Previewed'' | Committed \<Rightarrow> ''Committed'' | Rejected \<Rightarrow> ''Rejected'')"

definition registration_json :: "externals \<Rightarrow> report_codec \<Rightarrow> candidate_registration \<Rightarrow> json option" where
  "registration_json X C registration = json_object
     [(''addressXdr'', xdr_b64 X (rk_address C) (cd_address registration)),
      (''wasmSha256'', json_text (hex (cd_wasm_sha256 registration))),
      (''mode'', json_text ''local_injection''),
      (''transactionFaithful'', json_bool False),
      (''beforeDigest'', json_text (hex (cd_before_digest registration))),
      (''afterDigest'', json_text (hex (cd_after_digest registration))),
      (''upstreamReads'', json_number (unat (cd_upstream_reads registration))),
      (''stateDiff'', json_array (map (state_change_json X) (cd_state_changes registration)))]"

subsection \<open>Protocols\<close>

text \<open>\<open>Map::insert\<close> replaces the field when there is one.\<close>

definition json_insert :: "string \<Rightarrow> json \<Rightarrow> json \<Rightarrow> json" where
  "json_insert k v j =
     (case j of JObject members \<Rightarrow> JObject (filter (\<lambda>(k', v'). k' \<noteq> k) members @ [(k, v)]) | _ \<Rightarrow> j)"

definition insert_into :: "protocols \<Rightarrow> json \<Rightarrow> json" where
  "insert_into p value =
     json_insert ''executedProtocol'' (JNumber (unat (pr_executed p)))
       (json_insert ''networkProtocol'' (JNumber (unat (pr_network p))) value)"

definition with_protocols :: "protocols option \<Rightarrow> json \<Rightarrow> json" where
  "with_protocols protocols value = (case protocols of None \<Rightarrow> value | Some p \<Rightarrow> insert_into p value)"

subsection \<open>Receipts\<close>

definition outcome_json :: "externals \<Rightarrow> report_codec \<Rightarrow> invoke_outcome \<Rightarrow> json option" where
  "outcome_json X C outcome =
     (case outcome of
        Success value \<Rightarrow> json_object
          [(''status'', json_text ''success''), (''resultXdr'', xdr_b64 X (rk_val C) value)]
      | Failure error kind \<Rightarrow> json_object
          [(''status'', json_text ''error''), (''errorXdr'', json_or_null (xdr_b64 X (rk_error C)) error),
           (''kind'', json_text (invoke_error_name kind))])"

definition event_json :: "externals \<Rightarrow> detached_event \<Rightarrow> json option" where
  "event_json X = (\<lambda>(event, failed_call). json_object
     [(''eventXdr'', json_text (b64_encode X event)), (''failedCall'', json_bool failed_call)])"

definition auth_json :: "externals \<Rightarrow> report_codec \<Rightarrow> auth_tree \<Rightarrow> json option" where
  "auth_json X C = (\<lambda>(address, invocation). json_object
     [(''addressXdr'', xdr_b64 X (rk_address C) address),
      (''invocationXdr'', json_text (b64_encode X invocation))])"

definition request_json :: "externals \<Rightarrow> report_codec \<Rightarrow> invoke_request \<Rightarrow> json option" where
  "request_json X C request = json_object
     [(''contractXdr'', xdr_b64 X (rk_address C) (rq_contract request)),
      (''functionXdr'', xdr_b64 X (rk_symbol C) (rq_function request)),
      (''argsXdr'', json_array (map (xdr_b64 X (rk_val C)) (rq_args request)))]"

definition receipt_json :: "externals \<Rightarrow> report_codec \<Rightarrow> protocols option \<Rightarrow> receipt \<Rightarrow> json option" where
  "receipt_json X C protocols receipt = map_option (with_protocols protocols) (json_object
     [(''request'', request_json X C (rc_request receipt)),
      (''outcome'', outcome_json X C (rc_outcome receipt)),
      (''authMode'', json_text (applied_auth_name (rc_auth_mode receipt))),
      (''auth'', json_array (map (auth_json X C) (rc_authorization receipt))),
      (''events'', json_array (map (event_json X) (rc_events receipt))),
      (''diagnostics'', json_array (map (event_json X) (rc_diagnostics receipt))),
      (''stateDiff'', json_array (map (state_change_json X) (rc_state_changes receipt))),
      (''beforeDigest'', json_text (hex (rc_before_digest receipt))),
      (''afterDigest'', json_text (hex (rc_after_digest receipt))),
      (''disposition'', json_text (disposition_name (rc_disposition receipt))),
      (''upstreamReads'', json_number (unat (rc_upstream_reads receipt)))])"

subsection \<open>The two formats\<close>

definition report_json ::
  "externals \<Rightarrow> report_codec \<Rightarrow> string \<Rightarrow> u32 \<Rightarrow> run_report \<Rightarrow> protocols option \<Rightarrow> json option" where
  "report_json X C fixture_path ledger rp protocols = map_option (with_protocols protocols) (json_object
     [(''evidence'', json_array [json_text ''contract-functional'', json_text ''state-reproducible'']),
      (''transactionFaithfulDeploy'', json_bool False),
      (''fixture'', json_text fixture_path),
      (''ledger'', json_number (unat ledger)),
      (''scenarioPool'', json_text default_pool),
      (''candidateRegistration'', registration_json X C (rp_registration rp)),
      (''mintedUsdc'', json_text (decimal (unat (rp_minted rp)))),
      (''receivedXlm'', json_text (decimal (unat (rp_received rp)))),
      (''quoteBefore'', json_text (decimal (unat (rp_quote_before rp)))),
      (''quoteAfter'', json_text (decimal (unat (rp_quote_after rp)))),
      (''restoredQuote'', json_text (decimal (unat (rp_restored_quote rp)))),
      (''unknownFailClosed'', json_bool (rp_unknown_fail_closed rp)),
      (''upstreamReads'', json_number (unat (rp_upstream_reads rp))),
      (''receipts'', json_array (map (receipt_json X C protocols) (rp_receipts rp)))])"

definition bool_text :: "bool \<Rightarrow> string" where
  "bool_text b = (if b then ''true'' else ''false'')"

definition report_lines :: "u32 \<Rightarrow> run_report \<Rightarrow> protocols option \<Rightarrow> string list" where
  "report_lines ledger rp protocols =
     [''strict Aquarius run: ok'', ''ledger: '' @ decimal (unat ledger)] @
     (case protocols of
        None \<Rightarrow> []
      | Some p \<Rightarrow> [''network protocol: '' @ decimal (unat (pr_network p)),
          ''executed protocol: '' @ decimal (unat (pr_executed p))]) @
     [''candidate install: local injection (not transaction-faithful deploy)'',
      ''quote before: '' @ decimal (unat (rp_quote_before rp)),
      ''quote after: '' @ decimal (unat (rp_quote_after rp)),
      ''revert restored quote: '' @ decimal (unat (rp_restored_quote rp)),
      ''unknown key fail-closed: '' @ bool_text (rp_unknown_fail_closed rp),
      ''upstream reads: '' @ decimal (unat (rp_upstream_reads rp)),
      ''receipts: '' @ decimal (length (rp_receipts rp)) @ '' (use --format json for detached XDR)'']"

subsection \<open>Reports without protocols\<close>

text \<open>A value with every protocol field removed, at any depth; the two fields of an object.\<close>

fun drop_protocols :: "json \<Rightarrow> json" where
  "drop_protocols (JArray js) = JArray (map drop_protocols js)"
| "drop_protocols (JObject members) = JObject (filter (\<lambda>(k, j). k \<noteq> ''networkProtocol'' \<and> k \<noteq> ''executedProtocol'')
     (map (\<lambda>(k, j). (k, drop_protocols j)) members))"
| "drop_protocols j = j"

definition field_of :: "string \<Rightarrow> json \<Rightarrow> json option" where
  "field_of k j = (case j of JObject members \<Rightarrow> map_of members k | _ \<Rightarrow> None)"

definition shows_protocols :: "protocols \<Rightarrow> json \<Rightarrow> bool" where
  "shows_protocols p j \<longleftrightarrow> field_of ''networkProtocol'' j = Some (JNumber (unat (pr_network p))) \<and>
     field_of ''executedProtocol'' j = Some (JNumber (unat (pr_executed p)))"

definition plain_name :: "string \<Rightarrow> bool" where
  "plain_name k \<longleftrightarrow> k \<noteq> ''networkProtocol'' \<and> k \<noteq> ''executedProtocol''"

lemma json_all_Some: "json_all vs = Some js \<longleftrightarrow> vs = map Some js"
  by (induction vs arbitrary: js rule: json_all.induct) auto

lemma json_all_map: "json_all (map (map_option f) vs) = map_option (map f) (json_all vs)"
  by (induction vs rule: json_all.induct) (auto simp: option.map_comp o_def)

named_theorems drop_simps

lemma drop_leaf [drop_simps]:
  "map_option drop_protocols (json_text s) = json_text s" "map_option drop_protocols (json_number n) = json_number n"
  "map_option drop_protocols (json_bool b) = json_bool b"
  "map_option drop_protocols (xdr_b64 X f v) = xdr_b64 X f v"
  by (simp_all add: json_text_def json_number_def json_bool_def xdr_b64_def option.map_comp o_def)

lemma drop_or_null [drop_simps]:
  "map_option drop_protocols (json_or_null f v) = json_or_null (\<lambda>x. map_option drop_protocols (f x)) v"
  by (simp add: json_or_null_def split: option.split)

lemma drop_array [drop_simps]:
  "map_option drop_protocols (json_array vs) = json_array (map (map_option drop_protocols) vs)"
  by (simp add: json_array_def json_all_map option.map_comp o_def)

lemma drop_object [drop_simps]:
  assumes "list_all (\<lambda>(k, v). plain_name k) members"
  shows "map_option drop_protocols (json_object members) =
    json_object (map (\<lambda>(k, v). (k, map_option drop_protocols v)) members)"
proof -
  have "filter (\<lambda>(k, j). k \<noteq> ''networkProtocol'' \<and> k \<noteq> ''executedProtocol'')
      (map (\<lambda>(k, j). (k, drop_protocols j)) (zip (map fst members) js)) =
      zip (map fst members) (map drop_protocols js)" for js
    using assms
    by (induction members arbitrary: js) (auto simp: plain_name_def zip_Cons1 split: list.split)
  then show ?thesis
    using json_all_map [of drop_protocols "map snd members"]
    by (simp add: json_object_def option.map_comp o_def case_prod_beta)
qed

lemma drop_insert [simp]: "drop_protocols (insert_into p j) = drop_protocols j"
proof (cases j)
  case (JObject members)
  have "filter (\<lambda>(k, j). k \<noteq> ''networkProtocol'' \<and> k \<noteq> ''executedProtocol'') (map (\<lambda>(k, j). (k, drop_protocols j))
      (filter (\<lambda>(k', v'). k' \<noteq> ''executedProtocol'') (filter (\<lambda>(k', v'). k' \<noteq> ''networkProtocol'') members))) =
    filter (\<lambda>(k, j). k \<noteq> ''networkProtocol'' \<and> k \<noteq> ''executedProtocol'') (map (\<lambda>(k, j). (k, drop_protocols j)) members)"
    by (induction members) auto
  then show ?thesis by (simp add: JObject insert_into_def json_insert_def)
qed (simp_all add: insert_into_def json_insert_def)

lemma shows_insert: "shows_protocols p (insert_into p (JObject members))"
  by (induction members) (auto simp: shows_protocols_def field_of_def insert_into_def json_insert_def)

lemma field_insert: "plain_name k \<Longrightarrow> field_of k (insert_into p (JObject members)) = field_of k (JObject members)"
  by (induction members) (auto simp: plain_name_def field_of_def insert_into_def json_insert_def)

lemma drop_parts [drop_simps]:
  "map_option drop_protocols (state_change_json X change) = state_change_json X change"
  "map_option drop_protocols (registration_json X C registration) = registration_json X C registration"
  "map_option drop_protocols (request_json X C request) = request_json X C request"
  "map_option drop_protocols (outcome_json X C outcome) = outcome_json X C outcome"
  "map_option drop_protocols (event_json X event) = event_json X event"
  "map_option drop_protocols (auth_json X C tree) = auth_json X C tree"
proof -
  have "map_option drop_protocols (ledger_value_json X v) = ledger_value_json X v" for v
    by (simp add: ledger_value_json_def drop_simps plain_name_def)
  then show change: "map_option drop_protocols (state_change_json X change) = state_change_json X change" for change
    by (simp add: state_change_json_def drop_simps plain_name_def)
  show "map_option drop_protocols (registration_json X C registration) = registration_json X C registration"
    by (simp add: registration_json_def drop_simps plain_name_def o_def change)
qed (simp_all add: request_json_def outcome_json_def event_json_def auth_json_def drop_simps plain_name_def o_def
    split: invoke_outcome.split prod.split)

lemma with_protocols_simps [simp]:
  "with_protocols None = (\<lambda>j. j)" "with_protocols (Some p) = insert_into p"
  by (simp_all add: with_protocols_def fun_eq_iff)

lemma drop_with [drop_simps]:
  "map_option drop_protocols (map_option (with_protocols protocols) v) = map_option drop_protocols v"
  by (cases protocols) (simp_all add: option.map_comp o_def option.map_ident)

lemma drop_receipt [drop_simps]:
  "map_option drop_protocols (receipt_json X C protocols receipt) = receipt_json X C None receipt"
  by (simp add: receipt_json_def drop_simps plain_name_def o_def option.map_ident)

lemma drop_report:
  "map_option drop_protocols (report_json X C fixture_path ledger rp protocols) =
     report_json X C fixture_path ledger rp None"
  by (simp add: report_json_def drop_simps plain_name_def o_def option.map_ident)

lemma json_object_Some:
  assumes "json_object members = Some j"
  shows "(\<exists>ms. j = JObject ms) \<and> (\<forall>k v. map_of members k = Some v \<longrightarrow> (\<exists>jv. v = Some jv \<and> field_of k j = Some jv))"
proof -
  obtain js where js: "map snd members = map Some js" "j = JObject (zip (map fst members) js)"
    using assms by (auto simp: json_object_def json_all_Some)
  have "\<exists>jv. v = Some jv \<and> map_of (zip (map fst members) js) k = Some jv" if "map_of members k = Some v" for k v
    using js(1) that by (induction members arbitrary: js) (auto split: if_splits)
  then show ?thesis by (auto simp: js(2) field_of_def)
qed

lemma map_Some_each: "map g xs = map Some ys \<Longrightarrow> y \<in> set ys \<Longrightarrow> \<exists>x. g x = Some y"
  by (induction ys arbitrary: xs) (auto simp: map_eq_Cons_conv)

lemma receipt_shows: "receipt_json X C (Some p) receipt = Some r \<Longrightarrow> shows_protocols p r"
  unfolding receipt_json_def with_protocols_simps map_option_eq_Some
  using json_object_Some shows_insert by blast

text \<open>
  C24. Protocol traceability is added only in the opt-in mode: the JSON report of a run that accepts
  newer protocols is the default report with the network's and the executed protocol added to the
  report and to every receipt, and removing these fields, at any depth, gives back the default
  report; the two modes also fail together.
\<close>

theorem opt_in_adds_protocols_only:
  "case report_json X C fixture_path ledger rp (Some p) of
     None \<Rightarrow> report_json X C fixture_path ledger rp None = None
   | Some j \<Rightarrow> report_json X C fixture_path ledger rp None = Some (drop_protocols j) \<and> shows_protocols p j \<and>
       (\<exists>rs. field_of ''receipts'' j = Some (JArray rs) \<and> length rs = length (rp_receipts rp) \<and>
         list_all (shows_protocols p) rs)"
proof (cases "report_json X C fixture_path ledger rp (Some p)")
  case None
  then show ?thesis using drop_report [of X C fixture_path ledger rp "Some p"] by simp
next
  case (Some j)
  let ?receipts = "json_array (map (receipt_json X C (Some p)) (rp_receipts rp))"
  obtain j0 members where j: "j = insert_into p j0" "json_object members = Some j0"
      "map_of members ''receipts'' = Some ?receipts"
    using Some by (auto simp: report_json_def)
  obtain ms where ms: "j0 = JObject ms" using json_object_Some [OF j(2)] by blast
  obtain rs where rs: "?receipts = Some rs" "field_of ''receipts'' j0 = Some rs"
    using json_object_Some [OF j(2)] j(3) by blast
  obtain js where js: "rs = JArray js" "map (receipt_json X C (Some p)) (rp_receipts rp) = map Some js"
    using rs(1) by (auto simp: json_array_def json_all_Some)
  have "shows_protocols p r" if r: "r \<in> set js" for r
  proof -
    obtain receipt where "receipt_json X C (Some p) receipt = Some r" using map_Some_each [OF js(2) r] by blast
    then show ?thesis by (rule receipt_shows)
  qed
  moreover have "length js = length (rp_receipts rp)" using js(2) by (metis length_map)
  moreover have "field_of ''receipts'' j = Some (JArray js)"
    using rs(2) by (simp add: j(1) ms js(1) field_insert plain_name_def)
  moreover have "report_json X C fixture_path ledger rp None = Some (drop_protocols j)"
    using drop_report [of X C fixture_path ledger rp "Some p"] Some by simp
  ultimately show ?thesis using Some shows_insert [of p ms] by (auto simp: j(1) ms list_all_iff)
qed

end
