(* ===== verification/Aquarius_Scenario.thy ===== *)
theory Aquarius_Scenario
  imports Scenario_Fork Aquarius_Run Auto_Runner
begin

text \<open>
  The scenario of the capture tool (\<open>aquarius_scenario\<close> of
  \<open>tools/capture_aquarius_xlm_usdc_cp.rs\<close>): quote on the captured pool, mint a tenth of its second
  reserve, swap it with exactly the mocked authorization, and quote again. A generated client's
  method invokes the contract and converts the value, and panics when either fails; a vector's
  elements are converted when they are read. What the test utilities of the SDK do with
  authorization is a parameter.
\<close>

datatype mock_auth_invoke = Mock_Auth_Invoke sc_address string "sc_val list" "mock_auth_invoke list"

type_synonym mock_auth = "sc_address \<times> mock_auth_invoke"

datatype authorized_invocation =
    Authorized_Contract sc_address string "sc_val list" "authorized_invocation list"
  | Authorized_Other bytes "authorized_invocation list"

text \<open>
  \<open>set_auths\<close> with no entries, \<open>mock_auths\<close> (it registers a contract, \<open>None\<close> when that panics),
  \<open>auths\<close>, and whether a value is the unit value.
\<close>

record ('env, 'r) scenario_host =
  sh_pass :: "('env, 'r) pass_host"
  sh_clear_auths :: "'env \<Rightarrow> 'env"
  sh_mock_auths :: "mock_auth list \<Rightarrow> 'env \<Rightarrow> (unit option \<times> 'env) script"
  sh_auths :: "'env \<Rightarrow> (sc_address \<times> authorized_invocation) list"
  sh_is_void :: "sc_val \<Rightarrow> bool"

subsection \<open>Values\<close>

definition val_u32 :: "sc_val \<Rightarrow> u32 option" where
  "val_u32 v = (case v of ScVal_U32 n \<Rightarrow> Some n | _ \<Rightarrow> None)"

definition val_u128 :: "sc_val \<Rightarrow> u128 option" where
  "val_u128 v = (case v of ScVal_U128 hi lo \<Rightarrow> Some (push_bit 64 (ucast hi) OR ucast lo) | _ \<Rightarrow> None)"

definition val_i128 :: "sc_val \<Rightarrow> u128 option" where
  "val_i128 v = (case v of ScVal_I128 hi lo \<Rightarrow> Some (push_bit 64 (ucast hi) OR ucast lo) | _ \<Rightarrow> None)"

definition val_address :: "sc_val \<Rightarrow> sc_address option" where
  "val_address v = (case v of ScVal_Address a \<Rightarrow> Some a | _ \<Rightarrow> None)"

definition val_vec :: "sc_val \<Rightarrow> sc_val list option" where
  "val_vec v = (case v of ScVal_Vec vs \<Rightarrow> vs | _ \<Rightarrow> None)"

definition val_unit :: "('env, 'r) scenario_host \<Rightarrow> sc_val \<Rightarrow> unit option" where
  "val_unit D v = (if sh_is_void D v then Some () else None)"

definition second_element :: "(sc_val \<Rightarrow> 'a option) \<Rightarrow> sc_val list \<Rightarrow> 'a option" where
  "second_element convert vs = (case vs of _ # v # _ \<Rightarrow> convert v | _ \<Rightarrow> None)"

text \<open>\<open>checked_pow\<close> of ten.\<close>

definition checked_ten_pow :: "u32 \<Rightarrow> u128 option" where
  "checked_ten_pow n = (if 10 ^ unat n < (2 ^ 128 :: nat) then Some (10 ^ unat n) else None)"

subsection \<open>Clients\<close>

definition client_call ::
  "('env, 'r) scenario_host \<Rightarrow> sc_address \<Rightarrow> string \<Rightarrow> sc_val list \<Rightarrow> (sc_val \<Rightarrow> 'a option) \<Rightarrow> ('env, 'a) panicking" where
  "client_call D contract function args convert =
     pass_bind (\<lambda>env. ph_invoke_contract (sh_pass D) env contract function args) (\<lambda>v. expect (convert v))"

definition env_update :: "('env \<Rightarrow> 'env) \<Rightarrow> ('env, unit) panicking" where
  "env_update f env = Done (Some (), f env)"

definition env_read :: "('env \<Rightarrow> 'a) \<Rightarrow> ('env, 'a) panicking" where
  "env_read f env = Done (Some (f env), env)"

subsection \<open>The scenario\<close>

definition deterministic_contract_user :: sc_address where
  "deterministic_contract_user = ScAddress_Contract (replicate 32 0x4b)"

definition pool_quote :: "('env, 'r) scenario_host \<Rightarrow> sc_address \<Rightarrow> u128 \<Rightarrow> ('env, u128) panicking" where
  "pool_quote D pool amount =
     client_call D pool ''estimate_swap'' [ScVal_U32 1, ScVal_U32 0, sc_u128 amount] val_u128"

text \<open>The token, one unit of it, the first quote and the amount to mint.\<close>

definition scenario_opening ::
  "('env, 'r) scenario_host \<Rightarrow> sc_address \<Rightarrow> ('env, sc_address \<times> u128 \<times> u128 \<times> u128) panicking" where
  "scenario_opening D pool =
     pass_bind (client_call D pool ''get_tokens'' [] val_vec) (\<lambda>tokens.
     pass_bind (require (length tokens = 2)) (\<lambda>_.
     pass_bind (expect (second_element val_address tokens)) (\<lambda>usdc.
     pass_bind (client_call D usdc ''decimals'' [] val_u32) (\<lambda>decimals.
     pass_bind (expect (checked_ten_pow decimals)) (\<lambda>one_usdc.
     pass_bind (pool_quote D pool one_usdc) (\<lambda>quote_before.
     pass_bind (require (quote_before > 0)) (\<lambda>_.
     pass_bind (client_call D pool ''get_reserves'' [] val_vec) (\<lambda>reserves_before.
     pass_bind (require (length reserves_before = 2)) (\<lambda>_.
     pass_bind (expect (second_element val_u128 reserves_before)) (\<lambda>reserve.
     pass_bind (require (reserve div 10 > one_usdc)) (\<lambda>_.
       pass_return (usdc, one_usdc, quote_before, reserve div 10))))))))))))"

definition mint_evidence ::
  "sc_address \<Rightarrow> sc_address \<Rightarrow> sc_address \<Rightarrow> u128 \<Rightarrow> (sc_address \<times> authorized_invocation) list" where
  "mint_evidence admin usdc user minted_i128 =
     [(admin, Authorized_Contract usdc ''mint'' [ScVal_Address user, sc_i128 minted_i128] [])]"

definition scenario_minting ::
  "('env, 'r) scenario_host \<Rightarrow> sc_address \<Rightarrow> sc_address \<Rightarrow> u128 \<Rightarrow> ('env, unit) panicking" where
  "scenario_minting D usdc user minted_i128 =
     pass_bind (client_call D usdc ''admin'' [] val_address) (\<lambda>admin.
     pass_bind (env_update (h_mock_all_auths (ph_host (sh_pass D)))) (\<lambda>_.
     pass_bind (client_call D usdc ''mint'' [ScVal_Address user, sc_i128 minted_i128] (val_unit D)) (\<lambda>_.
     pass_bind (env_read (sh_auths D)) (\<lambda>auths.
     pass_bind (require (auths = mint_evidence admin usdc user minted_i128)) (\<lambda>_.
     pass_bind (client_call D usdc ''balance'' [ScVal_Address user] val_i128) (\<lambda>balance.
     pass_bind (require (balance = minted_i128)) (\<lambda>_.
       env_update (sh_clear_auths D))))))))"

definition swap_args :: "sc_address \<Rightarrow> u128 \<Rightarrow> sc_val list" where
  "swap_args user minted = [ScVal_Address user, ScVal_U32 1, ScVal_U32 0, sc_u128 minted, sc_u128 0]"

definition transfer_args :: "sc_address \<Rightarrow> sc_address \<Rightarrow> u128 \<Rightarrow> sc_val list" where
  "transfer_args user pool minted_i128 = [ScVal_Address user, ScVal_Address pool, sc_i128 minted_i128]"

definition swap_mocks :: "sc_address \<Rightarrow> sc_address \<Rightarrow> sc_address \<Rightarrow> u128 \<Rightarrow> mock_auth list" where
  "swap_mocks pool usdc user minted =
     [(user, Mock_Auth_Invoke pool ''swap'' (swap_args user minted)
        [Mock_Auth_Invoke usdc ''transfer'' (transfer_args user pool minted) []])]"

definition swap_evidence ::
  "sc_address \<Rightarrow> sc_address \<Rightarrow> sc_address \<Rightarrow> u128 \<Rightarrow> (sc_address \<times> authorized_invocation) list" where
  "swap_evidence pool usdc user minted =
     [(user, Authorized_Contract pool ''swap'' (swap_args user minted)
        [Authorized_Contract usdc ''transfer'' (transfer_args user pool minted) []])]"

definition scenario_swap ::
  "('env, 'r) scenario_host \<Rightarrow> sc_address \<Rightarrow> sc_address \<Rightarrow> sc_address \<Rightarrow> u128 \<Rightarrow> ('env, unit) panicking" where
  "scenario_swap D pool usdc user minted =
     pass_bind (sh_mock_auths D (swap_mocks pool usdc user minted)) (\<lambda>_.
     pass_bind (client_call D pool ''swap'' (swap_args user minted) val_u128) (\<lambda>received.
     pass_bind (require (received > 0)) (\<lambda>_.
     pass_bind (env_read (sh_auths D)) (\<lambda>auths.
       require (auths = swap_evidence pool usdc user minted)))))"

definition aquarius_scenario :: "('env, 'r) scenario_host \<Rightarrow> ('env, unit) panicking" where
  "aquarius_scenario D =
     pass_bind (\<lambda>env. expect (ph_address_from_str (sh_pass D) env default_pool) env) (\<lambda>pool.
     pass_bind (scenario_opening D pool) (\<lambda>(usdc, one_usdc, quote_before, minted).
     pass_bind (expect (case i128_of_u128 minted of Inl e \<Rightarrow> None | Inr n \<Rightarrow> Some n)) (\<lambda>minted_i128.
     pass_bind (scenario_minting D usdc deterministic_contract_user minted_i128) (\<lambda>_.
     pass_bind (scenario_swap D pool usdc deterministic_contract_user minted) (\<lambda>_.
     pass_bind (pool_quote D pool one_usdc) (\<lambda>quote_after.
     pass_bind (require (quote_after \<noteq> quote_before)) (\<lambda>_.
       require (quote_after < quote_before))))))))"

text \<open>As the closure that a capture runs: its value and the keys the Host's storage then holds.\<close>

definition tool_scenario :: "('env, 'r) scenario_host \<Rightarrow> 'env scenario" where
  "tool_scenario D env = map_script
     (\<lambda>(value, env'). \<lparr> oc_value = value, oc_stored = h_stored_entries (ph_host (sh_pass D)) env' \<rparr>)
     (aquarius_scenario D env)"

subsection \<open>Runs against captured state\<close>

text \<open>An operation that does not panic, from one environment and view to the next.\<close>

type_synonym 'env scene = "'env \<times> unit tracking_view"

definition passes :: "externals \<Rightarrow> ('env, 'a) panicking \<Rightarrow> 'env scene \<Rightarrow> 'a \<Rightarrow> 'env scene \<Rightarrow> bool" where
  "passes X m s x s' \<longleftrightarrow>
     follow (tracking_serve X) view_mark_local (m (fst s)) (snd s) = Some ((Some x, fst s'), snd s')"

definition invokes ::
  "externals \<Rightarrow> ('env, 'r) scenario_host \<Rightarrow> sc_address \<Rightarrow> string \<Rightarrow> sc_val list \<Rightarrow> 'env scene \<Rightarrow> sc_val \<Rightarrow> 'env scene \<Rightarrow> bool" where
  "invokes X D contract function args =
     passes X (\<lambda>env. ph_invoke_contract (sh_pass D) env contract function args)"

named_theorems passes_iff

lemma passes_bind [passes_iff]:
  "passes X (pass_bind m f) s y s' \<longleftrightarrow> (\<exists>x t. passes X m s x t \<and> passes X (f x) t y s')"
  by (auto simp: passes_def pass_bind_def follow_bind_script split: option.split prod.split)

lemma passes_steps [passes_iff]:
  "passes X (pass_return x) s y s' \<longleftrightarrow> y = x \<and> s' = s"
  "passes X (env_update f) s u s' \<longleftrightarrow> s' = (f (fst s), snd s)"
  "passes X (env_read g) s y s' \<longleftrightarrow> y = g (fst s) \<and> s' = s"
  by (cases s; cases s'; auto simp: passes_def pass_return_def env_update_def env_read_def)+

lemma passes_checks [passes_iff]:
  "passes X (require b) s u s' \<longleftrightarrow> b \<and> s' = s"
  "passes X (expect x) s y s' \<longleftrightarrow> x = Some y \<and> s' = s"
  "passes X (\<lambda>env. expect (g env) env) s y s' \<longleftrightarrow> g (fst s) = Some y \<and> s' = s"
  by (cases s; cases s'; auto simp: passes_def require_def expect_def pass_return_def panic_def split: option.split)+

lemma passes_client [passes_iff]:
  "passes X (client_call D contract function args convert) s y s' \<longleftrightarrow>
     (\<exists>v. invokes X D contract function args s v s' \<and> convert v = Some y)"
  by (simp only: client_call_def passes_bind passes_checks invokes_def) blast

subsection \<open>What it is for a market to trade\<close>

text \<open>
  Stated on the contracts' own calls, their arguments and their answers, and on the authorization
  the environment recorded, without the steps of the scenario.
\<close>

definition market_quotes ::
  "externals \<Rightarrow> ('env, 'r) scenario_host \<Rightarrow> sc_address \<Rightarrow> u128 \<Rightarrow> 'env scene \<Rightarrow> u128 \<Rightarrow> 'env scene \<Rightarrow> bool" where
  "market_quotes X D pool amount s quote s' \<longleftrightarrow>
     invokes X D pool ''estimate_swap'' [ScVal_U32 1, ScVal_U32 0, sc_u128 amount] s (sc_u128 quote) s'"

definition market_opens ::
  "externals \<Rightarrow> ('env, 'r) scenario_host \<Rightarrow> sc_address \<Rightarrow> 'env scene \<Rightarrow> sc_address \<Rightarrow> u128 \<Rightarrow> u128 \<Rightarrow> u128 \<Rightarrow> 'env scene \<Rightarrow> bool" where
  "market_opens X D pool s usdc one_usdc quote amount s' \<longleftrightarrow> (\<exists>token decimals other reserve s1 s2 s3.
     invokes X D pool ''get_tokens'' [] s (ScVal_Vec (Some [token, ScVal_Address usdc])) s1 \<and>
     invokes X D usdc ''decimals'' [] s1 (ScVal_U32 decimals) s2 \<and> unat one_usdc = 10 ^ unat decimals \<and>
     market_quotes X D pool one_usdc s2 quote s3 \<and> 0 < quote \<and>
     invokes X D pool ''get_reserves'' [] s3 (ScVal_Vec (Some [other, sc_u128 reserve])) s' \<and>
     unat amount = unat reserve div 10 \<and> one_usdc < amount \<and> unat amount < 2 ^ 127)"

definition market_mints ::
  "externals \<Rightarrow> ('env, 'r) scenario_host \<Rightarrow> sc_address \<Rightarrow> sc_address \<Rightarrow> u128 \<Rightarrow> 'env scene \<Rightarrow> 'env scene \<Rightarrow> bool" where
  "market_mints X D usdc user amount s s' \<longleftrightarrow> (\<exists>admin minted s1 s2 s3.
     invokes X D usdc ''admin'' [] s (ScVal_Address admin) s1 \<and>
     invokes X D usdc ''mint'' [ScVal_Address user, sc_i128 amount]
       (h_mock_all_auths (ph_host (sh_pass D)) (fst s1), snd s1) minted s2 \<and> sh_is_void D minted \<and>
     sh_auths D (fst s2) = [(admin, Authorized_Contract usdc ''mint'' [ScVal_Address user, sc_i128 amount] [])] \<and>
     invokes X D usdc ''balance'' [ScVal_Address user] s2 (sc_i128 amount) s3 \<and>
     s' = (sh_clear_auths D (fst s3), snd s3))"

definition market_swaps ::
  "externals \<Rightarrow> ('env, 'r) scenario_host \<Rightarrow> sc_address \<Rightarrow> sc_address \<Rightarrow> sc_address \<Rightarrow> u128 \<Rightarrow> 'env scene \<Rightarrow> 'env scene \<Rightarrow> bool" where
  "market_swaps X D pool usdc user amount s s' \<longleftrightarrow> (\<exists>received s1.
     passes X (sh_mock_auths D [(user, Mock_Auth_Invoke pool ''swap''
         [ScVal_Address user, ScVal_U32 1, ScVal_U32 0, sc_u128 amount, sc_u128 0]
         [Mock_Auth_Invoke usdc ''transfer'' [ScVal_Address user, ScVal_Address pool, sc_i128 amount] []])]) s () s1 \<and>
     invokes X D pool ''swap'' [ScVal_Address user, ScVal_U32 1, ScVal_U32 0, sc_u128 amount, sc_u128 0]
       s1 (sc_u128 received) s' \<and> 0 < received \<and>
     sh_auths D (fst s') = [(user, Authorized_Contract pool ''swap''
         [ScVal_Address user, ScVal_U32 1, ScVal_U32 0, sc_u128 amount, sc_u128 0]
         [Authorized_Contract usdc ''transfer'' [ScVal_Address user, ScVal_Address pool, sc_i128 amount] []])])"

definition market_trades :: "externals \<Rightarrow> ('env, 'r) scenario_host \<Rightarrow> 'env scene \<Rightarrow> bool" where
  "market_trades X D s \<longleftrightarrow> (\<exists>pool usdc one_usdc amount quote_before quote_after s1 s2 s3 s4.
     ph_address_from_str (sh_pass D) (fst s) default_pool = Some pool \<and>
     market_opens X D pool s usdc one_usdc quote_before amount s1 \<and>
     market_mints X D usdc (ScAddress_Contract (replicate 32 0x4b)) amount s1 s2 \<and>
     market_swaps X D pool usdc (ScAddress_Contract (replicate 32 0x4b)) amount s2 s3 \<and>
     market_quotes X D pool one_usdc s3 quote_after s4 \<and> quote_after < quote_before)"

lemma halves:
  "push_bit 64 (ucast (hi :: 64 word)) OR ucast (lo :: 64 word) = (v :: u128) \<longleftrightarrow>
     hi = ucast (drop_bit 64 v) \<and> lo = ucast v"
  by (auto intro!: bit_eqI simp: bit_simps) (auto simp: bit_eq_iff bit_simps dest: bit_imp_le_length)

lemma val_iff:
  "val_u32 v = Some n \<longleftrightarrow> v = ScVal_U32 n" "val_address v = Some a \<longleftrightarrow> v = ScVal_Address a"
  "val_u128 v = Some m \<longleftrightarrow> v = sc_u128 m" "val_i128 v = Some m \<longleftrightarrow> v = sc_i128 m"
  "val_vec v = Some vs \<longleftrightarrow> v = ScVal_Vec (Some vs)" "val_unit D v = Some u \<longleftrightarrow> sh_is_void D v"
  by (auto simp: val_u32_def val_address_def val_u128_def val_i128_def val_vec_def val_unit_def
      sc_u128_def sc_i128_def halves split: sc_val.split)

lemma second_element_iff:
  "length vs = 2 \<Longrightarrow> second_element convert vs = Some y \<longleftrightarrow> (\<exists>a b. vs = [a, b] \<and> convert b = Some y)"
  by (auto simp: second_element_def numeral_2_eq_2 length_Suc_conv)

lemma checked_ten_pow_unat:
  assumes "checked_ten_pow n = Some m"
  shows "unat m = 10 ^ unat n"
proof -
  have "10 ^ unat n < (2 ^ 128 :: nat)" "m = word_of_nat (10 ^ unat n)"
    using assms by (simp_all add: checked_ten_pow_def split: if_splits)
  then show ?thesis by (simp add: unat_of_nat take_bit_nat_eq_self del: of_nat_power)
qed

lemma quote_shows: "passes X (pool_quote D pool amount) s q s' \<longleftrightarrow> market_quotes X D pool amount s q s'"
  by (simp add: pool_quote_def market_quotes_def passes_iff val_iff)

lemma opening_shows:
  assumes "passes X (scenario_opening D pool) s (usdc, one_usdc, quote, amount) s'"
  shows "market_opens X D pool s usdc one_usdc quote amount s'" "i128_of_u128 amount = Inr amount"
proof -
  obtain token decimals other reserve s1 s2 s3 where
    calls: "invokes X D pool ''get_tokens'' [] s (ScVal_Vec (Some [token, ScVal_Address usdc])) s1"
      "invokes X D usdc ''decimals'' [] s1 (ScVal_U32 decimals) s2" "checked_ten_pow decimals = Some one_usdc"
      "market_quotes X D pool one_usdc s2 quote s3" "0 < quote"
      "invokes X D pool ''get_reserves'' [] s3 (ScVal_Vec (Some [other, sc_u128 reserve])) s'"
    and amount: "amount = reserve div 10" "one_usdc < reserve div 10"
    using assms
    by (auto simp: scenario_opening_def passes_iff quote_shows val_iff second_element_iff simp del: split_paired_Ex)
  show fits: "i128_of_u128 amount = Inr amount" unfolding amount(1) by (rule tenth_fits)
  have "unat amount < 2 ^ 127" using fits by (auto simp: i128_of_u128_def split: if_splits)
  moreover have "unat amount = unat reserve div 10" by (simp add: amount(1) unat_div)
  ultimately show "market_opens X D pool s usdc one_usdc quote amount s'"
    using calls checked_ten_pow_unat [OF calls(3)] amount unfolding market_opens_def by blast
qed

lemma minting_shows:
  assumes "passes X (scenario_minting D usdc user amount) s u s'"
  shows "market_mints X D usdc user amount s s'"
proof -
  obtain admin minted s1 s2 s3 where
    "invokes X D usdc ''admin'' [] s (ScVal_Address admin) s1"
    "invokes X D usdc ''mint'' [ScVal_Address user, sc_i128 amount]
       (h_mock_all_auths (ph_host (sh_pass D)) (fst s1), snd s1) minted s2" "sh_is_void D minted"
    "sh_auths D (fst s2) = mint_evidence admin usdc user amount"
    "invokes X D usdc ''balance'' [ScVal_Address user] s2 (sc_i128 amount) s3"
    "s' = (sh_clear_auths D (fst s3), snd s3)"
    using assms by (auto simp: scenario_minting_def passes_iff val_iff simp del: split_paired_Ex)
  then show ?thesis unfolding market_mints_def mint_evidence_def by blast
qed

lemma swap_shows:
  assumes "passes X (scenario_swap D pool usdc user amount) s u s'"
  shows "market_swaps X D pool usdc user amount s s'"
  using assms
  unfolding scenario_swap_def passes_iff val_iff market_swaps_def swap_mocks_def swap_evidence_def swap_args_def transfer_args_def
  by (elim exE conjE) (intro exI conjI; simp)

lemma scenario_trades:
  assumes "passes X (aquarius_scenario D) s u s'"
  shows "market_trades X D s"
proof -
  let ?user = deterministic_contract_user
  obtain pool usdc one_usdc before amount amount_i128 after s1 s2 s3 where
    pool: "ph_address_from_str (sh_pass D) (fst s) default_pool = Some pool"
    and opened: "passes X (scenario_opening D pool) s (usdc, one_usdc, before, amount) s1"
    and fits: "(case i128_of_u128 amount of Inl e \<Rightarrow> None | Inr n \<Rightarrow> Some n) = Some amount_i128"
    and minting: "passes X (scenario_minting D usdc ?user amount_i128) s1 () s2"
    and swap: "passes X (scenario_swap D pool usdc ?user amount) s2 () s3"
    and quote: "passes X (pool_quote D pool one_usdc) s3 after s'" and less: "after < before"
    using assms by (auto simp: aquarius_scenario_def passes_iff simp del: split_paired_Ex)
  have "amount_i128 = amount" using fits opening_shows(2) [OF opened] by simp
  then show ?thesis
    using pool opening_shows(1) [OF opened] minting_shows [OF minting] swap_shows [OF swap] quote less
    unfolding market_trades_def quote_shows deterministic_contract_user_def by blast
qed

lemma captured_scenario_trades:
  assumes "specified_run X S info cov (tool_scenario D) = Some (out, local)" and "oc_value out = Some u"
  shows "market_trades X D (fork_env X S (Seed_Ledger (Some info) (Some (snapshot_of X info cov))), local_empty, cov, ())"
proof -
  let ?env = "fork_env X S (Seed_Ledger (Some info) (Some (snapshot_of X info cov)))"
  obtain env' v where "passes X (aquarius_scenario D) (?env, local_empty, cov, ()) u (env', v)"
    using assms by (auto simp: specified_run_def tool_scenario_def follow_map_script passes_def)
  then show ?thesis by (rule scenario_trades)
qed

text \<open>
  C19. What the capture tool captures is a market that trades. When a capture of the tool's scenario
  succeeds, then on the captured ledger, with every read answered from the captured coverage, the
  pool quotes a unit of its second token, a tenth of that reserve is more than the unit, fits an
  \<open>i128\<close>, is minted to the user under no other authorization than the admin's and is the user's
  balance; swapping it under exactly the mocked authorization (the swap and its one transfer) pays
  out, and the pool's next quote is lower than its first.
\<close>

theorem captured_market_trades:
  assumes "xdr_laws X" and "ledger_info_laws X" and "stores_no_settings X (tool_scenario D)"
    and "capture X S B (tool_scenario D) w = (Inr f, w')"
    and "info = snapshot_ledger_info X (ff_snapshot (cf_fixture f))"
  shows "market_trades X D (fork_env X S (Seed_Ledger (Some info) (Some (snapshot_of X info (cf_coverage f)))),
    local_empty, cf_coverage f, ())"
proof -
  have "\<exists>out local r. specified_run X S info (cf_coverage f) (tool_scenario D) = Some (out, local) \<and> oc_value out = Some r \<and>
      replay_with_local X S f (tool_scenario D) = Inr r"
    using captured_replays [OF assms(1-3), of S B "[]"] assms(4) unfolding assms(5) by (simp add: capture_def keyed_def)
  then show ?thesis using captured_scenario_trades by blast
qed

end
