(* ===== verification/Tool_Main.thy ===== *)
theory Tool_Main
  imports Aquarius_Report Capture_Tool Aquarius_Scenario
begin

text \<open>
  The two programs (\<open>main\<close> of \<open>tools/kanatoko.rs\<close> and of \<open>tools/capture_aquarius_xlm_usdc_cp.rs\<close>): the
  command line chooses the command, and a command that succeeds prints. The state is the disk, the
  network side and the counter of fork ids. A path is displayed as its text; the warning on the
  standard error is not modelled.
\<close>

datatype main_error =
    Main_Options cli_error
  | Main_Tool tool_error
  | Main_Run run_error

datatype main_output = Lines "string list" | Json json

type_synonym 'w world = "disk \<times> 'w \<times> u64"

definition help_lines :: "string list" where
  "help_lines =
     [''Kanatoko strict Soroban fork workflow'', '''',
      ''Capture the Aquarius scenario:'',
      ''  kanatoko capture aquarius-cp [--rpc-url URL] [--bundle PATH]'',
      ''  [--allow-newer-protocol]'', '''',
      ''Run the strict workflow fully offline:'',
      ''  kanatoko run aquarius-cp [--fixture PATH] [--format text|json]'',
      ''  [--candidate-wasm PATH --candidate-sha256 HEX] [--allow-newer-protocol]'', '''',
      ''--allow-newer-protocol accepts a ledger exactly one protocol newer than'',
      ''the Host and executes it on the Host's own protocol. Captures keep the'',
      ''real network protocol; Host behaviour may differ from the network.'', '''']"

definition print_protocols :: "externals \<Rightarrow> capture_provenance \<Rightarrow> string list" where
  "print_protocols X p =
     [''network protocol: '' @ decimal (unat (pv_protocol_version p)),
      ''executed protocol: '' @ decimal (unat (provenance_executed_protocol_version X p))]"

definition capture_lines :: "externals \<Rightarrow> string \<Rightarrow> bool \<Rightarrow> captured_fixture \<Rightarrow> string list" where
  "capture_lines X bundle_path allow_newer captured =
     [''captured ledger '' @ decimal (unat (pv_ledger_sequence (cf_provenance captured)))] @
     (if allow_newer then print_protocols X (cf_provenance captured) else []) @
     [''source origin: '' @ pv_rpc_origin (cf_provenance captured),
      ''scenario pool: '' @ default_pool,
      ''present entries: '' @ decimal (cr_present_entries (cf_report captured)),
      ''confirmed absent entries: '' @ decimal (cr_absent_entries (cf_report captured)),
      ''bundle: '' @ bundle_path,
      ''offline replay: ok'']"

definition replay_lines :: "externals \<Rightarrow> string \<Rightarrow> bool \<Rightarrow> captured_fixture \<Rightarrow> string list" where
  "replay_lines X bundle_path allow_newer captured =
     [''replayed ledger '' @ decimal (unat (pv_ledger_sequence (cf_provenance captured)))] @
     (if allow_newer then print_protocols X (cf_provenance captured) else []) @
     [''scenario pool: '' @ default_pool, ''bundle: '' @ bundle_path, ''offline replay: ok'']"

subsection \<open>The commands\<close>

text \<open>The report is built for both formats: a value that does not encode is a panic in either.\<close>

definition print_report ::
  "externals \<Rightarrow> report_codec \<Rightarrow> string \<Rightarrow> output_format \<Rightarrow> u32 \<times> run_report \<times> protocols option
    \<Rightarrow> main_error fault + main_output" where
  "print_report X C fixture_path format = (\<lambda>(ledger, rp, protocols).
     case report_json X C fixture_path ledger rp protocols of
       None \<Rightarrow> Inl Panicked
     | Some j \<Rightarrow> Inr (case format of
           Json_Format \<Rightarrow> Json j
         | Text_Format \<Rightarrow> Lines (report_lines ledger rp protocols)))"

record ('env, 'r) programs =
  pg_externals :: externals
  pg_json :: json_codec
  pg_host :: "'env host"
  pg_codec :: report_codec
  pg_wrapper :: bundled_wrapper
  pg_path :: "string \<Rightarrow> fs_path"
  pg_client :: "('env, 'r) scenario_host"

definition run_main ::
  "('env, 'r) programs \<Rightarrow> string \<Rightarrow> candidate_artifact \<Rightarrow> output_format \<Rightarrow> bool
    \<Rightarrow> ('w world, main_error fault, main_output) act" where
  "run_main P fixture_path candidate format allow_newer = (\<lambda>(d, w, counter).
     case run_command (pg_externals P) (pg_host P) (pg_json P) (pg_wrapper P) (pg_path P)
         (pg_path P fixture_path) candidate allow_newer (d, counter) of
       (r, (d', counter')) \<Rightarrow>
         (and_then (map_err (map_fault Main_Run) r)
            (print_report (pg_externals P) (pg_codec P) fixture_path format), (d', w, counter')))"

definition capture_main ::
  "('env, 'r) programs \<Rightarrow> ('w, 'resp) http_env \<Rightarrow> string \<Rightarrow> string \<Rightarrow> bool
    \<Rightarrow> ('w world, main_error fault, main_output) act" where
  "capture_main P H rpc_url bundle_path allow_newer = (\<lambda>(d, w, counter).
     case tool_capture (pg_externals P) (h_sdk (pg_host P)) (pg_json P) H (tool_scenario (pg_client P)) rpc_url
         (pg_path P bundle_path) allow_newer (d, w) of
       (r, (d', w')) \<Rightarrow>
         (and_then (map_err (map_fault Main_Tool) r)
            (\<lambda>captured. Inr (Lines (capture_lines (pg_externals P) bundle_path allow_newer captured))),
          (d', w', counter)))"

definition replay_main ::
  "('env, 'r) programs \<Rightarrow> string \<Rightarrow> bool \<Rightarrow> ('w world, main_error fault, main_output) act" where
  "replay_main P bundle_path allow_newer = (\<lambda>(d, w, counter).
     case tool_replay (pg_externals P) (h_sdk (pg_host P)) (pg_json P) (tool_scenario (pg_client P))
         (pg_path P bundle_path) allow_newer d of
       (r, d') \<Rightarrow>
         (and_then (map_err (map_fault Main_Tool) r)
            (\<lambda>captured. Inr (Lines (replay_lines (pg_externals P) bundle_path allow_newer captured))),
          (d', w, counter)))"

definition kanatoko_main ::
  "('env, 'r) programs \<Rightarrow> ('w, 'resp) http_env \<Rightarrow> string list \<Rightarrow> ('w world, main_error fault, main_output) act" where
  "kanatoko_main P H args =
     (case parse_options args of
        Inl e \<Rightarrow> sfail (Error (Main_Options e))
      | Inr Help \<Rightarrow> sret (Lines help_lines)
      | Inr (Capture_Command rpc_url bundle_path allow_newer) \<Rightarrow> capture_main P H rpc_url bundle_path allow_newer
      | Inr (Run_Command fixture candidate format allow_newer) \<Rightarrow> run_main P fixture candidate format allow_newer)"

definition capture_tool_main ::
  "('env, 'r) programs \<Rightarrow> ('w, 'resp) http_env \<Rightarrow> string list \<Rightarrow> ('w world, main_error fault, main_output) act" where
  "capture_tool_main P H args =
     (case parse_tool_options args of
        Inl e \<Rightarrow> sfail (Error (Main_Options e))
      | Inr (Tool_Capture rpc_url bundle_path, allow_newer) \<Rightarrow> capture_main P H rpc_url bundle_path allow_newer
      | Inr (Tool_Replay bundle_path, allow_newer) \<Rightarrow> replay_main P bundle_path allow_newer)"

subsection \<open>What the programs touch\<close>

text \<open>All files but the destination of a write and its fresh temporary file are as before.\<close>

definition only_dest :: "fs_path \<Rightarrow> disk \<Rightarrow> disk \<Rightarrow> bool" where
  "only_dest path d d' \<longleftrightarrow> (\<forall>loc. path_loc path \<noteq> Some loc \<longrightarrow>
     dk_files d' loc = dk_files d loc \<or> dk_files d loc = None \<and>
       (\<exists>dest. path_loc path = Some dest \<and> is_temporary (dk_process_id d) dest loc))"

lemma only_dest_same: "dk_files d' = dk_files d \<Longrightarrow> only_dest path d d'"
  by (simp add: only_dest_def)

lemma write_file_only_dest:
  assumes "write_file X J f path d = (r, d')"
  shows "only_dest path d d'"
  using write_file_runs [OF assms]
proof (elim disjE exE conjE)
  fix b bs
  assume run: "atomic_write path bs d = (r, d')"
  show ?thesis
  proof (cases "path_loc path")
    case None
    then show ?thesis using run
      by (auto simp: atomic_write_def create_temporary_file_def only_dest_def sbind_def sfail_def split: option.splits)
  next
    case (Some dest)
    then show ?thesis using atomic_write_spec [OF run Some] by (simp add: through_def intact_def only_dest_def)
  qed
qed (simp add: only_dest_same)

lemma tool_capture_only_dest:
  assumes "tool_capture X S J H scenario rpc_url path allow_newer (d, w) = (r, (d', w'))"
  shows "only_dest path d d'"
proof -
  obtain x d1 where create: "tool_create_parent path d = (x, d1)" by fastforce
  note d1 = tool_create_parent_files [OF create]
  have pid: "dk_process_id d1 = dk_process_id d"
    using create by (auto simp: tool_create_parent_def smap_err_def syscall_simps split: option.splits if_splits prod.splits)
  have lift: "only_dest path d1 e \<Longrightarrow> only_dest path d e" for e
    using d1 pid by (simp add: only_dest_def)
  show ?thesis
  proof (cases "\<exists>u p. x = Inr u \<and> builder_mainnet X H rpc_url = Inr p")
    case False
    then have "d' = d1" using assms create by (cases x; cases "builder_mainnet X H rpc_url") (auto simp: tool_capture_def)
    then show ?thesis using d1 by (simp add: only_dest_same)
  next
    case True
    then obtain B0 limiter where made: "x = Inr ()" "builder_mainnet X H rpc_url = Inr (B0, limiter)" by auto
    obtain l2 where "tool_capture_with X S J (if allow_newer then allow_newer_protocol B0 else B0) scenario path
        allow_newer (d1, (limiter, w)) = (r, (d', (l2, w')))"
      using assms create made by (auto simp: tool_capture_def split: prod.splits)
    then show ?thesis
    proof (cases rule: tool_capture_with_cases)
      case failed
      then show ?thesis using d1 by (simp add: only_dest_same)
    next
      case (unwritten f n1 e)
      then show ?thesis using write_file_only_dest lift by blast
    next
      case (written f n1 d2)
      then have "only_dest path d1 d2" using write_file_only_dest by blast
      then show ?thesis using lift tool_replay_files [OF written(3)] by (simp add: only_dest_def)
    qed
  qed
qed

lemma load_bundle_files: "load_bundle X J path allow_newer d = (r, d') \<Longrightarrow> dk_files d' = dk_files d"
  using bundle_from_file_files
  by (fastforce simp: load_bundle_def bundle_from_file_def bundle_from_file_allowing_newer_protocol_def split: if_splits)

lemma candidate_bytes_files: "candidate_bytes W path_of candidate d = (r, d') \<Longrightarrow> dk_files d' = dk_files d"
  by (auto simp: candidate_bytes_def smap_err_def syscall_simps sret_def sfail_def
      split: candidate_artifact.splits option.splits prod.splits if_splits)

lemma run_command_files:
  "run_command X H J W path_of path candidate allow_newer (d, counter) = (r, (d', counter')) \<Longrightarrow>
     dk_files d' = dk_files d"
  by (auto simp: run_command_def split: prod.splits sum.splits option.splits
      dest!: load_bundle_files candidate_bytes_files)

lemma capture_tool_main_touches:
  "capture_tool_main P H args (d, w, counter) = (r, (d', w', counter')) \<Longrightarrow>
     counter' = counter \<and>
     (case parse_tool_options args of
        Inr (Tool_Capture rpc_url bundle_path, allow_newer) \<Rightarrow> only_dest (pg_path P bundle_path) d d'
      | _ \<Rightarrow> w' = w \<and> dk_files d' = dk_files d)"
  by (auto simp: capture_tool_main_def capture_main_def replay_main_def sfail_def
      split: prod.splits sum.splits tool_mode.splits dest: tool_replay_files tool_capture_only_dest)

text \<open>
  C23. The main program touches only what the command line names. A command line that does not
  parse, or asks for help, reaches neither the disk nor the network nor the fork counter, and
  only the former fails; the strict workflow is offline (the network side is the one before) and
  changes no file; a capture makes no strict fork and changes no file other than its bundle,
  except temporary files next to it whose names were free.
\<close>

theorem main_touches_only_bundle:
  "case kanatoko_main P H args (d, w, counter) of (r, (d', w', counter')) \<Rightarrow>
     (case parse_options args of
        Inl e \<Rightarrow> r = Inl (Error (Main_Options e)) \<and> d' = d \<and> w' = w \<and> counter' = counter
      | Inr Help \<Rightarrow> r = Inr (Lines help_lines) \<and> d' = d \<and> w' = w \<and> counter' = counter
      | Inr (Run_Command fixture candidate format allow_newer) \<Rightarrow> w' = w \<and> dk_files d' = dk_files d
      | Inr (Capture_Command rpc_url bundle_path allow_newer) \<Rightarrow>
          counter' = counter \<and> only_dest (pg_path P bundle_path) d d')"
  by (auto simp: kanatoko_main_def capture_main_def run_main_def sfail_def sret_def
      split: prod.splits sum.splits cli_options.splits dest: run_command_files tool_capture_only_dest)

end
