(* ===== verification/Sample_Market.thy ===== *)
theory Sample_Market
  imports Aquarius_Scenario Sample_Scenario Sample_Auto
begin

text \<open>
  A pool on which the tool's scenario goes through: the environment remembers whether it was
  traded on, and the witness captures the scenario from the sample server.
\<close>

definition market_token :: sc_address where
  "market_token = ScAddress_Contract (replicate 32 9)"

definition market_pool :: sc_address where
  "market_pool = ScAddress_Contract (replicate 32 8)"

definition market_invoke :: "sdk_snapshot \<Rightarrow> sc_address \<Rightarrow> string \<Rightarrow> sc_val list \<Rightarrow> (sc_val option \<times> sdk_snapshot) script" where
  "market_invoke env contract function args = Done
     (if function = ''get_tokens'' then
        (Some (ScVal_Vec (Some [ScVal_Address market_pool, ScVal_Address market_token])), env\<lparr>sk_rest := []\<rparr>)
      else if function = ''decimals'' then (Some (ScVal_U32 1), env)
      else if function = ''estimate_swap'' then (Some (ScVal_U128 0 (if sk_rest env = [] then 9 else 8)), env)
      else if function = ''get_reserves'' then (Some (ScVal_Vec (Some [ScVal_U128 0 5, ScVal_U128 0 200])), env)
      else if function = ''admin'' then (Some (ScVal_Address market_token), env)
      else if function = ''mint'' then (Some (ScVal_Vec None), env)
      else if function = ''balance'' then (Some (ScVal_I128 0 20), env)
      else if function = ''swap'' then (Some (ScVal_U128 0 7), env\<lparr>sk_rest := [1]\<rparr>)
      else (None, env))"

definition market_client :: "(sdk_snapshot, unit) scenario_host" where
  "market_client = \<lparr> sh_pass = sample_pass_host\<lparr>ph_host := sample_host\<lparr>h_stored_entries := \<lambda>env. Some []\<rparr>,
       ph_address_from_str := \<lambda>env s. Some market_pool, ph_invoke_contract := market_invoke\<rparr>,
     sh_clear_auths = (\<lambda>env. env), sh_mock_auths = (\<lambda>mocks env. Done (Some (), env)),
     sh_auths = (\<lambda>env. if sk_rest env = [] then mint_evidence market_token market_token deterministic_contract_user 20
        else swap_evidence market_pool market_token deterministic_contract_user 20),
     sh_is_void = (\<lambda>v. v = ScVal_Vec None) \<rparr>"

lemma market_runs: "tool_scenario market_client = sample_idle"
proof
  fix env
  show "tool_scenario market_client env = sample_idle env"
    by (simp add: tool_scenario_def sample_idle_def aquarius_scenario_def scenario_opening_def scenario_minting_def
        scenario_swap_def pool_quote_def client_call_def pass_bind_def expect_def require_def pass_return_def
        env_update_def env_read_def market_client_def market_invoke_def second_element_def val_u32_def val_u128_def
        val_i128_def val_address_def val_vec_def val_unit_def checked_ten_pow_def i128_of_u128_def)
qed

theorem captured_market_trades_witness:
  "\<exists>f. capture sample_X sample_sdk sample_builder (tool_scenario market_client) () = (Inr f, ()) \<and>
     market_trades sample_X market_client (fork_env sample_X sample_sdk (Seed_Ledger
       (Some (snapshot_ledger_info sample_X (ff_snapshot (cf_fixture f))))
       (Some (snapshot_of sample_X (snapshot_ledger_info sample_X (ff_snapshot (cf_fixture f))) (cf_coverage f)))),
       local_empty, cf_coverage f, ())"
proof -
  obtain f where f: "capture sample_X sample_sdk sample_builder sample_idle () = (Inr f, ())"
    using sample_idle_capture by blast
  have "stores_no_settings sample_X (tool_scenario market_client)"
    by (simp add: market_runs stores_no_settings_def sample_idle_def)
  from captured_market_trades [OF sample_xdr_laws sample_ledger_info_laws this f [folded market_runs] refl]
  show ?thesis using f by (auto simp: market_runs)
qed

end
