(* ===== verification/Warm_Cache.thy ===== *)
theory Warm_Cache
  imports Sample_Auto
begin

text \<open>
  An online run with a current cache (\<open>AutoRunner::run_online\<close> of \<open>src/auto.rs\<close>): what it asks of the
  network.
\<close>

lemma network_probe:
  assumes "cached_anchor_is_current X B f n = (Inr current, n')"
  shows "\<exists>network anchor n1. tr_network (cb_transport B) n = (Inr network, n1) \<and>
    nw_passphrase network = cb_network_passphrase B \<and>
    tr_latest_ledger (cb_transport B) n1 = (Inr anchor, n') \<and> current = (anchor = captured_anchor f)"
  using assms
  by (auto simp: cached_anchor_is_current_def validate_network_def current_anchor_def split: if_splits)

lemma warm_hit:
  assumes "capture_warm X S J R B scenario path (d, n) = (Inr (Replayed f), (d', n'))"
  shows "dk_files d' = dk_files d \<and> cached_anchor_is_current X B f n = (Inr True, n')"
  using assms
  by (auto simp: capture_warm_def capture_again_def sbind_def smap_err_def slift_def sret_def sfail_def on_disk_def
      on_network_def split: prod.splits sum.splits if_splits dest: bundle_from_file_files)

lemma obtained_hit:
  assumes "obtain_capture X S J R B scenario (d, n) = (Inr (Replayed f), (d', n'))"
  shows "dk_files d' = dk_files d \<and> cached_anchor_is_current X B f n = (Inr True, n')"
proof (cases "if ar_refresh R then None else ar_cache R")
  case None
  then show ?thesis using assms
    by (auto simp: obtain_capture_def capture_cold_def sbind_def sret_def on_network_def smap_err_def split: prod.splits sum.splits)
next
  case (Some path)
  obtain present d1 where d1: "path_exists (Some path) d = (Inr present :: auto_run_error fault + bool, d1)" "dk_files d1 = dk_files d"
    using path_exists_files [of "Some path" d] by (cases "fs_exists path d") (auto simp: path_exists_def)
  have "capture_warm X S J R B scenario path (d1, n) = (Inr (Replayed f), (d', n'))"
    using assms Some d1(1)
    by (cases present) (auto simp: obtain_capture_def capture_cold_def sbind_def sret_def on_disk_def on_network_def smap_err_def
        split: prod.splits sum.splits)
  from warm_hit [OF this] show ?thesis using d1(2) by simp
qed

text \<open>
  C14. An exact cache hit costs two requests: an online run that ends with a cache hit asked for the
  network, which was the runner's, and for the latest ledger, which was the cached one, in this
  order and nothing else; no ledger entry was read, and no file changed.
\<close>

theorem exact_hit_reads_no_entries:
  assumes "run_online X S J R B scenario (d, n) = (Inr run, (d', n'))" and "rn_cache_status run = Cache_Hit"
  shows "\<exists>network anchor n1. tr_network (cb_transport B) n = (Inr network, n1) \<and>
    nw_passphrase network = cb_network_passphrase B \<and>
    tr_latest_ledger (cb_transport B) n1 = (Inr anchor, n') \<and> anchor = captured_anchor (rn_fixture run) \<and>
    dk_files d' = dk_files d"
proof -
  obtain existed d1 where d1: "path_exists (ar_cache R) d = (Inr existed :: auto_run_error fault + bool, d1)" "dk_files d1 = dk_files d"
    using path_exists_files [of "ar_cache R" d]
    by (cases "path_exists (ar_cache R) d :: (auto_run_error fault + bool) \<times> disk")
      (auto simp: path_exists_def split: option.splits prod.splits)
  obtain got d2 n2 where got: "obtain_capture X S J R B scenario (d1, n) = (Inr got, (d2, n2))"
    and fin: "finish_run X S J R existed scenario got (d2, n2) = (Inr run, (d', n'))"
    using assms(1) d1(1) by (auto simp: run_online_def sbind_def on_disk_def split: prod.splits sum.splits)
  show ?thesis
  proof (cases got)
    case (Captured f)
    then show ?thesis
      using fin assms(2) by (auto simp: finish_run_def store_capture_def split: option.splits if_splits)
  next
    case (Replayed f)
    then have "run = \<lparr> rn_fixture = f, rn_cache_status = Cache_Hit \<rparr>" "d' = d2" "n' = n2"
      using fin by (simp_all add: finish_run_def sret_def)
    then show ?thesis
      using obtained_hit [OF got [unfolded Replayed]] network_probe [of X B f n True n2] d1(2) by auto
  qed
qed

lemma sample_anchored: "captured_anchor sample_captured = sample_anchor"
proof -
  have "ff_snapshot (cf_fixture sample_captured) = snapshot_of sample_X
      (ledger_info_of sample_X ''net'' sample_anchor sample_settings) sample_all_coverage"
    using finish_capture_Inr [OF sample_captured_finish] by (simp add: sample_info)
  then show ?thesis
    by (simp add: captured_anchor_def Let_def sample_captured_fields snapshot_of_def ledger_info_of_def sample_anchor_def)
qed

lemma sample_current: "cached_anchor_is_current sample_X sample_builder sample_captured () = (Inr True, ())"
  by (simp add: cached_anchor_is_current_def validate_network_def current_anchor_def sample_network_def
      sample_anchored sample_protocol)
    (simp add: check_protocol_def policy_check_def)

theorem exact_hit_reads_no_entries_witness:
  "run_online sample_X sample_sdk sample_json sample_runner sample_builder sample_unit_scenario (sample_cache_disk, ()) =
     (Inr \<lparr> rn_fixture = sample_captured, rn_cache_status = Cache_Hit \<rparr>, (sample_cache_disk, ())) \<and>
   sample_anchor = captured_anchor sample_captured"
proof -
  have exists: "fs_exists sample_path sample_cache_disk = (True, sample_cache_disk)"
    by (simp add: fs_exists_def next_fault_def sample_path_loc) (simp add: sample_cache_disk_def sample_disk_def sample_path_loc)
  have read: "bundle_from_file_with_policy sample_X sample_json sample_path ''net'' Exact sample_cache_disk =
      (Inr sample_captured, sample_cache_disk)"
    using read_bundle [OF sample_path_loc, of sample_cache_disk "[1]"] sample_bytes_read
    by (simp add: sample_cache_disk_def sample_disk_def)
  have R: "ar_cache sample_runner = Some sample_path" "\<not> ar_refresh sample_runner"
    "ar_network_passphrase sample_runner = ''net''" "ar_protocol_policy sample_runner = Exact"
    by (simp_all add: sample_runner_def runner_offline_def runner_cache_def with_rpc_url_def)
  have run: "run_online sample_X sample_sdk sample_json sample_runner sample_builder sample_unit_scenario (sample_cache_disk, ()) =
     (Inr \<lparr> rn_fixture = sample_captured, rn_cache_status = Cache_Hit \<rparr>, (sample_cache_disk, ()))"
    by (simp add: run_online_def obtain_capture_def capture_warm_def finish_run_def path_exists_def on_disk_def on_network_def
        sbind_def smap_err_def map_err_def sret_def R exists read sample_current sample_replays)
  from exact_hit_reads_no_entries [OF run] run show ?thesis by auto
qed

end
