(* ===== verification/Fixture_Contracts.thy ===== *)
theory Fixture_Contracts
  imports Aquarius_Scenario Scenario_Properties
begin

text \<open>
  The contracts of \<open>fixtures/contracts\<close>, which the tests and the tools run as WASM, and the build
  script. A contract is a step of its environment: its storage, the events it published, and the
  Host behind it, whose authorization check and cross-contract call are the parameter \<open>K\<close>. A trap
  is the error \<open>()\<close>; the contracts are built with overflow checks.
\<close>

datatype fixture_event = Incremented i64 | Rejected_Event i64

record 'w contract_env =
  ce_instance :: "string \<Rightarrow> sc_address option"
  ce_persistent :: "string \<Rightarrow> i64 option"
  ce_events :: "fixture_event list"
  ce_host :: 'w

record 'w contract_host =
  kh_require_auth :: "sc_address \<Rightarrow> ('w, unit, unit) act"
  kh_invoke :: "sc_address \<Rightarrow> string \<Rightarrow> sc_val list \<Rightarrow> ('w, unit, sc_val) act"

type_synonym ('w, 'a) contract_step = "('w contract_env, unit, 'a) act"

definition on_host :: "('w, unit, 'a) act \<Rightarrow> ('w, 'a) contract_step" where
  "on_host m e = (case m (ce_host e) of (r, w) \<Rightarrow> (r, e\<lparr>ce_host := w\<rparr>))"

definition trap_none :: "'a option \<Rightarrow> ('w, 'a) contract_step" where
  "trap_none x = slift (ok_or () x)"

subsection \<open>The wrapper\<close>

definition wrapper_constructor :: "sc_address \<Rightarrow> ('w, unit) contract_step" where
  "wrapper_constructor pool e = sret () (e\<lparr>ce_instance := (ce_instance e)(''pool'' \<mapsto> pool)\<rparr>)"

definition wrapper_pool :: "('w, sc_address) contract_step" where
  "wrapper_pool e = trap_none (ce_instance e ''pool'') e"

definition pool_client ::
  "'w contract_host \<Rightarrow> sc_address \<Rightarrow> string \<Rightarrow> sc_val list \<Rightarrow> (sc_val \<Rightarrow> 'a option) \<Rightarrow> ('w, 'a) contract_step" where
  "pool_client K pool function args convert =
     sbind (on_host (kh_invoke K pool function args)) (\<lambda>v. trap_none (convert v))"

definition wrapper_get_tokens :: "'w contract_host \<Rightarrow> ('w, sc_val list) contract_step" where
  "wrapper_get_tokens K = sbind wrapper_pool (\<lambda>pool. pool_client K pool ''get_tokens'' [] val_vec)"

definition wrapper_get_reserves :: "'w contract_host \<Rightarrow> ('w, sc_val list) contract_step" where
  "wrapper_get_reserves K = sbind wrapper_pool (\<lambda>pool. pool_client K pool ''get_reserves'' [] val_vec)"

definition wrapper_estimate_swap :: "'w contract_host \<Rightarrow> u32 \<Rightarrow> u32 \<Rightarrow> u128 \<Rightarrow> ('w, u128) contract_step" where
  "wrapper_estimate_swap K in_idx out_idx in_amount = sbind wrapper_pool (\<lambda>pool.
     pool_client K pool ''estimate_swap'' [ScVal_U32 in_idx, ScVal_U32 out_idx, sc_u128 in_amount] val_u128)"

definition wrapper_swap ::
  "'w contract_host \<Rightarrow> sc_address \<Rightarrow> u32 \<Rightarrow> u32 \<Rightarrow> u128 \<Rightarrow> u128 \<Rightarrow> ('w, u128) contract_step" where
  "wrapper_swap K user in_idx out_idx in_amount out_min =
     sbind (on_host (kh_require_auth K user)) (\<lambda>_.
     sbind wrapper_pool (\<lambda>pool.
       pool_client K pool ''swap''
         [ScVal_Address user, ScVal_U32 in_idx, ScVal_U32 out_idx, sc_u128 in_amount, sc_u128 out_min] val_u128))"

subsection \<open>The stateful contract\<close>

datatype fixture_contract_error = Rejected

definition stateful_constructor :: "i64 \<Rightarrow> ('w, unit) contract_step" where
  "stateful_constructor initial e = sret () (e\<lparr>ce_persistent := (ce_persistent e)(''value'' \<mapsto> initial)\<rparr>)"

definition stateful_get :: "'w contract_env \<Rightarrow> i64" where
  "stateful_get e = (case ce_persistent e ''value'' of None \<Rightarrow> 0 | Some v \<Rightarrow> v)"

definition publish :: "fixture_event \<Rightarrow> ('w, unit) contract_step" where
  "publish event e = sret () (e\<lparr>ce_events := ce_events e @ [event]\<rparr>)"

definition stateful_increment :: "i64 \<Rightarrow> ('w, i64) contract_step" where
  "stateful_increment amount e =
     sbind (trap_none (checked_add_i64 (stateful_get e) amount)) (\<lambda>next e.
     sbind (publish (Incremented next)) (\<lambda>_. sret next)
       (e\<lparr>ce_persistent := (ce_persistent e)(''value'' \<mapsto> next)\<rparr>)) e"

definition stateful_authorized_increment :: "'w contract_host \<Rightarrow> sc_address \<Rightarrow> i64 \<Rightarrow> ('w, i64) contract_step" where
  "stateful_authorized_increment K user amount =
     sbind (on_host (kh_require_auth K user)) (\<lambda>_. stateful_increment amount)"

definition stateful_increment_then_fail :: "i64 \<Rightarrow> ('w, fixture_contract_error + i64) contract_step" where
  "stateful_increment_then_fail amount =
     sbind (stateful_increment amount) (\<lambda>next.
     sbind (publish (Rejected_Event next)) (\<lambda>_. sret (Inl Rejected)))"

definition checked_add_u128 :: "u128 \<Rightarrow> u128 \<Rightarrow> u128 option" where
  "checked_add_u128 a b = (if unat a + unat b < 2 ^ 128 then Some (a + b) else None)"

definition stateful_estimate_swap :: "u32 \<Rightarrow> u32 \<Rightarrow> u128 \<Rightarrow> ('w, u128) contract_step" where
  "stateful_estimate_swap in_idx out_idx in_amount =
     (if (in_idx, out_idx) = (1, 0) then trap_none (checked_add_u128 in_amount 7) else sfail ())"

subsection \<open>The contract of the older SDK\<close>

definition legacy_sdk_major :: u32 where
  "legacy_sdk_major = 25"

definition legacy_add :: "i64 \<Rightarrow> i64 \<Rightarrow> ('w, i64) contract_step" where
  "legacy_add left right = trap_none (checked_add_i64 left right)"

subsection \<open>The build script\<close>

text \<open>The lines for Cargo, from the crate's major version in the environment.\<close>

definition build_script :: "string option \<Rightarrow> string list" where
  "build_script major =
     [''cargo:rustc-check-cfg=cfg(kanatoko_protocol_27_fixtures)'',
      ''cargo:rustc-check-cfg=cfg(kanatoko_protocol_28_fixtures)'',
      ''cargo:rustc-check-cfg=cfg(kanatoko_protocol_29_fixtures)'',
      ''cargo:rustc-check-cfg=cfg(kanatoko_local_wasm_fixtures)''] @
     (if major = Some ''27'' then
        [''cargo:rustc-cfg=kanatoko_protocol_27_fixtures'', ''cargo:rustc-cfg=kanatoko_local_wasm_fixtures'']
      else if major = Some ''28'' then
        [''cargo:rustc-cfg=kanatoko_protocol_28_fixtures'', ''cargo:rustc-cfg=kanatoko_local_wasm_fixtures'']
      else if major = Some ''29'' then
        [''cargo:rustc-cfg=kanatoko_protocol_29_fixtures'', ''cargo:rustc-cfg=kanatoko_local_wasm_fixtures'']
      else [])"

subsection \<open>The wrapper is transparent\<close>

text \<open>A call of the pool by the wrapper: its value, and the Host as it then is.\<close>

definition pool_answers ::
  "'w contract_host \<Rightarrow> sc_address \<Rightarrow> string \<Rightarrow> sc_val list \<Rightarrow> (sc_val \<Rightarrow> 'a option) \<Rightarrow> 'w \<Rightarrow> (unit + 'a) \<times> 'w" where
  "pool_answers K pool function args convert w =
     (case kh_invoke K pool function args w of
        (Inl e, w') \<Rightarrow> (Inl e, w')
      | (Inr v, w') \<Rightarrow> (ok_or () (convert v), w'))"

lemma pool_client_answers:
  "pool_client K pool function args convert e =
     (case pool_answers K pool function args convert (ce_host e) of (r, w) \<Rightarrow> (r, e\<lparr>ce_host := w\<rparr>))"
  by (simp add: pool_client_def pool_answers_def sbind_def on_host_def trap_none_def slift_def
      split: prod.split sum.split)

lemma wrapper_pool_constructed:
  "wrapper_constructor pool e = (r, e') \<Longrightarrow> wrapper_pool e' = (Inr pool, e')"
  by (auto simp: wrapper_constructor_def wrapper_pool_def trap_none_def slift_def ok_or_def)

lemma wrapper_forwards:
  assumes "wrapper_constructor pool e0 = (r, e)"
  shows "wrapper_get_tokens K e = pool_client K pool ''get_tokens'' [] val_vec e"
    "wrapper_get_reserves K e = pool_client K pool ''get_reserves'' [] val_vec e"
    "wrapper_estimate_swap K i j a e =
       pool_client K pool ''estimate_swap'' [ScVal_U32 i, ScVal_U32 j, sc_u128 a] val_u128 e"
  using wrapper_pool_constructed [OF assms]
  by (simp_all add: wrapper_get_tokens_def wrapper_get_reserves_def wrapper_estimate_swap_def sbind_def)

lemma wrapper_swap_needs_auth:
  assumes "kh_require_auth K user (ce_host e) = (Inl u, w)"
  shows "wrapper_swap K user i j a b e = (Inl u, e\<lparr>ce_host := w\<rparr>)"
  using assms by (simp add: wrapper_swap_def sbind_def on_host_def)

lemma wrapper_untouched_traps: "ce_instance e ''pool'' = None \<Longrightarrow> wrapper_get_tokens K e = (Inl (), e)"
  by (simp add: wrapper_get_tokens_def wrapper_pool_def sbind_def trap_none_def slift_def ok_or_def)

subsection \<open>The counter counts\<close>

fun increments :: "i64 list \<Rightarrow> ('w, unit) contract_step" where
  "increments [] = sret ()"
| "increments (amount # amounts) = sbind (stateful_increment amount) (\<lambda>_. increments amounts)"

definition in_i64 :: "int \<Rightarrow> bool" where
  "in_i64 n \<longleftrightarrow> - (2 ^ 63) \<le> n \<and> n < 2 ^ 63"

fun prefix_sums_fit :: "int \<Rightarrow> int list \<Rightarrow> bool" where
  "prefix_sums_fit v [] = True"
| "prefix_sums_fit v (a # as) = (in_i64 (v + a) \<and> prefix_sums_fit (v + a) as)"

lemma stateful_increment_run:
  "stateful_increment amount e =
     (if in_i64 (sint (stateful_get e) + sint amount)
      then (Inr (stateful_get e + amount), e\<lparr>ce_persistent := (ce_persistent e)(''value'' \<mapsto> stateful_get e + amount),
              ce_events := ce_events e @ [Incremented (stateful_get e + amount)]\<rparr>)
      else (Inl (), e))"
  by (simp add: stateful_increment_def checked_add_i64_def in_i64_def trap_none_def ok_or_def sbind_def slift_def
      publish_def sret_def)

lemma counter_after: "stateful_get (e\<lparr>ce_persistent := (ce_persistent e)(''value'' \<mapsto> v), ce_events := vs\<rparr>) = v"
  by (simp add: stateful_get_def)

lemma add_in_i64: "in_i64 (sint a + sint b) \<Longrightarrow> sint (a + b) = sint a + sint b" for a b :: i64
  using checked_add_i64_Some [of a b "a + b"] by (simp add: checked_add_i64_def in_i64_def)

text \<open>
  The stateful fixture counts exactly: a sequence of increments succeeds if and only if no
  partial sum leaves the \<open>i64\<close>, and then the stored value is the exact sum and one event was
  published per increment; otherwise the contract traps, it never wraps around.
\<close>

theorem counter_counts_exactly:
  "case increments amounts e of (r, e') \<Rightarrow>
     (case r of
        Inr u \<Rightarrow> prefix_sums_fit (sint (stateful_get e)) (map sint amounts) \<and>
          sint (stateful_get e') = sint (stateful_get e) + sum_list (map sint amounts) \<and>
          length (ce_events e') = length (ce_events e) + length amounts
      | Inl u \<Rightarrow> \<not> prefix_sums_fit (sint (stateful_get e)) (map sint amounts))"
proof (induction amounts arbitrary: e)
  case Nil
  then show ?case by (simp add: sret_def)
next
  case (Cons amount amounts)
  let ?v = "stateful_get e + amount"
  let ?e = "e\<lparr>ce_persistent := (ce_persistent e)(''value'' \<mapsto> ?v), ce_events := ce_events e @ [Incremented ?v]\<rparr>"
  show ?case
  proof (cases "in_i64 (sint (stateful_get e) + sint amount)")
    case True
    then have "increments (amount # amounts) e = increments amounts ?e"
      by (simp add: sbind_def stateful_increment_run)
    then show ?thesis using Cons.IH [of ?e] True
      by (simp add: counter_after add_in_i64 algebra_simps split: prod.splits sum.splits)
  next
    case False
    then show ?thesis by (simp add: sbind_def stateful_increment_run)
  qed
qed

text \<open>A refused increment has counted: what undoes it is the Host, which discards a failed call.\<close>

lemma increment_then_fail_counts:
  assumes "stateful_increment_then_fail amount e = (Inr r, e')"
  shows "r = Inl Rejected" "sint (stateful_get e') = sint (stateful_get e) + sint amount"
    "ce_events e' = ce_events e @ [Incremented (stateful_get e'), Rejected_Event (stateful_get e')]"
  using assms
  by (auto simp: stateful_increment_then_fail_def sbind_def stateful_increment_run publish_def sret_def add_in_i64
      stateful_get_def split: if_splits)

text \<open>The fixtures that need a local Host are built exactly for the three protocols.\<close>

lemma build_script_local:
  "''cargo:rustc-cfg=kanatoko_local_wasm_fixtures'' \<in> set (build_script major) \<longleftrightarrow>
     (\<exists>v\<in>{''27'', ''28'', ''29''}. major = Some v)"
  by (auto simp: build_script_def)

end
