(* ===== verification/Spec2Isabelle.thy ===== *)
theory Spec2Isabelle
  imports Capture_Bundle Sample_Strict Sample_Capture Sample_Auto Sample_Scenario Cache_Name Runtime Call_Bounds
    Sample_Aquarius Sample_Tool Tool_Main Sample_Market Warm_Cache Fixture_Contracts
begin

text \<open>
  Kanatoko captures the ledger state that a Soroban scenario uses and replays the scenario on it
  offline. This development models the crate \<open>kanatoko\<close> (\<open>src/*.rs\<close>) and its two tools
  (\<open>tools/*.rs\<close>), and proves what a user of it relies on: a capture replays without the network
  and reads nothing that was not captured, a saved bundle is the capture it was written from, a
  strict fork never meets state it does not know and can be reverted exactly, and the cache on
  disk is replaced only by something that was proven to replay.

  \<^bold>\<open>The parts and how they work together.\<close> A scenario runs in the Host, which asks a snapshot source
  for ledger entries. While capturing, the source fetches unknown keys over RPC; a loop of passes
  (\<open>discovery_loop\<close>) materialises all keys found so far at one ledger and runs the scenario again
  until a pass reads nothing new. The result, a frozen ledger with the coverage that says for every
  known key whether it is present or absent, is printed as a bundle with digests, loaded again with
  every check, and either replayed by the same scenario or made the start of a strict fork, on which
  calls are previewed, applied and reverted. The automatic runner chooses between cache and capture;
  the tools are the command lines over all of it.

  \<^bold>\<open>Conventions.\<close> A \<open>Result\<close> is a sum with the error on the left; code with effects is a function of
  its state that returns its result and the next state (\<open>act\<close> in \<open>Effects\<close>); a panic that is not
  contained is \<open>Panicked\<close> of \<open>fault\<close>. Integers are words of their width (\<open>u32\<close>, \<open>u64\<close>, \<open>i64\<close>,
  \<open>u128\<close>), and checked or saturating where the code is. A \<open>BTreeMap\<close> is its sorted list of
  bindings (\<open>bmap\<close>), a \<open>String\<close> its bytes, a \<open>Duration\<close> its nanoseconds.

  \<^bold>\<open>Code that is not in the repository\<close> is a parameter, never a definition: XDR, SHA-256 and base64
  (the record \<open>externals\<close>, argument \<open>X\<close>), JSON (\<open>json_codec\<close>, \<open>J\<close>), the SDK's environment (\<open>sdk\<close>,
  \<open>S\<close>), the Host (\<open>host\<close>, \<open>pass_host\<close>), HTTP and the clock (\<open>http_env\<close>), the RPC server (\<open>transport\<close>).
  What the program relies on is named where it is used: \<open>xdr_laws\<close> (codecs invert each other),
  \<open>sha_laws\<close> (a digest has 32 bytes), \<open>base64_laws\<close>, \<open>json_laws\<close>, \<open>ledger_info_laws\<close>, \<open>sdk_laws\<close>
  (an environment reports the ledger it was made from), \<open>host_laws\<close> and \<open>pass_host_laws\<close> (a call
  keeps the protocol), \<open>stores_no_settings\<close>, \<open>call_order_law\<close> (a call does not depend on the order in
  which a snapshot lists its entries). No law says that SHA-256 has no collisions: where it matters
  the conclusion names the two preimages. The \<open>Sample_*\<close> theories give concrete functions that meet
  the laws, and evaluate every witness on them.

  A call of the Host is a \<open>script\<close>: a finite tree of ledger reads, marks of local state and a result,
  which may depend on every answer in any way. So theorems about scenarios and calls hold for every
  terminating contract code, and \<open>follow\<close>, the run of a script against fixed coverage, is the
  reference that every source is compared with.

  \<^bold>\<open>Theories and code.\<close>
  \<^item> \<open>Prelude\<close>, \<open>Effects\<close>, \<open>Btree_Map\<close>, \<open>Encoding\<close>, \<open>Errors\<close>, \<open>Ledger_Xdr\<close>: the shared types and
    combinators; the locales \<open>ordered_map\<close> and \<open>framing\<close> with their interpretations.
  \<^item> \<open>Protocol\<close>, \<open>Frozen_Fixture\<close>: \<open>src/fixture.rs\<close>; accepted protocols, the canonical digest, and
    that equal digests mean equal ledgers, or a collision.
  \<^item> \<open>Hex_Codec\<close>, \<open>Rate_Limit\<close>, \<open>Rpc_Client\<close>: digests as text, the rate limiter, the retrying HTTP
    client of \<open>src/capture.rs\<close>; sends keep their distance, a request is sent at most four times.
  \<^item> \<open>Coverage\<close>, \<open>Snapshot_Sources\<close>: validation of captured state, the executable closure, and the
    sources the Host reads (\<open>TrackingSource\<close>, \<open>StrictSource\<close>), both interpretations of the locale
    \<open>snapshot_source\<close>; a failed read stops everything after it.
  \<^item> \<open>Materialize\<close>, \<open>Stable_Ledger\<close>, \<open>Call_Bounds\<close>: reading one coherent ledger; it is coherent when it
    succeeds, it succeeds on a server that holds still, and it asks a bounded number of times.
  \<^item> \<open>Capture\<close>, \<open>Capture_Bundle\<close>, \<open>File_System\<close>, \<open>Bundle_File\<close>: the capture loop, replay, the bundle
    formats, and the atomic write, which refines a register on a disk where every call may fail.
  \<^item> \<open>Runtime\<close>: \<open>src/runtime.rs\<close>; plain forks and the locale \<open>checkpointable\<close>.
  \<^item> \<open>Ledger_Diff\<close>, \<open>Strict_Fork\<close>, \<open>Strict_Invariant\<close>, \<open>Strict_History\<close>, \<open>Strict_Properties\<close>,
    \<open>Bundle_Fork\<close>: \<open>src/strict.rs\<close>; the invariant is that the coverage mirrors the ledger
    (\<open>mirrors\<close>, \<open>fork_ok\<close>), kept by every operation and so by every history (\<open>strict_history\<close>), from a
    capture or from whatever bundle was loaded.
  \<^item> \<open>Auto_Runner\<close>, \<open>Cache_Name\<close>, \<open>Scenario_Fork\<close>, \<open>Scenario_Properties\<close>: \<open>src/auto.rs\<close>; what
    a run may change, and what the operations of a pass read, record and change.
  \<^item> \<open>Cli_Options\<close>, \<open>Aquarius_Run\<close>, \<open>Aquarius_Properties\<close>, \<open>Capture_Tool\<close>,
    \<open>Aquarius_Report\<close>, \<open>Tool_Main\<close>: the tools; their command lines, exactly those of
    a grammar (\<open>command_line\<close>), the strict workflow with a small
    logic of steps (\<open>run_spec\<close>), capturing with read-back, the reports they print, and the two \<open>main\<close>
    functions with what they may touch.
  \<^item> \<open>Aquarius_Scenario\<close>: the scenario the capture tool runs, over the generated clients; a capture of
    it is a market that trades (\<open>market_trades\<close>, stated on the contracts' calls alone).
  \<^item> \<open>Warm_Cache\<close>: what an online run with a current cache asks of the network.
  \<^item> \<open>Fixture_Contracts\<close>: the contracts of \<open>fixtures/contracts\<close>, which count without wrapping around and
    forward to the pool, and \<open>build.rs\<close>.

  \<^bold>\<open>Bounds.\<close> Loops with a limit in the code recurse on that limit, so running out is the code's own
  error and no fuel is added: 8 coherence attempts, 16 discovery rounds, 17 closure rounds of which
  the last reads nothing, 32 temporary names, 4 requests. \<open>retry_loop\<close> and \<open>chunks\<close> have
  termination proofs; everything else is structural.

  \<^bold>\<open>Not modelled.\<close> \<open>lib.rs\<close> only declares modules and re-exports; the generated dispatch of a contract's
  exported functions, and the Host that runs them (their authorization and cross-contract calls are
  parameters, and so is what the test utilities do with authorization in the tool's scenario);
  the order in which \<open>serde_json\<close> prints the fields of an object and its text; warnings on the standard
  error; error messages, which are constructors; \<open>Debug\<close> and \<open>Display\<close> instances, the capture
  source that only tests use, and the tests. Everything mutable is owned by one thread (\<open>Cell\<close> and
  \<open>RefCell\<close> are fields of the state) except the counters of fork ids and temporary names, which are
  atomic, so a run is a sequence of steps.
\<close>

end
